(* ===== verification/Js_Prelude.thy ===== *)
theory Js_Prelude
  imports Main "HOL-Library.Sublist"
begin

text \<open>
  Shared vocabulary of the development of the dashboard under
  \<^verbatim>\<open>src/visualization/web/src\<close>: results of code that may throw, the few string
  operations of JavaScript the sources call (\<open>split\<close>, \<open>replace\<close> with a one-character
  pattern, \<open>join\<close>, case mapping), and the list lemmas the components share. A JavaScript
  string is a \<^typ>\<open>string\<close>; the code only ever compares strings, concatenates them and
  looks for ASCII separators, so nothing depends on the width of a code unit.
\<close>

named_theorems res_simps \<open>how a result runs through a sequence of statements\<close>
named_theorems store_defs \<open>the operations of the state containers\<close>

section \<open>Results of code that may throw\<close>

datatype js_error = TypeError | SyntaxError | InvalidState | Rejected | OutOfModel | OutOfFuel

type_synonym 'a res = "js_error + 'a"

definition res_bind :: "'a res \<Rightarrow> ('a \<Rightarrow> 'b res) \<Rightarrow> 'b res" where
  "res_bind m f = (case m of Inl e \<Rightarrow> Inl e | Inr x \<Rightarrow> f x)"

lemma res_bind_simps [simp, res_simps]:
  "res_bind (Inl e) f = Inl e"
  "res_bind (Inr x) f = f x"
  by (simp_all add: res_bind_def)

lemma res_bind_eq_Inr [res_simps]:
  "res_bind m f = Inr y \<longleftrightarrow> (\<exists>x. m = Inr x \<and> f x = Inr y)"
  by (cases m) auto

lemma res_bind_eq_Inl [res_simps]:
  "res_bind m f = Inl e \<longleftrightarrow> m = Inl e \<or> (\<exists>x. m = Inr x \<and> f x = Inl e)"
  by (cases m) auto

fun res_map :: "('a \<Rightarrow> 'b res) \<Rightarrow> 'a list \<Rightarrow> 'b list res" where
  "res_map f [] = Inr []"
| "res_map f (x # xs) = res_bind (f x) (\<lambda>y. res_bind (res_map f xs) (\<lambda>ys. Inr (y # ys)))"

fun res_fold :: "('a \<Rightarrow> 'b \<Rightarrow> 'b res) \<Rightarrow> 'a list \<Rightarrow> 'b \<Rightarrow> 'b res" where
  "res_fold f [] s = Inr s"
| "res_fold f (x # xs) s = res_bind (f x s) (res_fold f xs)"

lemma res_map_Inr [simp]: "res_map (\<lambda>x. Inr (f x)) xs = Inr (map f xs)"
  by (induction xs) simp_all

lemma res_fold_Inr [simp]: "res_fold (\<lambda>x s. Inr (f x s)) xs s = Inr (fold f xs s)"
  by (induction xs arbitrary: s) simp_all

lemma length_res_map: "res_map f xs = Inr ys \<Longrightarrow> length ys = length xs"
  by (induction xs arbitrary: ys) (auto simp: res_simps)

section \<open>Strings\<close>

abbreviation truthy_str :: "string \<Rightarrow> bool" where
  "truthy_str s \<equiv> s \<noteq> []"

text \<open>\<^verbatim>\<open>s.split(c)\<close> for a one-character separator: always at least one piece.\<close>

fun split_on :: "char \<Rightarrow> string \<Rightarrow> string list" where
  "split_on c [] = [[]]"
| "split_on c (x # xs) =
     (if x = c then [] # split_on c xs
      else (case split_on c xs of [] \<Rightarrow> [[x]] | w # ws \<Rightarrow> (x # w) # ws))"

text \<open>\<^verbatim>\<open>ws.join(sep)\<close>\<close>

fun join_with :: "string \<Rightarrow> string list \<Rightarrow> string" where
  "join_with sep [] = []"
| "join_with sep [w] = w"
| "join_with sep (w # ws) = w @ sep @ join_with sep ws"

text \<open>\<^verbatim>\<open>s.replace(from, to)\<close> with one-character strings: the first occurrence only.\<close>

fun replace_first :: "char \<Rightarrow> char \<Rightarrow> string \<Rightarrow> string" where
  "replace_first a b [] = []"
| "replace_first a b (x # xs) = (if x = a then b # xs else x # replace_first a b xs)"

text \<open>\<^verbatim>\<open>toUpperCase\<close> and \<^verbatim>\<open>toLowerCase\<close> on the ASCII letters.\<close>

definition upper_char :: "char \<Rightarrow> char" where
  "upper_char c =
     (if of_char c \<in> {97..122 :: nat} then char_of (of_char c - 32 :: nat) else c)"

definition lower_char :: "char \<Rightarrow> char" where
  "lower_char c =
     (if of_char c \<in> {65..90 :: nat} then char_of (of_char c + 32 :: nat) else c)"

definition to_upper :: "string \<Rightarrow> string" where
  "to_upper s = map upper_char s"

definition to_lower :: "string \<Rightarrow> string" where
  "to_lower s = map lower_char s"

lemma split_on_nonempty [simp]: "split_on c s \<noteq> []"
  by (induction s) (auto split: list.splits)

lemma split_on_no_sep: "c \<notin> set s \<Longrightarrow> split_on c s = [s]"
  by (induction s) auto

lemma split_on_append_sep:
  "c \<notin> set w \<Longrightarrow> split_on c (w @ c # s) = w # split_on c s"
  by (induction w) auto

lemma split_on_pieces: "w \<in> set (split_on c s) \<Longrightarrow> c \<notin> set w"
  by (induction s arbitrary: w) (auto split: if_splits list.splits)

lemma join_with_Cons:
  "ws \<noteq> [] \<Longrightarrow> join_with sep (w # ws) = w @ sep @ join_with sep ws"
  by (cases ws) simp_all

theorem split_on_join:
  assumes "ws \<noteq> []" and "\<forall>w \<in> set ws. c \<notin> set w"
  shows "split_on c (join_with [c] ws) = ws"
  using assms
proof (induction ws)
  case (Cons w ws)
  then show ?case
    by (cases ws) (simp_all add: split_on_no_sep split_on_append_sep)
qed simp

lemma join_split_on: "join_with [c] (split_on c s) = s"
proof (induction s)
  case (Cons x xs)
  then show ?case
    by (cases "split_on c xs"; cases "tl (split_on c xs)") (auto simp: join_with_Cons)
qed simp

lemma join_with_eq_Nil:
  "join_with [c] ws = [] \<longleftrightarrow> ws = [] \<or> ws = [[]]"
  by (cases "([c], ws)" rule: join_with.cases) auto

lemma replace_first_absent [simp]: "a \<notin> set s \<Longrightarrow> replace_first a b s = s"
  by (induction s) auto

lemma length_replace_first [simp]: "length (replace_first a b s) = length s"
  by (induction s) auto

lemma replace_first_eq_Nil [simp]: "replace_first a b s = [] \<longleftrightarrow> s = []"
  by (cases s) auto

lemma replace_first_append:
  "a \<notin> set u \<Longrightarrow> replace_first a b (u @ a # v) = u @ b # v"
  by (induction u) auto

lemma replace_first_back:
  assumes "b \<notin> set s"
  shows "replace_first b a (replace_first a b s) = s"
  using assms by (induction s) auto

lemma length_to_upper [simp]: "length (to_upper s) = length s"
  by (simp add: to_upper_def)

section \<open>Lists\<close>

text \<open>
  \<^verbatim>\<open>xs[i]\<close> for an array: \<^const>\<open>None\<close> is \<^verbatim>\<open>undefined\<close>, which is what a negative
  or too large index reads.
\<close>

definition at :: "'a list \<Rightarrow> int \<Rightarrow> 'a option" where
  "at xs i = (if 0 \<le> i \<and> i < int (length xs) then Some (xs ! nat i) else None)"

lemma at_nat [simp]: "at xs (int i) = (if i < length xs then Some (xs ! i) else None)"
  by (simp add: at_def)

lemma at_minus_one [simp]: "at xs (- 1) = None"
  by (simp add: at_def)

lemma at_zero [simp]: "at (x # xs) 0 = Some x" "at [] i = None"
  by (simp_all add: at_def)

lemma at_in_set: "at xs i = Some x \<Longrightarrow> x \<in> set xs"
  by (auto simp: at_def split: if_splits)

lemma at_eq_None: "at xs i = None \<longleftrightarrow> i < 0 \<or> int (length xs) \<le> i"
  by (auto simp: at_def)

text \<open>\<^verbatim>\<open>findIndex\<close>: the least index with the property, or \<open>-1\<close>.\<close>

fun find_index_from :: "nat \<Rightarrow> ('a \<Rightarrow> bool) \<Rightarrow> 'a list \<Rightarrow> int" where
  "find_index_from i P [] = - 1"
| "find_index_from i P (x # xs) = (if P x then int i else find_index_from (Suc i) P xs)"

definition find_index :: "('a \<Rightarrow> bool) \<Rightarrow> 'a list \<Rightarrow> int" where
  "find_index P xs = find_index_from 0 P xs"

lemma find_index_from_neg:
  "find_index_from i P xs = - 1 \<longleftrightarrow> (\<forall>x \<in> set xs. \<not> P x)"
  by (induction i P xs rule: find_index_from.induct) auto

lemma find_index_from_Some:
  assumes "x \<in> set xs" and "P x"
  shows "\<exists>k. find_index_from i P xs = int (i + k) \<and> k < length xs \<and> P (xs ! k)
    \<and> (\<forall>j < k. \<not> P (xs ! j))"
  using assms
proof (induction i P xs rule: find_index_from.induct)
  case (2 i P y ys)
  show ?case
  proof (cases "P y")
    case True
    then show ?thesis by (intro exI [of _ 0]) simp
  next
    case False
    with "2.prems" have "x \<in> set ys" by auto
    with "2.IH" False "2.prems" obtain k where
      k: "find_index_from (Suc i) P ys = int (Suc i + k)" "k < length ys" "P (ys ! k)"
        "\<forall>j < k. \<not> P (ys ! j)"
      by blast
    have "\<forall>j < Suc k. \<not> P ((y # ys) ! j)"
      using False k(4) by (auto simp: less_Suc_eq_0_disj)
    with k False show ?thesis by (intro exI [of _ "Suc k"]) simp
  qed
qed simp

lemma find_index_neg: "find_index P xs = - 1 \<longleftrightarrow> (\<forall>x \<in> set xs. \<not> P x)"
  by (simp add: find_index_def find_index_from_neg)

lemma find_index_cases:
  obtains (absent) "find_index P xs = - 1" and "\<forall>x \<in> set xs. \<not> P x"
  | (found) k where "find_index P xs = int k" and "k < length xs" and "P (xs ! k)"
      and "\<forall>j < k. \<not> P (xs ! j)"
proof (cases "\<exists>x \<in> set xs. P x")
  case True
  then obtain x where "x \<in> set xs" "P x" by blast
  from find_index_from_Some [of x xs P 0, OF this] show ?thesis
    by (auto simp: find_index_def intro: found)
next
  case False
  then show ?thesis by (auto simp: find_index_neg intro: absent)
qed

section \<open>State machines\<close>

text \<open>
  A component that moves from state to state: an invariant that holds at the start and is kept
  by every step holds in every reachable state.
\<close>

locale invariant_machine =
  fixes init :: "'s \<Rightarrow> bool"
    and step :: "'s \<Rightarrow> 's \<Rightarrow> bool"
    and inv :: "'s \<Rightarrow> bool"
  assumes inv_init: "init s \<Longrightarrow> inv s"
    and inv_step: "inv s \<Longrightarrow> step s t \<Longrightarrow> inv t"
begin

lemma inv_star:
  assumes "step\<^sup>*\<^sup>* s t" and "inv s"
  shows "inv t"
  using assms by (induction rule: rtranclp_induct) (auto intro: inv_step)

lemma inv_reach: "init s \<Longrightarrow> step\<^sup>*\<^sup>* s t \<Longrightarrow> inv t"
  by (blast intro: inv_init inv_star)

end

end
