(* ===== verification/Js_Number.thy ===== *)
theory Js_Number
  imports Js_Prelude
begin

text \<open>
  JavaScript numbers as the sources use them: IEEE 754 binary64 values, with the rounding
  of arithmetic and of decimal literals written out over the integers, \<open>toString\<close> with its
  shortest round-tripping digits, and \<open>Number(string)\<close>. The finite number \<open>Fin m e\<close> is
  \<open>m * 2 ^ e\<close>, with \<open>m\<close> odd or both zero, so that equality of values is equality of the
  datatype. Negative zero is identified with zero: the two differ only as divisors.
\<close>

section \<open>Values\<close>

datatype jsnum = NaN | Inf bool | Fin int int

abbreviation num_zero :: jsnum where
  "num_zero \<equiv> Fin 0 0"

text \<open>Strip the factors of two from the mantissa.\<close>

function strip2 :: "int \<Rightarrow> int \<Rightarrow> int \<times> int" where
  "strip2 m e = (if m \<noteq> 0 \<and> even m then strip2 (m div 2) (e + 1) else (m, e))"
  by pat_completeness auto
termination
  by (relation "measure (\<lambda>(m, e). nat \<bar>m\<bar>)") (auto elim!: evenE)

declare strip2.simps [simp del]

definition mk_fin :: "int \<Rightarrow> int \<Rightarrow> jsnum" where
  "mk_fin m e = (if m = 0 then num_zero else (case strip2 m e of (m', e') \<Rightarrow> Fin m' e'))"

definition num_of_int :: "int \<Rightarrow> jsnum" where
  "num_of_int n = mk_fin n 0"

text \<open>
  Numerator and denominator of \<open>m * 2 ^ e\<close>, and of \<open>m * 10 ^ e\<close> for decimal literals.
\<close>

definition scale_num :: "int \<Rightarrow> int \<Rightarrow> int \<Rightarrow> int" where
  "scale_num b m e = (if 0 \<le> e then m * b ^ nat e else m)"

definition scale_den :: "int \<Rightarrow> int \<Rightarrow> int" where
  "scale_den b e = (if 0 \<le> e then 1 else b ^ nat (- e))"

section \<open>Rounding a fraction to the nearest number\<close>

function ilog2 :: "int \<Rightarrow> int" where
  "ilog2 n = (if n < 2 then 0 else 1 + ilog2 (n div 2))"
  by pat_completeness auto
termination
  by (relation "measure nat") auto

declare ilog2.simps [simp del]

text \<open>\<open>floor (log 2 (a / d))\<close> for positive \<open>a\<close> and \<open>d\<close>.\<close>

definition frac_log2 :: "int \<Rightarrow> int \<Rightarrow> int" where
  "frac_log2 a d =
     (let l = ilog2 a - ilog2 d
      in if a * scale_den 2 l < d * scale_num 2 1 l then l - 1 else l)"

text \<open>Division rounded to nearest, ties to even.\<close>

definition div_even :: "int \<Rightarrow> int \<Rightarrow> int" where
  "div_even a d =
     (let q = a div d; r = a mod d
      in if 2 * r < d \<or> (2 * r = d \<and> even q) then q else q + 1)"

text \<open>The number for the mathematical value \<open>n / d\<close> (\<open>d > 0\<close>).\<close>

definition round_frac :: "int \<Rightarrow> int \<Rightarrow> jsnum" where
  "round_frac n d =
     (if n = 0 then num_zero
      else
        let a = \<bar>n\<bar>;
            e = max (frac_log2 a d - 52) (- 1074);
            q = div_even (a * scale_den 2 e) (d * scale_num 2 1 e)
        in if scale_den 2 e * 2 ^ 1024 \<le> q * scale_num 2 1 e then Inf (n < 0)
           else mk_fin (sgn n * q) e)"

section \<open>Arithmetic and comparison\<close>

fun num_add :: "jsnum \<Rightarrow> jsnum \<Rightarrow> jsnum" where
  "num_add NaN _ = NaN"
| "num_add _ NaN = NaN"
| "num_add (Inf a) (Inf b) = (if a = b then Inf a else NaN)"
| "num_add (Inf a) _ = Inf a"
| "num_add _ (Inf b) = Inf b"
| "num_add (Fin m e) (Fin m' e') =
     round_frac (scale_num 2 m e * scale_den 2 e' + scale_num 2 m' e' * scale_den 2 e)
       (scale_den 2 e * scale_den 2 e')"

fun num_neg :: "jsnum \<Rightarrow> jsnum" where
  "num_neg NaN = NaN"
| "num_neg (Inf a) = Inf (\<not> a)"
| "num_neg (Fin m e) = Fin (- m) e"

definition num_sub :: "jsnum \<Rightarrow> jsnum \<Rightarrow> jsnum" where
  "num_sub a b = num_add a (num_neg b)"

fun num_mult :: "jsnum \<Rightarrow> jsnum \<Rightarrow> jsnum" where
  "num_mult NaN _ = NaN"
| "num_mult _ NaN = NaN"
| "num_mult (Inf a) (Inf b) = Inf (a \<noteq> b)"
| "num_mult (Inf a) (Fin m e) = (if m = 0 then NaN else Inf (a \<noteq> (m < 0)))"
| "num_mult (Fin m e) (Inf b) = (if m = 0 then NaN else Inf (b \<noteq> (m < 0)))"
| "num_mult (Fin m e) (Fin m' e') =
     round_frac (scale_num 2 m e * scale_num 2 m' e') (scale_den 2 e * scale_den 2 e')"

fun num_div :: "jsnum \<Rightarrow> jsnum \<Rightarrow> jsnum" where
  "num_div NaN _ = NaN"
| "num_div _ NaN = NaN"
| "num_div (Inf a) (Inf b) = NaN"
| "num_div (Inf a) (Fin m e) = Inf (a \<noteq> (m < 0))"
| "num_div (Fin m e) (Inf b) = num_zero"
| "num_div (Fin m e) (Fin m' e') =
     (if m' = 0 then (if m = 0 then NaN else Inf (m < 0))
      else round_frac (sgn m' * scale_num 2 m e * scale_den 2 e')
             (scale_den 2 e * \<bar>scale_num 2 m' e'\<bar>))"

fun num_less :: "jsnum \<Rightarrow> jsnum \<Rightarrow> bool" where
  "num_less NaN _ = False"
| "num_less _ NaN = False"
| "num_less (Inf a) (Inf b) = (a \<and> \<not> b)"
| "num_less (Inf a) (Fin _ _) = a"
| "num_less (Fin _ _) (Inf b) = (\<not> b)"
| "num_less (Fin m e) (Fin m' e') =
     (scale_num 2 m e * scale_den 2 e' < scale_num 2 m' e' * scale_den 2 e)"

definition num_eq :: "jsnum \<Rightarrow> jsnum \<Rightarrow> bool" where
  "num_eq a b \<longleftrightarrow> a \<noteq> NaN \<and> a = b"

definition num_truthy :: "jsnum \<Rightarrow> bool" where
  "num_truthy a \<longleftrightarrow> a \<noteq> NaN \<and> a \<noteq> num_zero"

text \<open>\<^verbatim>\<open>Math.min(a, b)\<close> and \<^verbatim>\<open>Math.max(a, b)\<close>: NaN when either is.\<close>

definition math_min :: "jsnum \<Rightarrow> jsnum \<Rightarrow> jsnum" where
  "math_min a b =
     (if a = NaN \<or> b = NaN then NaN else if num_less b a then b else a)"

definition math_max :: "jsnum \<Rightarrow> jsnum \<Rightarrow> jsnum" where
  "math_max a b =
     (if a = NaN \<or> b = NaN then NaN else if num_less a b then b else a)"

text \<open>\<^verbatim>\<open>Math.round\<close>: the nearest integer, ties towards positive infinity.\<close>

fun math_round :: "jsnum \<Rightarrow> jsnum" where
  "math_round (Fin m e) =
     num_of_int ((2 * scale_num 2 m e + scale_den 2 e) div (2 * scale_den 2 e))"
| "math_round x = x"

section \<open>Printing\<close>

definition digit_char :: "int \<Rightarrow> char" where
  "digit_char n = char_of (48 + n)"

text \<open>The decimal digits of a non-negative integer.\<close>

function int_digits :: "int \<Rightarrow> string" where
  "int_digits n =
     (if n < 10 then [digit_char n] else int_digits (n div 10) @ [digit_char (n mod 10)])"
  by pat_completeness auto
termination
  by (relation "measure nat") auto

declare int_digits.simps [simp del]

function ilog10 :: "int \<Rightarrow> int" where
  "ilog10 n = (if n < 10 then 0 else 1 + ilog10 (n div 10))"
  by pat_completeness auto
termination
  by (relation "measure nat") auto

declare ilog10.simps [simp del]

text \<open>How often \<open>a / d\<close> is multiplied by ten before it reaches one.\<close>

function lead_zeros :: "int \<Rightarrow> int \<Rightarrow> nat" where
  "lead_zeros a d = (if a \<le> 0 \<or> d \<le> a then 0 else Suc (lead_zeros (10 * a) d))"
  by pat_completeness auto
termination
  by (relation "measure (\<lambda>(a, d). nat (d - a))") auto

declare lead_zeros.simps [simp del]

text \<open>The \<open>n\<close> with \<open>10 ^ (n - 1) \<le> a / d < 10 ^ n\<close>.\<close>

definition dec_point :: "int \<Rightarrow> int \<Rightarrow> int" where
  "dec_point a d =
     (if d \<le> a then ilog10 (a div d) + 1 else 1 - int (lead_zeros a d))"

text \<open>
  The shortest digits that read back as the number: the first \<open>k\<close> for which the \<open>k\<close>-digit
  decimal nearest to \<open>a / d\<close> rounds to \<open>x\<close>; seventeen digits always do.
\<close>

fun shortest_digits :: "nat \<Rightarrow> nat \<Rightarrow> jsnum \<Rightarrow> int \<Rightarrow> int \<Rightarrow> int \<Rightarrow> int \<times> nat" where
  "shortest_digits 0 k x a d n =
     (div_even (a * scale_num 10 1 (int k - n)) (d * scale_num 10 1 (n - int k)), k)"
| "shortest_digits (Suc fuel) k x a d n =
     (let s = div_even (a * scale_num 10 1 (int k - n)) (d * scale_num 10 1 (n - int k))
      in if round_frac (scale_num 10 s (n - int k)) (scale_den 10 (n - int k)) = x then (s, k)
         else shortest_digits fuel (Suc k) x a d n)"

definition layout_digits :: "string \<Rightarrow> int \<Rightarrow> string" where
  "layout_digits ds n =
     (let k = int (length ds)
      in if k \<le> n \<and> n \<le> 21 then ds @ replicate (nat (n - k)) CHR ''0''
         else if 0 < n \<and> n \<le> 21 then take (nat n) ds @ ''.'' @ drop (nat n) ds
         else if - 6 < n \<and> n \<le> 0 then ''0.'' @ replicate (nat (- n)) CHR ''0'' @ ds
         else
           let ex = (if n - 1 < 0 then ''-'' else ''+'') @ int_digits \<bar>n - 1\<bar>
           in (if k = 1 then ds @ ''e'' @ ex
               else take 1 ds @ ''.'' @ drop 1 ds @ ''e'' @ ex))"

fun num_to_string :: "jsnum \<Rightarrow> string" where
  "num_to_string NaN = ''NaN''"
| "num_to_string (Inf neg) = (if neg then ''-Infinity'' else ''Infinity'')"
| "num_to_string (Fin m e) =
     (if m = 0 then ''0''
      else
        let a = scale_num 2 \<bar>m\<bar> e; d = scale_den 2 e; n = dec_point a d;
            (s, k) = shortest_digits 16 1 (Fin \<bar>m\<bar> e) a d n
        in (if m < 0 then ''-'' else '''') @ layout_digits (int_digits s) n)"

section \<open>Reading: \<^verbatim>\<open>Number(string)\<close> and unary plus\<close>

definition is_space :: "char \<Rightarrow> bool" where
  "is_space c \<longleftrightarrow> of_char c \<in> {9, 10, 11, 12, 13, 32, 160 :: int}"

definition trim :: "string \<Rightarrow> string" where
  "trim s = rev (dropWhile is_space (rev (dropWhile is_space s)))"

definition digit_value :: "char \<Rightarrow> int" where
  "digit_value c =
     (let n = of_char c
      in if 48 \<le> n \<and> n \<le> 57 then n - 48
         else if 97 \<le> n \<and> n \<le> 122 then n - 87
         else if 65 \<le> n \<and> n \<le> 90 then n - 55 else 99)"

text \<open>The longest prefix of digits of the base: its value, its length and the rest.\<close>

fun read_digits :: "int \<Rightarrow> string \<Rightarrow> int \<Rightarrow> nat \<Rightarrow> int \<times> nat \<times> string" where
  "read_digits b [] acc k = (acc, k, [])"
| "read_digits b (c # cs) acc k =
     (if digit_value c < b then read_digits b cs (acc * b + digit_value c) (Suc k)
      else (acc, k, c # cs))"

text \<open>An exponent part, or nothing; \<open>None\<close> when it is malformed.\<close>

definition read_exponent :: "string \<Rightarrow> int option" where
  "read_exponent s =
     (case s of [] \<Rightarrow> Some 0
      | c # cs \<Rightarrow>
          if c \<noteq> CHR ''e'' \<and> c \<noteq> CHR ''E'' then None
          else
            let (sg, ds) = (case cs of [] \<Rightarrow> (1, cs)
                 | x # xs \<Rightarrow> if x = CHR ''-'' then (- 1, xs)
                     else if x = CHR ''+'' then (1, xs) else (1, cs));
                (v, k, rest) = read_digits 10 ds 0 0
            in if k = 0 \<or> rest \<noteq> [] then None else Some (sg * v))"

definition read_unsigned :: "int \<Rightarrow> string \<Rightarrow> jsnum" where
  "read_unsigned sg s =
     (if s = ''Infinity'' then Inf (sg < 0)
      else
        let (v, k, rest) = read_digits 10 s 0 0;
            (v', k', rest') = (case rest of [] \<Rightarrow> (v, 0, rest)
               | c # cs \<Rightarrow> if c = CHR ''.'' then read_digits 10 cs v 0 else (v, 0, rest))
        in if k + k' = 0 then NaN
           else (case read_exponent rest' of None \<Rightarrow> NaN
                 | Some ex \<Rightarrow>
                     round_frac (scale_num 10 (sg * v') (ex - int k'))
                       (scale_den 10 (ex - int k'))))"

definition read_radix :: "int \<Rightarrow> string \<Rightarrow> jsnum" where
  "read_radix b s =
     (let (v, k, rest) = read_digits b s 0 0
      in if k = 0 \<or> rest \<noteq> [] then NaN else round_frac v 1)"

definition string_to_num :: "string \<Rightarrow> jsnum" where
  "string_to_num str =
     (let s = trim str
      in case s of [] \<Rightarrow> num_zero
         | c # cs \<Rightarrow>
             if c = CHR ''-'' then read_unsigned (- 1) cs
             else if c = CHR ''+'' then read_unsigned 1 cs
             else if take 2 s \<in> {''0x'', ''0X''} then read_radix 16 (drop 2 s)
             else if take 2 s \<in> {''0o'', ''0O''} then read_radix 8 (drop 2 s)
             else if take 2 s \<in> {''0b'', ''0B''} then read_radix 2 (drop 2 s)
             else read_unsigned 1 s)"

end
