(* ===== verification/Js_Value.thy ===== *)
theory Js_Value
  imports Js_Number "HOL-Library.AList" "HOL-Library.Multiset"
begin

text \<open>
  Dynamically typed JavaScript values, for the code that handles whatever the server sent:
  truthiness, coercions, \<open>+\<close>, strict equality, property reads that throw on \<open>null\<close> and
  \<open>undefined\<close>, and the enumeration order of own keys. An object is an association list in
  insertion order; inherited properties are not modelled (the sources read none of them), nor
  is the identity of objects.
\<close>

section \<open>Values and coercions\<close>

datatype jsv =
    JUndef | JNull | JBool bool | JNum jsnum | JStr string
  | JArr "jsv list" | JObj "(string \<times> jsv) list"

fun truthy :: "jsv \<Rightarrow> bool" where
  "truthy JUndef = False"
| "truthy JNull = False"
| "truthy (JBool b) = b"
| "truthy (JNum n) = num_truthy n"
| "truthy (JStr s) = (s \<noteq> [])"
| "truthy (JArr _) = True"
| "truthy (JObj _) = True"

fun is_string :: "jsv \<Rightarrow> bool" where
  "is_string (JStr _) = True"
| "is_string _ = False"

fun js_to_string :: "jsv \<Rightarrow> string" where
  "js_to_string JUndef = ''undefined''"
| "js_to_string JNull = ''null''"
| "js_to_string (JBool b) = (if b then ''true'' else ''false'')"
| "js_to_string (JNum n) = num_to_string n"
| "js_to_string (JStr s) = s"
| "js_to_string (JArr xs) =
     join_with '','' (map (\<lambda>x. case x of JUndef \<Rightarrow> [] | JNull \<Rightarrow> [] | _ \<Rightarrow> js_to_string x) xs)"
| "js_to_string (JObj _) = ''[object Object]''"

fun js_to_num :: "jsv \<Rightarrow> jsnum" where
  "js_to_num JUndef = NaN"
| "js_to_num JNull = num_zero"
| "js_to_num (JBool b) = (if b then num_of_int 1 else num_zero)"
| "js_to_num (JNum n) = n"
| "js_to_num v = string_to_num (js_to_string v)"

text \<open>\<open>ToPrimitive\<close> turns arrays and objects into strings, so \<open>+\<close> concatenates on them too.\<close>

fun concatenates :: "jsv \<Rightarrow> bool" where
  "concatenates (JStr _) = True"
| "concatenates (JArr _) = True"
| "concatenates (JObj _) = True"
| "concatenates _ = False"

definition js_add :: "jsv \<Rightarrow> jsv \<Rightarrow> jsv" where
  "js_add a b =
     (if concatenates a \<or> concatenates b then JStr (js_to_string a @ js_to_string b)
      else JNum (num_add (js_to_num a) (js_to_num b)))"

text \<open>\<open>===\<close> on primitive values; two objects are never taken to be the same one.\<close>

fun strict_eq :: "jsv \<Rightarrow> jsv \<Rightarrow> bool" where
  "strict_eq JUndef JUndef = True"
| "strict_eq JNull JNull = True"
| "strict_eq (JBool a) (JBool b) = (a = b)"
| "strict_eq (JNum a) (JNum b) = num_eq a b"
| "strict_eq (JStr a) (JStr b) = (a = b)"
| "strict_eq _ _ = False"

lemma truthy_JStr_iff: "is_string v \<Longrightarrow> truthy v \<longleftrightarrow> v \<noteq> JStr []"
  by (cases v) auto

lemma strict_eq_JStr [simp]:
  "strict_eq (JStr a) v \<longleftrightarrow> v = JStr a" "strict_eq v (JStr a) \<longleftrightarrow> v = JStr a"
  by (cases v; auto)+

lemma js_add_strings [simp]: "js_add (JStr a) (JStr b) = JStr (a @ b)"
  by (simp add: js_add_def)

lemma js_add_string_right: "js_add a (JStr b) = JStr (js_to_string a @ b)"
  by (simp add: js_add_def)

lemma js_add_nums [simp]: "js_add (JNum a) (JNum b) = JNum (num_add a b)"
  by (simp add: js_add_def)

section \<open>Properties\<close>

text \<open>An array index or an object's integer key: \<open>0\<close> or digits with no leading zero.\<close>

definition is_index_key :: "string \<Rightarrow> bool" where
  "is_index_key k \<longleftrightarrow>
     k = ''0'' \<or> (k \<noteq> [] \<and> hd k \<noteq> CHR ''0'' \<and> list_all (\<lambda>c. digit_value c < 10) k)"

definition key_index :: "string \<Rightarrow> int" where
  "key_index k = fst (read_digits 10 k 0 0)"

text \<open>\<^verbatim>\<open>v.k\<close>: a \<open>TypeError\<close> on \<open>undefined\<close> and \<open>null\<close>, \<open>undefined\<close> for an absent key.\<close>

fun get_prop :: "jsv \<Rightarrow> string \<Rightarrow> jsv res" where
  "get_prop JUndef k = Inl TypeError"
| "get_prop JNull k = Inl TypeError"
| "get_prop (JObj ps) k = Inr (case map_of ps k of None \<Rightarrow> JUndef | Some v \<Rightarrow> v)"
| "get_prop (JArr xs) k =
     Inr (if k = ''length'' then JNum (num_of_int (int (length xs)))
          else if is_index_key k then (case at xs (key_index k) of None \<Rightarrow> JUndef | Some v \<Rightarrow> v)
          else JUndef)"
| "get_prop (JStr s) k =
     Inr (if k = ''length'' then JNum (num_of_int (int (length s)))
          else if is_index_key k then (case at s (key_index k) of None \<Rightarrow> JUndef | Some c \<Rightarrow> JStr [c])
          else JUndef)"
| "get_prop (JBool b) k = Inr JUndef"
| "get_prop (JNum n) k = Inr JUndef"

fun elements :: "jsv \<Rightarrow> jsv list res" where
  "elements (JArr xs) = Inr xs"
| "elements _ = Inl TypeError"

text \<open>
  \<^verbatim>\<open>Object.keys\<close>: integer keys in ascending order, then the other keys in the order in
  which they were added.
\<close>

definition own_keys :: "(string \<times> 'v) list \<Rightarrow> string list" where
  "own_keys ps =
     sort_key key_index (filter is_index_key (map fst ps))
       @ filter (\<lambda>k. \<not> is_index_key k) (map fst ps)"

lemma set_own_keys [simp]: "set (own_keys ps) = fst ` set ps"
  by (auto simp: own_keys_def)

lemma mset_own_keys: "mset (own_keys ps) = mset (map fst ps)"
  by (simp add: own_keys_def mset_filter flip: multiset_partition)

lemma distinct_own_keys [simp]: "distinct (own_keys ps) \<longleftrightarrow> distinct (map fst ps)"
  by (rule mset_eq_imp_distinct_iff [OF mset_own_keys])

lemma own_keys_plain:
  "\<forall>k \<in> fst ` set ps. \<not> is_index_key k \<Longrightarrow> own_keys ps = map fst ps"
  by (auto simp: own_keys_def filter_empty_conv intro!: filter_True)

end
