(* ===== verification/Json.thy ===== *)
theory Json
  imports Js_Value
begin

text \<open>
  \<^verbatim>\<open>JSON.stringify\<close> and \<^verbatim>\<open>JSON.parse\<close>, which the messages of the web socket and a few views go
  through. Strings are over the code units up to 255; an escape for a larger one reads as
  \<^const>\<open>OutOfModel\<close>. The parser takes fuel, and more fuel than characters is always enough.
\<close>

section \<open>\<^verbatim>\<open>JSON.stringify\<close>\<close>

definition hex_digit :: "nat \<Rightarrow> char" where
  "hex_digit n = (if n < 10 then char_of (48 + n) else char_of (87 + n))"

definition quote_char :: "char \<Rightarrow> string" where
  "quote_char c =
     (let n = of_char c :: nat
      in if c = CHR 0x22 then [CHR 0x5C, CHR 0x22]
         else if c = CHR 0x5C then [CHR 0x5C, CHR 0x5C]
         else if n = 8 then [CHR 0x5C, CHR ''b'']
         else if n = 9 then [CHR 0x5C, CHR ''t'']
         else if n = 10 then [CHR 0x5C, CHR ''n'']
         else if n = 12 then [CHR 0x5C, CHR ''f'']
         else if n = 13 then [CHR 0x5C, CHR ''r'']
         else if n < 32 then [CHR 0x5C, CHR ''u'', CHR ''0'', CHR ''0'', hex_digit (n div 16), hex_digit (n mod 16)]
         else [c])"

definition json_quote :: "string \<Rightarrow> string" where
  "json_quote s = [CHR 0x22] @ concat (map quote_char s) @ [CHR 0x22]"

text \<open>\<open>None\<close> is \<open>undefined\<close>: dropped as a member of an object, \<open>null\<close> as an element of an array.\<close>

fun json_stringify :: "jsv \<Rightarrow> string option" where
  "json_stringify JUndef = None"
| "json_stringify JNull = Some ''null''"
| "json_stringify (JBool b) = Some (if b then ''true'' else ''false'')"
| "json_stringify (JNum n) = Some (case n of Fin _ _ \<Rightarrow> num_to_string n | _ \<Rightarrow> ''null'')"
| "json_stringify (JStr s) = Some (json_quote s)"
| "json_stringify (JArr xs) =
     Some (''['' @ join_with '','' (map (\<lambda>x. case json_stringify x of None \<Rightarrow> ''null'' | Some t \<Rightarrow> t) xs) @ '']'')"
| "json_stringify (JObj ps) =
     (let texts = map (\<lambda>(k, v). (k, json_stringify v)) ps
      in Some (CHR 0x7B # join_with '',''
           (concat (map (\<lambda>k. case map_of texts k of
               Some (Some t) \<Rightarrow> [json_quote k @ '':'' @ t] | _ \<Rightarrow> []) (own_keys texts))) @ [CHR 0x7D]))"

section \<open>\<^verbatim>\<open>JSON.parse\<close>\<close>

definition json_space :: "char \<Rightarrow> bool" where
  "json_space c \<longleftrightarrow> of_char c \<in> {9, 10, 13, 32 :: nat}"

definition skip_space :: "string \<Rightarrow> string" where
  "skip_space s = dropWhile json_space s"

fun hex_value :: "string \<Rightarrow> int option" where
  "hex_value [] = Some 0"
| "hex_value (c # cs) =
     (case hex_value cs of
        None \<Rightarrow> None
      | Some v \<Rightarrow> if digit_value c < 16 then Some (digit_value c * 16 ^ length cs + v) else None)"

definition unescape :: "char \<Rightarrow> char option" where
  "unescape c =
     (if c = CHR 0x22 \<or> c = CHR 0x5C \<or> c = CHR ''/'' then Some c
      else if c = CHR ''b'' then Some (CHR 0x08) else if c = CHR ''f'' then Some (CHR 0x0C)
      else if c = CHR ''n'' then Some (CHR 0x0A) else if c = CHR ''r'' then Some (CHR 0x0D)
      else if c = CHR ''t'' then Some (CHR 0x09) else None)"

text \<open>One character of a string, written as itself or as an escape.\<close>

definition read_char :: "string \<Rightarrow> (char \<times> string) res" where
  "read_char s =
     (case s of
        [] \<Rightarrow> Inl SyntaxError
      | c # r \<Rightarrow>
          if c \<noteq> CHR 0x5C then (if of_char c < (32 :: nat) then Inl SyntaxError else Inr (c, r))
          else
            (case r of
               [] \<Rightarrow> Inl SyntaxError
             | e # u \<Rightarrow>
                 if e = CHR ''u'' then
                   (case (if length u < 4 then None else hex_value (take 4 u)) of
                      None \<Rightarrow> Inl SyntaxError
                    | Some v \<Rightarrow> if 255 < v then Inl OutOfModel else Inr (char_of (nat v), drop 4 u))
                 else (case unescape e of None \<Rightarrow> Inl SyntaxError | Some x \<Rightarrow> Inr (x, u))))"

lemma read_char_shorter: "read_char s = Inr (x, u) \<Longrightarrow> length u < length s"
  by (auto simp: read_char_def split: list.splits if_splits option.splits)

text \<open>The characters of a string after its opening quote, and what follows the closing one.\<close>

function parse_chars :: "string \<Rightarrow> (string \<times> string) res" where
  "parse_chars s =
     (if s \<noteq> [] \<and> hd s = CHR 0x22 then Inr ([], tl s)
      else
        (case read_char s of
           Inl e \<Rightarrow> Inl e
         | Inr (x, u) \<Rightarrow> res_bind (parse_chars u) (\<lambda>(t, w). Inr (x # t, w))))"
  by pat_completeness auto
termination
  by (relation "measure length") (auto dest: read_char_shorter)

declare parse_chars.simps [simp del]

definition span_digits :: "string \<Rightarrow> string \<times> string" where
  "span_digits s = (takeWhile (\<lambda>c. digit_value c < 10) s, dropWhile (\<lambda>c. digit_value c < 10) s)"

text \<open>The rest of the text after white space and the given character.\<close>

definition after :: "char \<Rightarrow> string \<Rightarrow> string option" where
  "after c s = (case skip_space s of [] \<Rightarrow> None | x # r \<Rightarrow> if x = c then Some r else None)"

text \<open>A number: an optional minus, digits with no leading zero, a fraction, an exponent.\<close>

definition optional_char :: "char list \<Rightarrow> string \<Rightarrow> string \<times> string" where
  "optional_char cs s = (case s of [] \<Rightarrow> ([], s) | c # r \<Rightarrow> if c \<in> set cs then ([c], r) else ([], s))"

definition parse_number :: "string \<Rightarrow> (jsv \<times> string) res" where
  "parse_number s =
     (let (sg, s1) = optional_char ''-'' s;
          (ip, s2) = span_digits s1;
          (dot, s3) = optional_char ''.'' s2;
          (fp, s4) = (if dot = [] then ([], s3) else span_digits s3);
          (e, s5) = optional_char ''eE'' s4;
          (g, s6) = (if e = [] then ([], s5) else optional_char ''+-'' s5);
          (ep, s7) = (if e = [] then ([], s6) else span_digits s6)
      in if ip = [] \<or> (1 < length ip \<and> hd ip = CHR ''0'') \<or> (dot \<noteq> [] \<and> fp = []) \<or> (e \<noteq> [] \<and> ep = [])
         then Inl SyntaxError
         else Inr (JNum (string_to_num (sg @ ip @ dot @ fp @ e @ g @ ep)), s7))"

text \<open>Values, the elements of an array after the bracket or a comma, the members of an object.\<close>

fun parse_value :: "nat \<Rightarrow> string \<Rightarrow> (jsv \<times> string) res"
  and parse_elements :: "nat \<Rightarrow> string \<Rightarrow> (jsv list \<times> string) res"
  and parse_members :: "nat \<Rightarrow> (string \<times> jsv) list \<Rightarrow> string \<Rightarrow> ((string \<times> jsv) list \<times> string) res"
where
  "parse_value 0 s = Inl OutOfFuel"
| "parse_value (Suc n) s =
     (case skip_space s of
        [] \<Rightarrow> Inl SyntaxError
      | c # r \<Rightarrow>
          if c = CHR 0x22 then res_bind (parse_chars r) (\<lambda>(t, u). Inr (JStr t, u))
          else if c = CHR ''['' then
            (case after CHR '']'' r of
               Some u \<Rightarrow> Inr (JArr [], u)
             | None \<Rightarrow> res_bind (parse_elements n r) (\<lambda>(xs, u). Inr (JArr xs, u)))
          else if c = CHR 0x7B then
            (case after CHR 0x7D r of
               Some u \<Rightarrow> Inr (JObj [], u)
             | None \<Rightarrow> res_bind (parse_members n [] r) (\<lambda>(ps, u). Inr (JObj ps, u)))
          else if take 4 (c # r) = ''null'' then Inr (JNull, drop 4 (c # r))
          else if take 4 (c # r) = ''true'' then Inr (JBool True, drop 4 (c # r))
          else if take 5 (c # r) = ''false'' then Inr (JBool False, drop 5 (c # r))
          else parse_number (c # r))"
| "parse_elements 0 s = Inl OutOfFuel"
| "parse_elements (Suc n) s =
     res_bind (parse_value n s) (\<lambda>(v, u).
       (case after CHR '','' u of
          Some w \<Rightarrow> res_bind (parse_elements n w) (\<lambda>(vs, z). Inr (v # vs, z))
        | None \<Rightarrow> (case after CHR '']'' u of Some w \<Rightarrow> Inr ([v], w) | None \<Rightarrow> Inl SyntaxError)))"
| "parse_members 0 ps s = Inl OutOfFuel"
| "parse_members (Suc n) ps s =
     (case after CHR 0x22 s of
        None \<Rightarrow> Inl SyntaxError
      | Some r \<Rightarrow>
          res_bind (parse_chars r) (\<lambda>(k, u).
            (case after CHR '':'' u of
               None \<Rightarrow> Inl SyntaxError
             | Some w \<Rightarrow>
                 res_bind (parse_value n w) (\<lambda>(v, x).
                   (case after CHR '','' x of
                      Some y \<Rightarrow> parse_members n (AList.update k v ps) y
                    | None \<Rightarrow>
                        (case after CHR 0x7D x of
                           Some y \<Rightarrow> Inr (AList.update k v ps, y) | None \<Rightarrow> Inl SyntaxError))))))"

definition json_parse :: "string \<Rightarrow> jsv res" where
  "json_parse s =
     res_bind (parse_value (2 * length s + 2) s) (\<lambda>(v, u).
       if skip_space u = [] then Inr v else Inl SyntaxError)"

section \<open>The fuel is enough\<close>

lemma length_skip_space: "length (skip_space s) \<le> length s"
  by (simp add: skip_space_def length_dropWhile_le)

lemma after_shorter: "after c s = Some r \<Longrightarrow> length r < length s"
  using length_skip_space [of s] by (auto simp: after_def split: list.splits if_splits)

lemma read_char_total: "read_char s \<noteq> Inl OutOfFuel"
  by (auto simp: read_char_def split: list.splits if_splits option.splits)

lemma parse_chars_cases:
  obtains "s \<noteq> []" "hd s = CHR 0x22" "parse_chars s = Inr ([], tl s)"
  | e where "read_char s = Inl e" "parse_chars s = Inl e"
  | x u where "read_char s = Inr (x, u)" "length u < length s"
      "parse_chars s = res_bind (parse_chars u) (\<lambda>(t, w). Inr (x # t, w))"
  using parse_chars.simps [of s] read_char_shorter [of s]
  by (cases "s \<noteq> [] \<and> hd s = CHR 0x22"; cases "read_char s") auto

lemma parse_chars_shorter: "parse_chars s = Inr (t, u) \<Longrightarrow> length u < length s"
proof (induction s arbitrary: t u rule: length_induct)
  case (1 s)
  show ?case
  proof (cases rule: parse_chars_cases [of s])
    case 1
    with \<open>parse_chars s = Inr (t, u)\<close> show ?thesis by (cases s) auto
  next
    case (3 x v)
    with \<open>parse_chars s = Inr (t, u)\<close> obtain t' where "parse_chars v = Inr (t', u)"
      by (auto simp: res_simps)
    with 1 3(2) show ?thesis by fastforce
  qed (use \<open>parse_chars s = Inr (t, u)\<close> in simp)
qed

lemma parse_chars_total: "parse_chars s \<noteq> Inl OutOfFuel"
proof (induction s rule: length_induct)
  case (1 s)
  show ?case
  proof (cases rule: parse_chars_cases [of s])
    case (2 e)
    then show ?thesis using read_char_total [of s] by simp
  qed (use 1 in \<open>auto simp: res_simps\<close>)
qed

lemma span_digits_length: "length (fst (span_digits s)) + length (snd (span_digits s)) = length s"
  by (simp add: span_digits_def flip: length_append)

lemma span_digits_le: "span_digits s = (d, r) \<Longrightarrow> length d + length r = length s"
  using span_digits_length [of s] by simp

lemma optional_char_le: "optional_char cs s = (d, r) \<Longrightarrow> length r \<le> length s"
  by (auto simp: optional_char_def split: list.splits if_splits)

lemma parse_number_shorter:
  assumes "parse_number s = Inr (v, u)"
  shows "length u < length s"
proof -
  obtain sg s1 where 1: "optional_char ''-'' s = (sg, s1)" by (metis prod.exhaust)
  obtain ip s2 where 2: "span_digits s1 = (ip, s2)" by (metis prod.exhaust)
  obtain dot s3 where 3: "optional_char ''.'' s2 = (dot, s3)" by (metis prod.exhaust)
  obtain fp s4 where 4: "(if dot = [] then ([], s3) else span_digits s3) = (fp, s4)" by (metis prod.exhaust)
  obtain e s5 where 5: "optional_char ''eE'' s4 = (e, s5)" by (metis prod.exhaust)
  obtain g s6 where 6: "(if e = [] then ([], s5) else optional_char ''+-'' s5) = (g, s6)" by (metis prod.exhaust)
  obtain ep s7 where 7: "(if e = [] then ([], s6) else span_digits s6) = (ep, s7)" by (metis prod.exhaust)
  from assms have "ip \<noteq> []" "u = s7"
    by (simp_all add: parse_number_def 1 2 3 4 5 6 7 split: if_splits)
  moreover have "length s7 \<le> length s6" "length s6 \<le> length s5" "length s4 \<le> length s3"
    using 4 6 7 by (auto split: if_splits dest: span_digits_le optional_char_le)
  ultimately show ?thesis
    using optional_char_le [OF 1] span_digits_le [OF 2] optional_char_le [OF 3] optional_char_le [OF 5]
    by (cases ip) auto
qed

lemma parse_number_total: "parse_number s \<noteq> Inl OutOfFuel"
  by (auto simp: parse_number_def Let_def split: prod.splits)

lemma parse_elementsE:
  assumes "parse_elements (Suc n) s = Inr (vs, u)"
  obtains v x w ws where "parse_value n s = Inr (v, x)" "after CHR '','' x = Some w"
    "parse_elements n w = Inr (ws, u)" "vs = v # ws"
  | v x where "parse_value n s = Inr (v, x)" "after CHR '']'' x = Some u" "vs = [v]"
  using assms by (auto simp: res_bind_eq_Inr split: option.splits)

lemma parse_membersE:
  assumes "parse_members (Suc n) ps s = Inr (qs, u)"
  obtains r k x w v y z where "after CHR 0x22 s = Some r" "parse_chars r = Inr (k, x)"
    "after CHR '':'' x = Some w" "parse_value n w = Inr (v, y)"
    "after CHR '','' y = Some z" "parse_members n (AList.update k v ps) z = Inr (qs, u)"
  | r k x w v y where "after CHR 0x22 s = Some r" "parse_chars r = Inr (k, x)"
    "after CHR '':'' x = Some w" "parse_value n w = Inr (v, y)" "after CHR 0x7D y = Some u"
  using assms by (auto simp: res_bind_eq_Inr split: option.splits)

lemma parse_shorter_all:
  "(\<forall>s v u. parse_value n s = Inr (v, u) \<longrightarrow> length u < length s)
   \<and> (\<forall>s vs u. parse_elements n s = Inr (vs, u) \<longrightarrow> length u < length s)
   \<and> (\<forall>ps s qs u. parse_members n ps s = Inr (qs, u) \<longrightarrow> length u < length s)"
proof (induction n)
  case (Suc n)
  note IH = Suc [THEN conjunct1, rule_format] Suc [THEN conjunct2, THEN conjunct1, rule_format]
    Suc [THEN conjunct2, THEN conjunct2, rule_format]
  show ?case
  proof (intro conjI allI impI)
    fix s v u
    assume parsed: "parse_value (Suc n) s = Inr (v, u)"
    then obtain c r where r: "skip_space s = c # r" by (cases "skip_space s") auto
    then have "length r < length s" using length_skip_space [of s] by simp
    moreover have "length u \<le> length r"
      using parsed r
      by (auto simp: res_simps split: if_splits option.splits
          dest: parse_chars_shorter parse_number_shorter after_shorter IH(2,3))
    ultimately show "length u < length s" by simp
  next
    fix s vs u
    assume "parse_elements (Suc n) s = Inr (vs, u)"
    then show "length u < length s"
      by (cases rule: parse_elementsE) (auto dest!: after_shorter IH(1,2))
  next
    fix ps s qs u
    assume "parse_members (Suc n) ps s = Inr (qs, u)"
    then show "length u < length s"
      by (cases rule: parse_membersE) (auto dest!: after_shorter parse_chars_shorter IH(1,3))
  qed
qed simp

lemmas parse_shorter =
  parse_shorter_all [THEN conjunct1, rule_format]
  parse_shorter_all [THEN conjunct2, THEN conjunct1, rule_format]
  parse_shorter_all [THEN conjunct2, THEN conjunct2, rule_format]

lemma parse_fuel_all:
  "(\<forall>s. 2 * length s + 1 \<le> n \<longrightarrow> parse_value n s \<noteq> Inl OutOfFuel)
   \<and> (\<forall>s. 2 * length s + 2 \<le> n \<longrightarrow> parse_elements n s \<noteq> Inl OutOfFuel)
   \<and> (\<forall>ps s. 2 * length s + 2 \<le> n \<longrightarrow> parse_members n ps s \<noteq> Inl OutOfFuel)"
proof (induction n)
  case (Suc n)
  note IH = Suc [THEN conjunct1, rule_format] Suc [THEN conjunct2, THEN conjunct1, rule_format]
    Suc [THEN conjunct2, THEN conjunct2, rule_format]
  show ?case
  proof (intro conjI allI impI)
    fix s :: string
    assume fuel: "2 * length s + 1 \<le> Suc n"
    show "parse_value (Suc n) s \<noteq> Inl OutOfFuel"
    proof (cases "skip_space s")
      case (Cons c r)
      then have "2 * length r + 2 \<le> n" using length_skip_space [of s] fuel by simp
      from IH(2,3) [OF this] Cons show ?thesis
        by (auto simp: res_simps parse_chars_total parse_number_total split: option.splits)
    qed simp
  next
    fix s :: string
    assume fuel: "2 * length s + 2 \<le> Suc n"
    have "parse_elements n w \<noteq> Inl OutOfFuel"
      if "parse_value n s = Inr (v, u)" "after c u = Some w" for v u w c
      using that fuel by (intro IH(2)) (fastforce dest: parse_shorter(1) after_shorter)
    with IH(1) [of s] fuel show "parse_elements (Suc n) s \<noteq> Inl OutOfFuel"
      by (auto simp: res_simps split: option.splits)
  next
    fix ps and s :: string
    assume fuel: "2 * length s + 2 \<le> Suc n"
    have val: "parse_value n w \<noteq> Inl OutOfFuel"
      if "after c s = Some r" "parse_chars r = Inr (k, u)" "after c' u = Some w" for c c' r k u w
      using that fuel by (intro IH(1)) (fastforce dest: parse_chars_shorter after_shorter)
    have members: "parse_members n qs y \<noteq> Inl OutOfFuel"
      if "after c s = Some r" "parse_chars r = Inr (k, u)" "after c' u = Some w"
        "parse_value n w = Inr (v, x)" "after c'' x = Some y" for c c' c'' r k u w v x y qs
      using that fuel
      by (intro IH(3)) (fastforce dest: parse_chars_shorter after_shorter parse_shorter(1))
    show "parse_members (Suc n) ps s \<noteq> Inl OutOfFuel"
      by (auto simp: res_simps parse_chars_total split: option.splits dest: val members)
  qed
qed simp

lemma json_parse_fuel: "json_parse s \<noteq> Inl OutOfFuel"
  using parse_fuel_all [of "2 * length s + 2"]
  by (auto simp: json_parse_def res_simps)

section \<open>Reading back what was written\<close>

text \<open>
  The values the dashboard and the server exchange without loss: no \<open>undefined\<close>, no numbers (the
  server writes decimals as strings), objects with distinct names that are not array indices.
\<close>

fun json_plain :: "jsv \<Rightarrow> bool" where
  "json_plain JUndef = False"
| "json_plain (JNum _) = False"
| "json_plain (JArr xs) = list_all json_plain xs"
| "json_plain (JObj ps) =
     (distinct (map fst ps) \<and> list_all (\<lambda>(k, v). \<not> is_index_key k \<and> json_plain v) ps)"
| "json_plain _ = True"

definition text_of :: "jsv \<Rightarrow> string" where
  "text_of v = the (json_stringify v)"

lemma text_of_Some: "json_plain v \<Longrightarrow> json_stringify v = Some (text_of v)"
  by (cases v) (simp_all add: text_of_def Let_def)

lemma digit_value_hex: "k < 16 \<Longrightarrow> digit_value (hex_digit k) = int k"
proof -
  assume "k < 16"
  have "(of_char (char_of m) :: int) = int m" if "m < 256" for m :: nat
  proof -
    have "(of_char (char_of m) :: int) = of_nat (of_char (char_of m))" by (simp only: of_nat_of_char)
    also have "(of_char (char_of m) :: nat) = m" using that by (simp add: of_char_of)
    finally show ?thesis .
  qed
  from this [of "48 + k"] this [of "87 + k"] \<open>k < 16\<close> show ?thesis
    by (simp add: digit_value_def hex_digit_def)
qed

lemma hex_small:
  assumes "n < 32"
  shows "hex_value [CHR ''0'', CHR ''0'', hex_digit (n div 16), hex_digit (n mod 16)] = Some (int n)"
proof -
  have "digit_value CHR ''0'' = 0" by (simp add: digit_value_def)
  moreover have "digit_value (hex_digit (n div 16)) = int (n div 16)"
    "digit_value (hex_digit (n mod 16)) = int (n mod 16)"
    using assms by (simp_all add: digit_value_hex)
  moreover have "int (n div 16) < 16" "int (n mod 16) < 16" using assms by simp_all
  ultimately have "hex_value [CHR ''0'', CHR ''0'', hex_digit (n div 16), hex_digit (n mod 16)]
      = Some (int (n div 16) * 16 + int (n mod 16))"
    by simp
  also have "int (n div 16) * 16 + int (n mod 16) = int (n div 16 * 16 + n mod 16)"
    by (simp only: of_nat_add of_nat_mult of_nat_numeral)
  finally show ?thesis by (simp only: div_mult_mod_eq)
qed

lemma read_char_quote: "read_char (quote_char c @ r) = Inr (c, r)"
proof -
  have named: "CHR 0x08 = c \<longleftrightarrow> of_char c = (8 :: nat)" "CHR 0x09 = c \<longleftrightarrow> of_char c = (9 :: nat)"
    "CHR 0x0A = c \<longleftrightarrow> of_char c = (10 :: nat)" "CHR 0x0C = c \<longleftrightarrow> of_char c = (12 :: nat)"
    "CHR 0x0D = c \<longleftrightarrow> of_char c = (13 :: nat)"
    by (auto simp flip: of_char_eq_iff [where 'a = nat])
  show ?thesis
    by (auto simp: quote_char_def Let_def read_char_def unescape_def hex_small named
        simp del: hex_value.simps)
qed

lemma quote_char_head: "quote_char c \<noteq> [] \<and> hd (quote_char c) \<noteq> CHR 0x22"
  by (simp add: quote_char_def Let_def)

lemma parse_chars_quote: "parse_chars (concat (map quote_char s) @ CHR 0x22 # rest) = Inr (s, rest)"
proof (induction s)
  case (Cons c s)
  let ?r = "concat (map quote_char s) @ CHR 0x22 # rest"
  have "hd (quote_char c @ ?r) \<noteq> CHR 0x22" using quote_char_head [of c] by simp
  then have "parse_chars (quote_char c @ ?r) = res_bind (parse_chars ?r) (\<lambda>(t, w). Inr (c # t, w))"
    by (subst parse_chars.simps) (simp add: read_char_quote)
  with Cons show ?case by simp
qed (simp add: parse_chars.simps)

lemma text_head:
  assumes "json_plain v"
  obtains c r where "text_of v = c # r" and "c \<in> set ''ntf['' \<union> {CHR 0x22, CHR 0x7B}"
proof (cases v)
  case (JBool b)
  then show thesis using that by (cases b) (auto simp: text_of_def)
qed (use assms that in \<open>auto simp: text_of_def json_quote_def Let_def\<close>)

lemma text_nonspace:
  assumes "json_plain v"
  shows "skip_space (text_of v @ r) = text_of v @ r" and "after CHR '']'' (text_of v @ r) = None"
proof -
  obtain c t where t: "text_of v = c # t" "c \<in> set ''ntf['' \<union> {CHR 0x22, CHR 0x7B}"
    using text_head [OF assms] .
  then have "\<not> json_space c" "c \<noteq> CHR '']''" by (auto simp: json_space_def)
  with t(1) show "skip_space (text_of v @ r) = text_of v @ r" "after CHR '']'' (text_of v @ r) = None"
    by (simp_all add: skip_space_def after_def)
qed

lemma after_head: "\<not> json_space c \<Longrightarrow> after c' (c # r) = (if c = c' then Some r else None)"
  by (simp add: after_def skip_space_def)

lemma punctuation [simp]:
  "\<not> json_space CHR '',''" "\<not> json_space CHR '']''" "\<not> json_space CHR '':''" "\<not> json_space CHR 0x22"
  "\<not> json_space CHR 0x7D" "\<not> json_space CHR 0x7B" "\<not> json_space CHR ''[''"
  by (simp_all add: json_space_def)

definition reads_back :: "jsv \<Rightarrow> bool" where
  "reads_back v \<longleftrightarrow>
     (\<forall>n rest. 2 * length (text_of v) + 1 \<le> n \<longrightarrow> parse_value n (text_of v @ rest) = Inr (v, rest))"

lemma parse_elements_back:
  assumes "vs \<noteq> []" and "\<forall>v \<in> set vs. reads_back v"
    and "2 * length (join_with '','' (map text_of vs)) + 2 \<le> n"
  shows "parse_elements n (join_with '','' (map text_of vs) @ CHR '']'' # rest) = Inr (vs, rest)"
  using assms
proof (induction vs arbitrary: n)
  case (Cons v vs)
  then obtain m where n: "n = Suc m" by (cases n) auto
  show ?case
  proof (cases vs)
    case Nil
    with Cons.prems n show ?thesis by (simp add: reads_back_def after_head)
  next
    case vs: (Cons w ws)
    let ?t = "join_with '','' (map text_of vs)"
    have len: "2 * (length (text_of v) + 1 + length ?t) + 2 \<le> n"
      using Cons.prems(3) vs by (simp add: join_with_Cons)
    then have "parse_value m (text_of v @ CHR '','' # ?t @ CHR '']'' # rest)
        = Inr (v, CHR '','' # ?t @ CHR '']'' # rest)"
      using Cons.prems(2) n by (simp add: reads_back_def)
    moreover have "parse_elements m (?t @ CHR '']'' # rest) = Inr (vs, rest)"
      using Cons.prems(2) vs len n by (intro Cons.IH) auto
    ultimately show ?thesis
      using n vs by (simp add: join_with_Cons after_head)
  qed
qed simp

definition member_text :: "string \<times> jsv \<Rightarrow> string" where
  "member_text kv = json_quote (fst kv) @ '':'' @ text_of (snd kv)"

lemma member_text_pair:
  "member_text (k, v) = CHR 0x22 # concat (map quote_char k) @ CHR 0x22 # CHR '':'' # text_of v"
  by (simp add: member_text_def json_quote_def)

lemma member_text_length: "2 * length (text_of v) + 1 \<le> 2 * length (member_text (k, v))"
  by (simp add: member_text_def json_quote_def)

lemma AList_update_new: "k \<notin> fst ` set ps \<Longrightarrow> AList.update k v ps = ps @ [(k, v)]"
  by (induction ps) auto

lemma parse_members_back:
  assumes "kvs \<noteq> []" and "\<forall>kv \<in> set kvs. reads_back (snd kv)" and "distinct (map fst (ps @ kvs))"
    and "2 * length (join_with '','' (map member_text kvs)) + 2 \<le> n"
  shows "parse_members n ps (join_with '','' (map member_text kvs) @ CHR 0x7D # rest) = Inr (ps @ kvs, rest)"
  using assms
proof (induction kvs arbitrary: n ps)
  case (Cons kv kvs)
  obtain k v where kv: "kv = (k, v)" by (cases kv)
  from Cons.prems obtain m where n: "n = Suc m" by (cases n) auto
  have new: "AList.update k v ps = ps @ [(k, v)]"
    using Cons.prems(3) kv by (intro AList_update_new) auto
  show ?case
  proof (cases kvs)
    case Nil
    with Cons.prems n kv new member_text_length [of v k] show ?thesis
      by (simp add: member_text_pair reads_back_def after_head parse_chars_quote)
  next
    case kvs: (Cons w ws)
    let ?t = "join_with '','' (map member_text kvs)"
    have len: "2 * (length (member_text kv) + 1 + length ?t) + 2 \<le> n"
      using Cons.prems(4) kvs by (simp add: join_with_Cons)
    have "parse_value m (text_of v @ CHR '','' # ?t @ CHR 0x7D # rest)
        = Inr (v, CHR '','' # ?t @ CHR 0x7D # rest)"
      using Cons.prems(2) n kv len member_text_length [of v k] by (simp add: reads_back_def)
    moreover have "parse_members m (ps @ [(k, v)]) (?t @ CHR 0x7D # rest)
        = Inr ((ps @ [(k, v)]) @ kvs, rest)"
      using Cons.prems kvs len n kv by (intro Cons.IH) auto
    ultimately show ?thesis
      using n kvs kv new
      by (simp add: join_with_Cons after_head member_text_pair parse_chars_quote)
  qed
qed simp

lemma text_of_arr: "json_plain (JArr vs) \<Longrightarrow> text_of (JArr vs) = ''['' @ join_with '','' (map text_of vs) @ '']''"
proof -
  assume "json_plain (JArr vs)"
  then have "map (\<lambda>x. case json_stringify x of None \<Rightarrow> ''null'' | Some t \<Rightarrow> t) vs = map text_of vs"
    by (auto simp: list_all_iff text_of_Some)
  then show ?thesis by (simp add: text_of_def [of "JArr vs"] del: map_eq_conv)
qed

lemma text_of_obj:
  assumes "json_plain (JObj kvs)"
  shows "text_of (JObj kvs) = CHR 0x7B # join_with '','' (map member_text kvs) @ [CHR 0x7D]"
proof -
  let ?texts = "map (\<lambda>(k, v). (k, json_stringify v)) kvs"
  have keys: "map fst ?texts = map fst kvs" by (auto simp: split_beta)
  have "own_keys ?texts = map fst ?texts"
    using assms keys by (intro own_keys_plain) (auto simp: list_all_iff)
  moreover have "concat (map (\<lambda>k. case map_of ?texts k of
      Some (Some t) \<Rightarrow> [json_quote k @ '':'' @ t] | _ \<Rightarrow> []) (map fst ?texts)) = map member_text kvs"
  proof -
    have "map_of ?texts k = Some (Some (text_of v))" if "(k, v) \<in> set kvs" for k v
    proof -
      from that assms have "json_plain v" by (auto simp: list_all_iff)
      moreover have "distinct (map fst ?texts)" using assms by (simp only: keys json_plain.simps)
      ultimately show ?thesis using that text_of_Some by (intro map_of_is_SomeI) force+
    qed
    then have "(case map_of ?texts (fst kv) of
        Some (Some t) \<Rightarrow> [json_quote (fst kv) @ '':'' @ t] | _ \<Rightarrow> []) = [member_text kv]"
      if "kv \<in> set kvs" for kv
      using that by (cases kv) (simp add: member_text_def)
    then have "concat (map (\<lambda>kv. case map_of ?texts (fst kv) of
        Some (Some t) \<Rightarrow> [json_quote (fst kv) @ '':'' @ t] | _ \<Rightarrow> []) kvs) = concat (map (\<lambda>kv. [member_text kv]) kvs)"
      by (intro arg_cong [where f = concat] map_cong) auto
    then show ?thesis unfolding keys by (simp add: comp_def)
  qed
  ultimately show ?thesis by (simp add: text_of_def Let_def)
qed

lemma parse_literals:
  "0 < n \<Longrightarrow> parse_value n (CHR ''n'' # CHR ''u'' # CHR ''l'' # CHR ''l'' # rest) = Inr (JNull, rest)"
  "0 < n \<Longrightarrow> parse_value n (CHR ''t'' # CHR ''r'' # CHR ''u'' # CHR ''e'' # rest) = Inr (JBool True, rest)"
  "0 < n \<Longrightarrow> parse_value n (CHR ''f'' # CHR ''a'' # CHR ''l'' # CHR ''s'' # CHR ''e'' # rest)
     = Inr (JBool False, rest)"
  by (cases n; simp add: skip_space_def json_space_def)+

lemma plain_reads_back: "json_plain v \<Longrightarrow> reads_back v"
proof (induction v)
  case (JStr str)
  show ?case
    by (auto simp: reads_back_def text_of_def json_quote_def skip_space_def parse_chars_quote
        gr0_conv_Suc dest!: Suc_le_D)
next
  case (JArr vs)
  then have rb: "\<forall>v \<in> set vs. reads_back v" by (simp add: list_all_iff)
  show ?case
    unfolding reads_back_def
  proof (intro allI impI)
    fix n rest
    assume fuel: "2 * length (text_of (JArr vs)) + 1 \<le> n"
    then obtain m where n: "n = Suc m" by (cases n) auto
    let ?t = "join_with '','' (map text_of vs)"
    have tx: "text_of (JArr vs) @ rest = CHR ''['' # ?t @ CHR '']'' # rest"
      using text_of_arr [OF JArr.prems] by simp
    show "parse_value n (text_of (JArr vs) @ rest) = Inr (JArr vs, rest)"
    proof (cases vs)
      case Nil
      then show ?thesis unfolding tx n by (simp add: skip_space_def after_head)
    next
      case (Cons v ws)
      then have "after CHR '']'' (?t @ CHR '']'' # rest) = None"
        using JArr.prems text_nonspace(2) [of v] by (cases ws) (simp_all add: join_with_Cons)
      moreover have "parse_elements m (?t @ CHR '']'' # rest) = Inr (vs, rest)"
        using Cons rb fuel n text_of_arr [OF JArr.prems] by (intro parse_elements_back) auto
      ultimately show ?thesis unfolding tx n by (simp add: skip_space_def)
    qed
  qed
next
  case (JObj kvs)
  then have rb: "\<forall>kv \<in> set kvs. reads_back (snd kv)"
    by (fastforce simp: list_all_iff)
  show ?case
    unfolding reads_back_def
  proof (intro allI impI)
    fix n rest
    assume fuel: "2 * length (text_of (JObj kvs)) + 1 \<le> n"
    then obtain m where n: "n = Suc m" by (cases n) auto
    let ?t = "join_with '','' (map member_text kvs)"
    have tx: "text_of (JObj kvs) @ rest = CHR 0x7B # ?t @ CHR 0x7D # rest"
      using text_of_obj [OF JObj.prems] by simp
    show "parse_value n (text_of (JObj kvs) @ rest) = Inr (JObj kvs, rest)"
    proof (cases kvs)
      case Nil
      then show ?thesis unfolding tx n by (simp add: skip_space_def after_head)
    next
      case (Cons kv kvs')
      then have "after CHR 0x7D (?t @ CHR 0x7D # rest) = None"
        by (cases kvs'; cases kv) (simp_all add: join_with_Cons member_text_pair after_head)
      moreover have "parse_members m [] (?t @ CHR 0x7D # rest) = Inr ([] @ kvs, rest)"
        using Cons rb fuel n text_of_obj [OF JObj.prems] JObj.prems
        by (intro parse_members_back) auto
      ultimately show ?thesis unfolding tx n by (simp add: skip_space_def)
    qed
  qed
qed (auto simp: reads_back_def text_of_def intro!: parse_literals)

theorem json_round_trip:
  assumes "json_plain v" and "json_stringify v = Some s"
  shows "json_parse s = Inr v"
proof -
  have "s = text_of v" using assms(2) by (simp add: text_of_def)
  then have "parse_value (2 * length s + 2) (s @ []) = Inr (v, [])"
    using plain_reads_back [OF assms(1), unfolded reads_back_def, rule_format, of "2 * length s + 2" "[]"]
    by simp
  then show ?thesis by (simp add: json_parse_def skip_space_def)
qed

end
