(* ===== verification/Session.thy ===== *)
theory Session
  imports Js_Value
begin

text \<open>
  \<^verbatim>\<open>cryptolpaxios.js\<close>: the static fields of \<^verbatim>\<open>CryptolpAxios\<close> and the browser storage behind
  them, signing in and out, the response interceptor that refreshes an expired token, and the
  names and addresses of the requests. \<^verbatim>\<open>jwt-decode\<close> is the parameter \<open>decode\<close>, which may
  throw. The retry loop \<^verbatim>\<open>getResponse\<close> is in the theory \<open>Polling\<close>.
\<close>

section \<open>State\<close>

record session =
  ses_token :: jsv
  ses_refreshToken :: jsv
  ses_userInfo :: jsv
  ses_expiration :: jsv
  ses_isAuthorized :: bool
  ses_role :: jsv
  ses_clientType :: jsv
  ses_listners :: "nat list"
  ses_notified :: "nat list"
  ses_storage :: "string \<rightharpoonup> string"
  ses_header :: "string option"
  ses_location :: string
  ses_interceptors :: nat

text \<open>A page load: the class fields are initialised, the storage is what the last page left.\<close>

definition page_load :: "(string \<rightharpoonup> string) \<Rightarrow> string \<Rightarrow> session" where
  "page_load storage location =
     \<lparr>ses_token = JNull, ses_refreshToken = JNull, ses_userInfo = JNull, ses_expiration = JNull,
      ses_isAuthorized = False, ses_role = JStr '''', ses_clientType = JStr '''',
      ses_listners = [], ses_notified = [], ses_storage = storage, ses_header = None,
      ses_location = location, ses_interceptors = 0\<rparr>"

text \<open>\<^verbatim>\<open>localStorage.setItem\<close> stores the string of a value; \<^verbatim>\<open>getItem\<close> reads \<open>null\<close> for no item.\<close>

definition setItem :: "string \<Rightarrow> jsv \<Rightarrow> (string \<rightharpoonup> string) \<Rightarrow> (string \<rightharpoonup> string)" where
  "setItem k v m = m(k \<mapsto> js_to_string v)"

definition getItem :: "string \<Rightarrow> (string \<rightharpoonup> string) \<Rightarrow> jsv" where
  "getItem k m = (case m k of None \<Rightarrow> JNull | Some s \<Rightarrow> JStr s)"

definition removeItem :: "string \<Rightarrow> (string \<rightharpoonup> string) \<Rightarrow> (string \<rightharpoonup> string)" where
  "removeItem k m = m(k := None)"

record auth_data =
  ad_token :: jsv
  ad_expiration :: jsv
  ad_role :: jsv
  ad_refreshToken :: jsv

section \<open>Signing in and out\<close>

definition userUpdated :: "session \<Rightarrow> session" where
  "userUpdated s = s\<lparr>ses_notified := ses_notified s @ ses_listners s\<rparr>"

definition loadUser :: "(jsv \<Rightarrow> jsv res) \<Rightarrow> session \<Rightarrow> js_error option \<times> session" where
  "loadUser decode s =
     (let s1 = s\<lparr>ses_isAuthorized := True,
                 ses_header := Some (''Bearer '' @ js_to_string (ses_token s))\<rparr>
      in case decode (ses_token s1) of
           Inl e \<Rightarrow> (Some e, s1)
         | Inr info \<Rightarrow> (None, userUpdated (s1\<lparr>ses_userInfo := info\<rparr>)))"

definition setToken ::
  "(jsv \<Rightarrow> jsv res) \<Rightarrow> auth_data \<Rightarrow> jsv \<Rightarrow> session \<Rightarrow> js_error option \<times> session" where
  "setToken decode d clienttype s =
     (let st = setItem ''refresh_token'' (ad_refreshToken d)
                 (setItem ''client_type'' clienttype
                 (setItem ''auth_role'' (ad_role d)
                 (setItem ''auth_expiration'' (ad_expiration d)
                 (setItem ''auth_token'' (ad_token d) (ses_storage s)))))
      in loadUser decode
           (s\<lparr>ses_storage := st, ses_token := ad_token d, ses_role := ad_role d,
              ses_expiration := ad_expiration d, ses_clientType := clienttype,
              ses_refreshToken := ad_refreshToken d\<rparr>))"

definition logout :: "session \<Rightarrow> session" where
  "logout s =
     (let s1 = s\<lparr>ses_token := JNull, ses_refreshToken := JNull, ses_userInfo := JNull,
                 ses_expiration := JNull, ses_isAuthorized := False,
                 ses_storage := removeItem ''refresh_token'' (removeItem ''auth_role''
                   (removeItem ''auth_expiration'' (removeItem ''auth_token'' (ses_storage s))))\<rparr>
      in (userUpdated s1)\<lparr>ses_location := ''/login''\<rparr>)"

definition loadToken :: "(jsv \<Rightarrow> jsv res) \<Rightarrow> session \<Rightarrow> js_error option \<times> session" where
  "loadToken decode s =
     (let s1 = s\<lparr>ses_interceptors := ses_interceptors s + 1\<rparr>;
          s2 = (if truthy (ses_token s1) then s1
                else s1\<lparr>ses_token := getItem ''auth_token'' (ses_storage s1),
                        ses_expiration := getItem ''auth_expiration'' (ses_storage s1),
                        ses_role := getItem ''auth_role'' (ses_storage s1),
                        ses_clientType := getItem ''client_type'' (ses_storage s1),
                        ses_refreshToken := getItem ''refresh_token'' (ses_storage s1)\<rparr>)
      in if truthy (ses_token s2) then loadUser decode s2 else (None, s2))"

section \<open>The response interceptor\<close>

text \<open>
  A failed request: its status when a response came, whether it was sent at all, and the
  \<^verbatim>\<open>_retry\<close> mark of its configuration. Every call of \<^verbatim>\<open>loadToken\<close> registers the handler once
  more, and each handler rejects with the same error, so a failure runs through all of them.
\<close>

record http_error =
  err_status :: "nat option"
  err_request :: bool
  err_retry :: bool

datatype effect = RefreshLogin jsv | Toast string | ClearWaitingQueue

definition on_error :: "http_error \<times> session \<Rightarrow> effect list \<times> http_error \<times> session" where
  "on_error = (\<lambda>(e, s).
     (case err_status e of
        Some status \<Rightarrow>
          if (status = 401 \<or> status = 403) \<and> ses_isAuthorized s \<and> \<not> err_retry e then
            let e1 = e\<lparr>err_retry := True\<rparr>;
                refreshToken = getItem ''refresh_token'' (ses_storage s)
            in if truthy refreshToken then ([RefreshLogin refreshToken], e1, s)
               else ([], e1, logout s)
          else if status = 0 then ([Toast ''Connection problem'', ClearWaitingQueue], e, s)
          else ([], e, s)
      | None \<Rightarrow>
          if err_request e then ([Toast ''Connection problem'', ClearWaitingQueue], e, s)
          else ([Toast ''Something wrong'', ClearWaitingQueue], e, s)))"

fun run_interceptors :: "nat \<Rightarrow> http_error \<times> session \<Rightarrow> effect list \<times> http_error \<times> session" where
  "run_interceptors 0 es = ([], es)"
| "run_interceptors (Suc n) es =
     (case on_error es of (fx, es1) \<Rightarrow>
        (case run_interceptors n es1 of (fx', es2) \<Rightarrow> (fx @ fx', es2)))"

text \<open>
  How the refresh ends: the login reply is followed by the client type, then the new token is
  stored; whatever throws or rejects on the way is caught and signs the user out.
\<close>

definition refresh_done ::
  "(jsv \<Rightarrow> jsv res) \<Rightarrow> auth_data res \<Rightarrow> jsv res \<Rightarrow> session \<Rightarrow> session" where
  "refresh_done decode reply clientType s =
     (case res_bind reply (\<lambda>d. res_bind clientType (\<lambda>ct.
              res_bind (get_prop ct ''content'') (\<lambda>content. Inr (d, content)))) of
        Inl e \<Rightarrow> logout s
      | Inr (d, content) \<Rightarrow>
          (case setToken decode d content s of
             (None, s1) \<Rightarrow> s1
           | (Some e, s1) \<Rightarrow> logout s1))"

section \<open>Requests\<close>

datatype http_request = Get string | Post string jsv | Put string jsv

definition get_by_name :: "string \<Rightarrow> string \<Rightarrow> string \<times> http_request" where
  "get_by_name requestName request = (requestName, Get request)"

definition saveConfig :: "jsv \<Rightarrow> http_request" where
  "saveConfig cfg = Put ''configuration'' cfg"

definition validateConfig :: "jsv \<Rightarrow> http_request" where
  "validateConfig cfg = Post ''configuration/validate'' (JObj [(''config'', cfg)])"

definition getTrades :: "jsv \<Rightarrow> jsv \<Rightarrow> jsv \<Rightarrow> jsv \<Rightarrow> jsv \<Rightarrow> http_request" where
  "getTrades strategyNames exchangeName currencyCodePair skip cnt =
     Post ''Liquidity/Trades''
       (JObj [(''strategyNames'', strategyNames), (''exchangeName'', exchangeName),
              (''currencyCodePair'', currencyCodePair), (''skip'', skip), (''count'', cnt)])"

definition getConfig :: "string \<times> http_request" where
  "getConfig = get_by_name ''config'' ''configuration''"

definition getPostponedFills :: "string \<times> http_request" where
  "getPostponedFills = get_by_name ''postponedFills'' ''Liquidity/PostponedFills''"

definition getSignals :: "string \<Rightarrow> string \<Rightarrow> string \<times> http_request" where
  "getSignals exchangeName currencyPair =
     get_by_name ''signals''
       (''Signals?exchangeName='' @ exchangeName @ ''&currencyPair='' @ currencyPair)"

definition getExplanations :: "string \<Rightarrow> string \<Rightarrow> string \<times> http_request" where
  "getExplanations exchangeName currencyCodePair =
     get_by_name ''explanations''
       (''explanations?exchangeName='' @ exchangeName @ ''&currencyCodePair='' @ currencyCodePair)"

definition getPLGraph :: "string \<Rightarrow> string \<Rightarrow> string \<times> http_request" where
  "getPLGraph exchangeName currencyCodePair =
     get_by_name ''plGraph''
       (''ProfitLoss?exchangeName='' @ exchangeName @ ''&currencyCodePair='' @ currencyCodePair)"

definition getSupportedExchanges :: "string \<times> http_request" where
  "getSupportedExchanges = get_by_name ''supportedExchanges'' ''liquidity/supported-exchanges''"

definition getBalances :: "string \<times> http_request" where
  "getBalances = get_by_name ''balance'' ''rebalancing''"

definition getAllBalances :: "string \<times> http_request" where
  "getAllBalances = get_by_name ''allBalances'' ''balance''"

definition getVolumeIndicators :: "string \<Rightarrow> string \<Rightarrow> string \<Rightarrow> string \<times> http_request" where
  "getVolumeIndicators exchangeName currencyPair preProccessingInterval =
     get_by_name ''volumeIndicators''
       (''volumes?exchangeName='' @ exchangeName @ ''&currencyPair='' @ currencyPair
         @ ''&preProccessingInterval='' @ preProccessingInterval)"

definition getLiquidityIndicators :: "string \<Rightarrow> string \<Rightarrow> string \<Rightarrow> string \<times> http_request" where
  "getLiquidityIndicators exchangeName currencyPair preProccessingInterval =
     get_by_name ''liquidityIndicators''
       (''Liquidity?exchangeName='' @ exchangeName @ ''&currencyPair='' @ currencyPair
         @ ''&preProccessingInterval='' @ preProccessingInterval)"

definition getUsers :: "string \<Rightarrow> string \<times> http_request" where
  "getUsers email = get_by_name ''users'' (''users?email='' @ email)"

definition getRoles :: "string \<times> http_request" where
  "getRoles = get_by_name ''roles'' ''users/roles''"

definition getClientType :: "string \<times> http_request" where
  "getClientType = get_by_name ''clientType'' ''account/clienttype''"

definition updateUser :: "jsv \<Rightarrow> http_request" where
  "updateUser user = Put ''users'' user"

definition getClientDomain :: "string \<times> http_request" where
  "getClientDomain = get_by_name ''clientDomain'' ''account/clientdomain''"

definition login :: "jsv \<Rightarrow> http_request" where
  "login user = Post ''account/login'' user"

definition register :: "jsv \<Rightarrow> http_request" where
  "register user = Post ''account/register'' user"

definition loginByRefreshToken :: "jsv \<Rightarrow> http_request" where
  "loginByRefreshToken payload = Post ''account/refresh-token'' payload"

lemmas request_defs =
  getConfig_def getPostponedFills_def getSignals_def getExplanations_def getPLGraph_def
  getSupportedExchanges_def getBalances_def getAllBalances_def getVolumeIndicators_def
  getLiquidityIndicators_def getUsers_def getRoles_def getClientType_def getClientDomain_def
  get_by_name_def

section \<open>The session invariant\<close>

text \<open>
  While the user counts as signed in, the header sent with every request carries the token in
  memory, and the storage holds the same credentials; when not, no credential is in memory.
\<close>

definition session_ok :: "session \<Rightarrow> bool" where
  "session_ok s \<longleftrightarrow>
     (if ses_isAuthorized s then
        ses_header s = Some (''Bearer '' @ js_to_string (ses_token s))
        \<and> ses_storage s ''auth_token'' = Some (js_to_string (ses_token s))
        \<and> (ses_storage s ''refresh_token'' = Some (js_to_string (ses_refreshToken s))
            \<or> (ses_storage s ''refresh_token'' = None \<and> ses_refreshToken s = JNull))
      else \<not> truthy (ses_token s) \<and> ses_userInfo s = JNull)"

lemma userUpdated_fields [simp]:
  "ses_token (userUpdated s) = ses_token s" "ses_refreshToken (userUpdated s) = ses_refreshToken s"
  "ses_userInfo (userUpdated s) = ses_userInfo s" "ses_storage (userUpdated s) = ses_storage s"
  "ses_isAuthorized (userUpdated s) = ses_isAuthorized s" "ses_header (userUpdated s) = ses_header s"
  "ses_role (userUpdated s) = ses_role s" "ses_clientType (userUpdated s) = ses_clientType s"
  "ses_expiration (userUpdated s) = ses_expiration s" "ses_location (userUpdated s) = ses_location s"
  "ses_notified (userUpdated s) = ses_notified s @ ses_listners s"
  "ses_listners (userUpdated s) = ses_listners s" "ses_interceptors (userUpdated s) = ses_interceptors s"
  by (simp_all add: userUpdated_def)

lemma loadUser_fields [simp]:
  "ses_token (snd (loadUser decode s)) = ses_token s"
  "ses_refreshToken (snd (loadUser decode s)) = ses_refreshToken s"
  "ses_storage (snd (loadUser decode s)) = ses_storage s"
  "ses_isAuthorized (snd (loadUser decode s))"
  "ses_header (snd (loadUser decode s)) = Some (''Bearer '' @ js_to_string (ses_token s))"
  "ses_role (snd (loadUser decode s)) = ses_role s"
  "ses_clientType (snd (loadUser decode s)) = ses_clientType s"
  "ses_expiration (snd (loadUser decode s)) = ses_expiration s"
  by (simp_all add: loadUser_def Let_def split: sum.split)

lemma storage_ops [simp]:
  "getItem k (setItem k v m) = JStr (js_to_string v)"
  "k \<noteq> k' \<Longrightarrow> getItem k (setItem k' v m) = getItem k m"
  "getItem k (removeItem k m) = JNull"
  "k \<noteq> k' \<Longrightarrow> getItem k (removeItem k' m) = getItem k m"
  "setItem k v m k = Some (js_to_string v)"
  "k \<noteq> k' \<Longrightarrow> setItem k' v m k = m k"
  "removeItem k m k = None"
  "k \<noteq> k' \<Longrightarrow> removeItem k' m k = m k"
  by (simp_all add: getItem_def setItem_def removeItem_def)

lemma getItem_eq_JStr [simp]: "getItem k m = JStr v \<longleftrightarrow> m k = Some v"
  by (simp add: getItem_def split: option.split)

lemma truthy_getItem: "truthy (getItem k m) \<longleftrightarrow> (\<exists>v. m k = Some v \<and> v \<noteq> [])"
  by (simp add: getItem_def split: option.split)

lemma setToken_ok: "session_ok (snd (setToken decode d ct s))"
  by (simp add: setToken_def session_ok_def Let_def)

lemma logout_ok: "session_ok (logout s)"
  by (simp add: logout_def session_ok_def Let_def)

lemma storage_reload_refresh:
  "m ''refresh_token'' = Some (js_to_string (getItem ''refresh_token'' m))
   \<or> m ''refresh_token'' = None \<and> getItem ''refresh_token'' m = JNull"
  by (simp add: getItem_def split: option.split)

lemma loadToken_ok:
  assumes "session_ok s"
  shows "session_ok (snd (loadToken decode s))"
proof (cases "truthy (ses_token s)")
  case True
  with assms have "ses_isAuthorized s" by (auto simp: session_ok_def split: if_splits)
  with assms True show ?thesis by (simp add: loadToken_def session_ok_def)
next
  case False
  then show ?thesis
    using assms storage_reload_refresh [of "ses_storage s"]
    by (auto simp: loadToken_def session_ok_def truthy_getItem getItem_def Let_def
        split: option.splits if_splits)
qed

lemma on_error_session:
  "snd (snd (on_error (e, s))) = s \<or> snd (snd (on_error (e, s))) = logout s"
  by (simp add: on_error_def Let_def split: option.split)

lemma on_error_ok: "session_ok s \<Longrightarrow> session_ok (snd (snd (on_error (e, s))))"
  using on_error_session [of e s] by (auto intro: logout_ok)

lemma run_interceptors_ok:
  "session_ok s \<Longrightarrow> session_ok (snd (snd (run_interceptors n (e, s))))"
proof (induction n arbitrary: e s)
  case (Suc n)
  obtain fx e1 s1 where step: "on_error (e, s) = (fx, e1, s1)" by (metis prod_cases3)
  with on_error_ok [OF Suc.prems, of e] have "session_ok s1" by simp
  with Suc.IH [of s1 e1] step show ?case by (simp add: split_beta)
qed simp

lemma refresh_done_cases:
  obtains "refresh_done decode r ct s = logout s"
  | d content where "r = Inr d" and "refresh_done decode r ct s = snd (setToken decode d content s)"
      and "fst (setToken decode d content s) = None"
  | d content where "refresh_done decode r ct s = logout (snd (setToken decode d content s))"
proof (cases "res_bind r (\<lambda>d. res_bind ct (\<lambda>ct. res_bind (get_prop ct ''content'')
    (\<lambda>content. Inr (d, content))))")
  case (Inl e)
  then show thesis by (intro that(1)) (simp add: refresh_done_def)
next
  case (Inr dc)
  then obtain d content where dc: "r = Inr d" "dc = (d, content)" by (auto simp: res_bind_eq_Inr)
  show thesis
  proof (cases "fst (setToken decode d content s)")
    case None
    with Inr dc show thesis
      by (intro that(2) [of d content]) (auto simp: refresh_done_def split: prod.splits option.splits)
  next
    case (Some e)
    with Inr dc show thesis
      by (intro that(3) [of d content]) (auto simp: refresh_done_def split: prod.splits option.splits)
  qed
qed

lemma refresh_done_ok: "session_ok (refresh_done decode r ct s)"
  by (cases rule: refresh_done_cases [of decode r ct s]) (simp_all add: logout_ok setToken_ok)

section \<open>Requests in flight\<close>

text \<open>
  The session as it moves with the answers of the server: ordinary requests, a refresh that has
  been posted, and a refresh that waits for the client type. A failing answer runs through the
  registered interceptors; a failing answer to one of the two refresh requests then reaches the
  \<^verbatim>\<open>catch\<close> of the refresh. Each request has its own configuration, whose mark is not set yet.
\<close>

datatype job = Plain | Refreshing | AskingClientType auth_data

fun is_refresh :: "effect \<Rightarrow> bool" where
  "is_refresh (RefreshLogin _) = True"
| "is_refresh _ = False"

definition fail_job :: "job \<Rightarrow> nat option \<Rightarrow> bool \<Rightarrow> session \<Rightarrow> job list \<times> session" where
  "fail_job j status req s =
     (case run_interceptors (ses_interceptors s)
             (\<lparr>err_status = status, err_request = req, err_retry = False\<rparr>, s) of
        (fx, _, s1) \<Rightarrow>
          (map (\<lambda>_. Refreshing) (filter is_refresh fx), if j = Plain then s1 else logout s1))"

definition drop_job :: "nat \<Rightarrow> job list \<Rightarrow> job list" where
  "drop_job i js = take i js @ drop (Suc i) js"

record net =
  net_session :: session
  net_jobs :: "job list"

inductive net_step :: "(jsv \<Rightarrow> jsv res) \<Rightarrow> net \<Rightarrow> net \<Rightarrow> bool" for decode where
  send: "net_step decode n (n\<lparr>net_jobs := net_jobs n @ [Plain]\<rparr>)"
| answered: "i < length (net_jobs n) \<Longrightarrow> net_jobs n ! i = Plain \<Longrightarrow>
    net_step decode n (n\<lparr>net_jobs := drop_job i (net_jobs n)\<rparr>)"
| failed: "i < length (net_jobs n) \<Longrightarrow>
    fail_job (net_jobs n ! i) status req (net_session n) = (started, s) \<Longrightarrow>
    net_step decode n (n\<lparr>net_jobs := drop_job i (net_jobs n) @ started, net_session := s\<rparr>)"
| refreshed: "i < length (net_jobs n) \<Longrightarrow> net_jobs n ! i = Refreshing \<Longrightarrow>
    net_step decode n (n\<lparr>net_jobs := (net_jobs n)[i := AskingClientType d]\<rparr>)"
| completed: "i < length (net_jobs n) \<Longrightarrow> net_jobs n ! i = AskingClientType d \<Longrightarrow> truthy ct \<Longrightarrow>
    net_step decode n (n\<lparr>net_jobs := drop_job i (net_jobs n),
      net_session := refresh_done decode (Inr d) (Inr ct) (net_session n)\<rparr>)"
| signed_in: "net_step decode n (n\<lparr>net_session := snd (setToken decode d ct (net_session n))\<rparr>)"
| signed_out: "net_step decode n (n\<lparr>net_session := logout (net_session n)\<rparr>)"
| loaded: "net_step decode n (n\<lparr>net_session := snd (loadToken decode (net_session n))\<rparr>)"

inductive_cases net_stepE: "net_step decode n n'"

definition fresh_page :: "net \<Rightarrow> bool" where
  "fresh_page n \<longleftrightarrow> net_jobs n = [] \<and> (\<exists>st l. net_session n = page_load st l)"

lemma fail_job_ok: "session_ok s \<Longrightarrow> session_ok (snd (fail_job j status req s))"
  by (simp add: fail_job_def split_beta logout_ok run_interceptors_ok)

lemma net_step_ok:
  assumes "session_ok (net_session n)" and "net_step decode n n'"
  shows "session_ok (net_session n')"
  using assms(2,1)
proof (cases rule: net_step.cases)
  case (failed i status req started s)
  with fail_job_ok [OF assms(1)] show ?thesis by (metis net.select_convs(1) net.surjective
      net.update_convs(1) snd_conv)
qed (simp_all add: refresh_done_ok setToken_ok logout_ok loadToken_ok)

lemma page_load_ok: "session_ok (page_load st l)"
  by (simp add: page_load_def session_ok_def)

interpretation session_machine:
  invariant_machine fresh_page "net_step decode" "\<lambda>n. session_ok (net_session n)" for decode
  by unfold_locales (auto simp: fresh_page_def page_load_ok intro: net_step_ok)

section \<open>Properties\<close>


definition demo_auth :: auth_data where
  "demo_auth = \<lparr>ad_token = JStr ''t1'', ad_expiration = JStr ''2024'', ad_role = JStr ''Admin'',
     ad_refreshToken = JStr ''r1''\<rparr>"

definition demo_net :: net where
  "demo_net = \<lparr>net_session = page_load Map.empty ''/'', net_jobs = []\<rparr>"


lemma on_error_marked:
  "err_retry e \<Longrightarrow> filter is_refresh (fst (on_error (e, s))) = [] \<and> snd (on_error (e, s)) = (e, s)"
  by (auto simp: on_error_def split: option.splits if_splits)

lemma run_interceptors_marked:
  "err_retry e \<Longrightarrow> filter is_refresh (fst (run_interceptors n (e, s))) = []
     \<and> snd (run_interceptors n (e, s)) = (e, s)"
  by (induction n) (simp_all add: split_beta on_error_marked)

definition starts_refresh :: "http_error \<Rightarrow> session \<Rightarrow> bool" where
  "starts_refresh e s \<longleftrightarrow>
     (err_status e = Some 401 \<or> err_status e = Some 403) \<and> ses_isAuthorized s \<and> \<not> err_retry e
     \<and> truthy (getItem ''refresh_token'' (ses_storage s))"

lemma logout_unauthorized [simp]:
  "\<not> ses_isAuthorized (logout s)" "getItem ''refresh_token'' (ses_storage (logout s)) = JNull"
  by (simp_all add: logout_def Let_def)

lemma on_error_refreshes:
  "length (filter is_refresh (fst (on_error (e, s)))) = (if starts_refresh e s then 1 else 0)"
  by (auto simp: on_error_def starts_refresh_def Let_def split: option.splits)

lemma on_error_next:
  assumes "on_error (e, s) = (fx, e', s')"
  shows "err_retry e' \<or> (e' = e \<and> s' = s)" and "starts_refresh e s \<Longrightarrow> err_retry e'"
  using assms
  by (auto simp: on_error_def starts_refresh_def Let_def split: option.splits if_splits)

lemma run_interceptors_quiet:
  assumes "\<not> starts_refresh e s"
  shows "filter is_refresh (fst (run_interceptors n (e, s))) = []"
  using assms
proof (induction n)
  case (Suc n)
  obtain fx e1 s1 where step: "on_error (e, s) = (fx, e1, s1)" by (metis prod_cases3)
  with on_error_refreshes [of e s] Suc.prems have "filter is_refresh fx = []" by simp
  moreover have "filter is_refresh (fst (run_interceptors n (e1, s1))) = []"
    using on_error_next(1) [OF step] Suc run_interceptors_marked by blast
  ultimately show ?case using step by (simp add: split_beta)
qed simp

lemma refreshes_Suc:
  "length (filter is_refresh (fst (run_interceptors (Suc n) (e, s))))
     = (if starts_refresh e s then 1 else 0)"
proof (cases "starts_refresh e s")
  case True
  obtain fx e1 s1 where step: "on_error (e, s) = (fx, e1, s1)" by (metis prod_cases3)
  then have "filter is_refresh (fst (run_interceptors n (e1, s1))) = []"
    using on_error_next(2) [OF step True] run_interceptors_marked by blast
  with True step on_error_refreshes [of e s] show ?thesis by (simp add: split_beta)
next
  case False
  then show ?thesis using run_interceptors_quiet [of e s "Suc n"] by simp
qed

lemma refreshes_le_one: "length (filter is_refresh (fst (run_interceptors n (e, s)))) \<le> 1"
  by (cases n) (simp_all add: refreshes_Suc del: run_interceptors.simps(2))

text \<open>
  C14: however many copies of the handler are registered, one failed request starts exactly one
  refresh when it was refused, the user is signed in and a refresh token is stored, and none
  otherwise.
\<close>

theorem one_refresh_per_failure:
  "length (filter is_refresh (fst (run_interceptors (Suc n) (e, s))))
     = (if starts_refresh e s then 1 else 0)"
  by (rule refreshes_Suc)





text \<open>
  Signing out is lasting. The page loaded after \<^verbatim>\<open>logout\<close> is not signed in, sends no
  header, has no user and no token of either kind, whatever the storage held before.
\<close>

theorem logout_survives_page_load:
  "\<exists>s'. loadToken decode (page_load (ses_storage (logout s)) l) = (None, s')
     \<and> \<not> ses_isAuthorized s' \<and> ses_header s' = None \<and> ses_userInfo s' = JNull
     \<and> ses_token s' = JNull \<and> ses_refreshToken s' = JNull \<and> ses_role s' = JNull"
  by (simp add: logout_def Let_def loadToken_def page_load_def)

end
