(* ===== verification/Control_Functions.thy ===== *)
theory Control_Functions
  imports Js_Value
begin

text \<open>
  The array helpers of \<^verbatim>\<open>controls/functions.js\<close> and \<^verbatim>\<open>components/Trades/utils.js\<close>:
  grouping, flattening, ordering, removal of duplicates and the merge of two lists of trades.
  Two interfaces are stated as locales, because several views rely on them: what a stable sort
  promises, and what removing duplicates by a key promises.
\<close>

section \<open>\<^verbatim>\<open>Array.prototype.sort\<close>\<close>

text \<open>
  The sort of the language is stable. The comparator enters as \<open>after a b\<close>, that is
  \<^verbatim>\<open>compare(a, b) > 0\<close>; for a consistent comparator the result does not depend on the
  algorithm.
\<close>

fun sort_insert :: "('a \<Rightarrow> 'a \<Rightarrow> bool) \<Rightarrow> 'a \<Rightarrow> 'a list \<Rightarrow> 'a list" where
  "sort_insert after x [] = [x]"
| "sort_insert after x (y # ys) =
     (if after x y then y # sort_insert after x ys else x # y # ys)"

definition js_sort :: "('a \<Rightarrow> 'a \<Rightarrow> bool) \<Rightarrow> 'a list \<Rightarrow> 'a list" where
  "js_sort after xs = foldr (sort_insert after) xs []"

lemma mset_sort_insert [simp]: "mset (sort_insert after x ys) = add_mset x (mset ys)"
  by (induction ys) auto

lemma mset_js_sort [simp]: "mset (js_sort after xs) = mset xs"
  by (induction xs) (auto simp: js_sort_def)

lemma set_js_sort [simp]: "set (js_sort after xs) = set xs"
  by (metis mset_js_sort set_mset_mset)

lemma length_js_sort [simp]: "length (js_sort after xs) = length xs"
  by (metis mset_js_sort size_mset)

lemma sort_insert_key: "sort_insert (\<lambda>a b. f b < f a) x ys = insort_key f x ys"
  for f :: "'a \<Rightarrow> 'k :: linorder"
  by (induction ys) auto

lemma js_sort_key: "js_sort (\<lambda>a b. f b < f a) xs = sort_key f xs"
  for f :: "'a \<Rightarrow> 'k :: linorder"
  by (induction xs) (simp_all add: js_sort_def sort_insert_key sort_key_def)

text \<open>What every client of the sort relies on.\<close>

locale stable_sorter =
  fixes sorter :: "('a \<Rightarrow> 'k :: linorder) \<Rightarrow> 'a list \<Rightarrow> 'a list"
  assumes sorter_mset: "mset (sorter f xs) = mset xs"
    and sorter_sorted: "sorted (map f (sorter f xs))"
    and sorter_stable: "filter (\<lambda>x. f x = k) (sorter f xs) = filter (\<lambda>x. f x = k) xs"
begin

lemma sorter_set: "set (sorter f xs) = set xs"
  by (metis sorter_mset set_mset_mset)

lemma sorter_length: "length (sorter f xs) = length xs"
  by (metis sorter_mset size_mset)

lemma sorter_distinct_keys:
  assumes "distinct (map g xs)"
  shows "distinct (map g (sorter f xs))"
proof -
  have "mset (map g (sorter f xs)) = mset (map g xs)"
    by (simp add: sorter_mset)
  then show ?thesis using assms by (metis mset_eq_imp_distinct_iff)
qed

lemma sorter_unique: "sorter f xs = sort_key f xs"
proof (rule properties_for_sort_key [symmetric])
  show "mset (sorter f xs) = mset xs" by (rule sorter_mset)
  show "sorted (map f (sorter f xs))" by (rule sorter_sorted)
  show "filter (\<lambda>y. f k = f y) (sorter f xs) = filter (\<lambda>y. f k = f y) xs"
    if "k \<in> set (sorter f xs)" for k
    using sorter_stable [of f "f k" xs] by (simp add: eq_commute)
qed

lemma sorter_idem: "sorted (map f xs) \<Longrightarrow> sorter f xs = xs"
  by (simp add: sorter_unique sort_key_id_if_sorted)

end

interpretation array_sort: stable_sorter
  "\<lambda>(f :: 'a \<Rightarrow> 'k :: linorder) xs. js_sort (\<lambda>a b. f b < f a) xs"
  by unfold_locales (simp_all add: js_sort_key sort_key_stable)

section \<open>\<^verbatim>\<open>removeDuplicates\<close>\<close>

text \<open>
  The elements are objects, so \<^verbatim>\<open>arr[i]\<close> is truthy for every index of the array, and
  \<^verbatim>\<open>arr[false]\<close> is \<open>undefined\<close>: a mark is \<open>Some i\<close> where the index was kept and \<open>None\<close>
  where the second \<^verbatim>\<open>map\<close> left \<^verbatim>\<open>false\<close>.
\<close>

definition removeDuplicates :: "('a \<Rightarrow> 'k) \<Rightarrow> 'a list \<Rightarrow> 'a list" where
  "removeDuplicates key arr =
     (let final = map key arr;
          marks = map (\<lambda>i. if find_index (\<lambda>e. e = final ! i) final = int i then Some i else None)
                    [0..<length arr]
      in map (\<lambda>e. arr ! the e) (filter (\<lambda>e. e \<noteq> None) marks))"

lemma find_index_self_iff:
  assumes "i < length xs"
  shows "find_index (\<lambda>e. e = xs ! i) xs = int i \<longleftrightarrow> (\<forall>j < i. xs ! j \<noteq> xs ! i)"
proof (cases rule: find_index_cases [of "\<lambda>e. e = xs ! i" xs])
  case absent
  with assms show ?thesis by (metis nth_mem)
next
  case (found k)
  with assms show ?thesis
    by (metis linorder_neqE_nat of_nat_eq_iff)
qed

lemma removeDuplicates_indices:
  "removeDuplicates key arr =
     map ((!) arr) (filter (\<lambda>i. \<forall>j < i. key (arr ! j) \<noteq> key (arr ! i)) [0..<length arr])"
proof -
  have "filter (\<lambda>e. e \<noteq> None)
      (map (\<lambda>i. if find_index (\<lambda>e. e = map key arr ! i) (map key arr) = int i
         then Some i else None) is)
    = map Some (filter (\<lambda>i. \<forall>j < i. key (arr ! j) \<noteq> key (arr ! i)) is)"
    if "\<forall>i \<in> set is. i < length arr" for "is"
    using that
  proof (induction "is")
    case (Cons i "is")
    then have "find_index (\<lambda>e. e = map key arr ! i) (map key arr) = int i
        \<longleftrightarrow> (\<forall>j < i. key (arr ! j) \<noteq> key (arr ! i))"
      using find_index_self_iff [of i "map key arr"] by (simp cong: conj_cong imp_cong)
    with Cons show ?case by (simp del: nth_map)
  qed simp
  from this [of "[0..<length arr]"] show ?thesis
    by (simp add: removeDuplicates_def Let_def del: nth_map)
qed

lemma removeDuplicates_Nil [simp]: "removeDuplicates key [] = []"
  by (simp add: removeDuplicates_indices)

lemma removeDuplicates_snoc [simp]:
  "removeDuplicates key (xs @ [x]) =
     removeDuplicates key xs @ (if key x \<in> key ` set xs then [] else [x])"
proof -
  let ?new = "\<lambda>ys i. \<forall>j < i. key (ys ! j) \<noteq> key (ys ! i)"
  have "filter (?new (xs @ [x])) [0..<length xs] = filter (?new xs) [0..<length xs]"
    by (rule filter_cong) (auto simp: nth_append)
  moreover have "?new (xs @ [x]) (length xs) \<longleftrightarrow> key x \<notin> key ` set xs"
    by (auto simp: nth_append in_set_conv_nth) (metis image_eqI nth_mem)
  moreover have "map ((!) (xs @ [x])) (filter (?new xs) [0..<length xs])
      = map ((!) xs) (filter (?new xs) [0..<length xs])"
    by (rule map_cong) (auto simp: nth_append)
  ultimately show ?thesis
    by (auto simp: removeDuplicates_indices)
qed

lemma find_append:
  "List.find P (xs @ ys) = (case List.find P xs of None \<Rightarrow> List.find P ys | Some x \<Rightarrow> Some x)"
  by (induction xs) auto

text \<open>What removing duplicates by a key promises.\<close>

locale dedup_by =
  fixes dedup :: "('a \<Rightarrow> 'k) \<Rightarrow> 'a list \<Rightarrow> 'a list"
  assumes dedup_distinct: "distinct (map f (dedup f xs))"
    and dedup_keys: "f ` set (dedup f xs) = f ` set xs"
    and dedup_subseq: "subseq (dedup f xs) xs"
    and dedup_first: "List.find (\<lambda>x. f x = k) (dedup f xs) = List.find (\<lambda>x. f x = k) xs"
begin

lemma dedup_subset: "set (dedup f xs) \<subseteq> set xs"
  by (metis dedup_subseq subseq_conv_nths notin_set_nthsI subsetI)

lemma dedup_length: "length (dedup f xs) = card (f ` set xs)"
proof -
  have "length (dedup f xs) = card (set (map f (dedup f xs)))"
    using dedup_distinct [of f xs] by (simp only: distinct_card length_map)
  then show ?thesis by (simp add: dedup_keys)
qed

end

lemma removeDuplicates_image: "f ` set (removeDuplicates f xs) = f ` set xs"
  by (induction xs rule: rev_induct) auto

lemma removeDuplicates_subset: "set (removeDuplicates f xs) \<subseteq> set xs"
  by (induction xs rule: rev_induct) auto

interpretation js_dedup: dedup_by "removeDuplicates :: ('a \<Rightarrow> 'k) \<Rightarrow> 'a list \<Rightarrow> 'a list"
proof
  fix f :: "'a \<Rightarrow> 'k" and xs :: "'a list" and k
  show "distinct (map f (removeDuplicates f xs))"
  proof (induction xs rule: rev_induct)
    case (snoc x xs)
    then show ?case using removeDuplicates_image [of f xs] by auto
  qed simp
  show "f ` set (removeDuplicates f xs) = f ` set xs"
    by (rule removeDuplicates_image)
  show "subseq (removeDuplicates f xs) xs"
    by (induction xs rule: rev_induct) (auto intro: list_emb_append_mono)
  show "List.find (\<lambda>x. f x = k) (removeDuplicates f xs) = List.find (\<lambda>x. f x = k) xs"
  proof (induction xs rule: rev_induct)
    case (snoc x xs)
    show ?case
    proof (cases "List.find (\<lambda>x. f x = k) xs")
      case None
      then have "k \<notin> f ` set xs" by (auto simp: find_None_iff)
      with None snoc show ?thesis by (auto simp: find_append)
    next
      case (Some y)
      with snoc show ?thesis by (simp add: find_append)
    qed
  qed simp
qed

section \<open>\<^verbatim>\<open>orderByDate\<close>, \<^verbatim>\<open>orderAscending\<close>, \<^verbatim>\<open>orderDescending\<close>\<close>

text \<open>
  \<open>date_ms\<close> is the time value of \<^verbatim>\<open>new Date(a.dateTime)\<close>, in milliseconds, for the
  valid time stamps the server sends. \<^verbatim>\<open>dateB - dateA > 0\<close> puts the later date first.
\<close>

definition orderByDate :: "('a \<Rightarrow> int) \<Rightarrow> 'a list \<Rightarrow> 'a list" where
  "orderByDate date_ms arr = js_sort (\<lambda>a b. 0 < date_ms b - date_ms a) arr"

lemma orderByDate_sort_key: "orderByDate date_ms arr = sort_key (\<lambda>a. - date_ms a) arr"
proof -
  have "(\<lambda>a b. 0 < date_ms b - date_ms a) = (\<lambda>a b. - date_ms b < - date_ms a)"
    by auto
  then show ?thesis by (simp only: orderByDate_def js_sort_key)
qed

text \<open>
  The keys of the object become numbers; a comparator value of \<open>NaN\<close> counts as zero, so
  \<open>after\<close> fails on it.
\<close>

definition orderAscending :: "(string \<times> 'v) list \<Rightarrow> (jsnum \<times> 'v) list" where
  "orderAscending arr =
     js_sort (\<lambda>a b. num_less num_zero (num_sub (fst a) (fst b)))
       (map (\<lambda>k. (string_to_num k, the (map_of arr k))) (own_keys arr))"

definition orderDescending :: "(string \<times> 'v) list \<Rightarrow> (jsnum \<times> 'v) list" where
  "orderDescending arr =
     js_sort (\<lambda>a b. num_less num_zero (num_sub (fst b) (fst a)))
       (map (\<lambda>k. (string_to_num k, the (map_of arr k))) (own_keys arr))"

section \<open>\<^verbatim>\<open>groupBy\<close>\<close>

text \<open>
  The collection maps a key, as a property name, to the list the code keeps under
  \<^verbatim>\<open>exchanges\<close>. A group is an object, so the test \<^verbatim>\<open>!collection[key]\<close> asks whether the
  key is present.
\<close>

definition group_add :: "('a \<Rightarrow> string) \<Rightarrow> 'a \<Rightarrow> (string \<times> 'a list) list \<Rightarrow> (string \<times> 'a list) list" where
  "group_add keyGetter item collection =
     (let key = keyGetter item
      in case map_of collection key of
           None \<Rightarrow> AList.update key [item] collection
         | Some exchanges \<Rightarrow> AList.update key (exchanges @ [item]) collection)"

definition groupBy :: "('a \<Rightarrow> string) \<Rightarrow> 'a list \<Rightarrow> (string \<times> 'a list) list" where
  "groupBy keyGetter list = fold (group_add keyGetter) list []"

lemma groupBy_Nil [simp]: "groupBy f [] = []"
  by (simp add: groupBy_def)

lemma groupBy_snoc: "groupBy f (xs @ [x]) = group_add f x (groupBy f xs)"
  by (simp add: groupBy_def)

lemma map_of_group_add:
  "map_of (group_add f x c) =
     (map_of c)(f x \<mapsto> (case map_of c (f x) of None \<Rightarrow> [x] | Some xs \<Rightarrow> xs @ [x]))"
  by (auto simp: group_add_def Let_def update_conv' split: option.splits)

lemma distinct_group_add: "distinct (map fst c) \<Longrightarrow> distinct (map fst (group_add f x c))"
  by (simp add: group_add_def Let_def distinct_update split: option.splits)

lemma distinct_groupBy [simp]: "distinct (map fst (groupBy f xs))"
  by (induction xs rule: rev_induct) (simp_all add: groupBy_snoc distinct_group_add)

lemma groupBy_lookup:
  "map_of (groupBy f xs) k =
     (if k \<in> f ` set xs then Some (filter (\<lambda>x. f x = k) xs) else None)"
proof (induction xs rule: rev_induct)
  case (snoc x xs)
  then show ?case
    by (auto simp: groupBy_snoc map_of_group_add filter_empty_conv image_iff) metis
qed simp

lemma groupBy_keys: "fst ` set (groupBy f xs) = f ` set xs"
  using groupBy_lookup [of f xs] by (metis (mono_tags) domIff dom_map_of_conv_image_fst option.distinct(1) subsetI subset_antisym)

section \<open>\<^verbatim>\<open>flatten\<close>\<close>

text \<open>The \<^verbatim>\<open>reduce\<close> concatenates the flattened form of each nested array, and any other
  element as it is.\<close>

fun flatten :: "jsv list \<Rightarrow> jsv list" where
  "flatten [] = []"
| "flatten (JArr ys # xs) = flatten ys @ flatten xs"
| "flatten (x # xs) = x # flatten xs"

fun is_array :: "jsv \<Rightarrow> bool" where
  "is_array (JArr _) = True"
| "is_array _ = False"

lemma flatten_flat: "x \<in> set (flatten xs) \<Longrightarrow> \<not> is_array x"
  by (induction xs rule: flatten.induct) auto

lemma flatten_id: "\<forall>x \<in> set xs. \<not> is_array x \<Longrightarrow> flatten xs = xs"
  by (induction xs rule: flatten.induct) auto

lemma flatten_append: "flatten (xs @ ys) = flatten xs @ flatten ys"
  by (induction xs rule: flatten.induct) auto

lemma flatten_idem: "flatten (flatten xs) = flatten xs"
  by (rule flatten_id) (auto dest: flatten_flat)

section \<open>Trades: \<^verbatim>\<open>getBefore\<close> and \<^verbatim>\<open>concatTrades\<close>\<close>

text \<open>
  \<open>tid\<close> and \<open>date_ms\<close> read the \<^verbatim>\<open>id\<close> and the time value of a transaction.
\<close>

definition getBefore :: "('a \<Rightarrow> 'd) \<Rightarrow> 'a list \<Rightarrow> 'd res" where
  "getBefore dateTime transactions =
     (case at transactions (int (length transactions) - 1) of
        None \<Rightarrow> Inl TypeError | Some t \<Rightarrow> Inr (dateTime t))"

definition concatTrades :: "('a \<Rightarrow> 'k) \<Rightarrow> ('a \<Rightarrow> int) \<Rightarrow> 'a list \<Rightarrow> 'a list \<Rightarrow> 'a list" where
  "concatTrades tid date_ms oldTrades newTrades =
     (let trades = oldTrades @ newTrades;
          trades = removeDuplicates tid trades
      in orderByDate date_ms trades)"

text \<open>Merging lists by a key and ordering the result, over any such pair of operations.\<close>

locale keyed_merge = dedup_by dedup + stable_sorter sorter
  for dedup :: "('a \<Rightarrow> 'k) \<Rightarrow> 'a list \<Rightarrow> 'a list"
    and sorter :: "('a \<Rightarrow> 'd :: linorder) \<Rightarrow> 'a list \<Rightarrow> 'a list"
begin

lemma merge_distinct: "distinct (map f (sorter g (dedup f (xs @ ys))))"
  by (rule sorter_distinct_keys) (rule dedup_distinct)

lemma merge_sorted: "sorted (map g (sorter g (dedup f (xs @ ys))))"
  by (rule sorter_sorted)

lemma merge_keys: "f ` set (sorter g (dedup f (xs @ ys))) = f ` set xs \<union> f ` set ys"
  by (simp add: sorter_set dedup_keys image_Un)

lemma merge_keeps_old:
  assumes "x \<in> set xs" and "distinct (map f xs)"
  shows "x \<in> set (sorter g (dedup f (xs @ ys)))"
proof -
  have "List.find (\<lambda>y. f y = f x) xs = Some x"
    using assms by (induction xs) (auto simp: image_iff)
  then have "List.find (\<lambda>y. f y = f x) (dedup f (xs @ ys)) = Some x"
    by (simp add: dedup_first find_append)
  then show ?thesis by (auto simp: sorter_set find_Some_iff)
qed

lemma merge_length: "length (sorter g (dedup f (xs @ ys))) = card (f ` set xs \<union> f ` set ys)"
  by (simp add: sorter_length dedup_length image_Un)

lemma merge_absorbs:
  assumes "f ` set ys \<subseteq> f ` set xs" and "distinct (map f xs)" and "sorted (map g xs)"
  shows "length (sorter g (dedup f (xs @ ys))) = length xs"
proof -
  have "f ` set xs \<union> f ` set ys = set (map f xs)" using assms(1) by auto
  then show ?thesis using assms(2) by (simp only: merge_length distinct_card length_map)
qed

end

interpretation trades_merge: keyed_merge
  "removeDuplicates :: ('a \<Rightarrow> 'k) \<Rightarrow> 'a list \<Rightarrow> 'a list"
  "\<lambda>(f :: 'a \<Rightarrow> int) xs. js_sort (\<lambda>a b. f b < f a) xs"
  by (rule keyed_merge.intro) (rule js_dedup.dedup_by_axioms, rule array_sort.stable_sorter_axioms)

lemma concatTrades_merge:
  "concatTrades tid date_ms xs ys =
     js_sort (\<lambda>a b. - date_ms b < - date_ms a) (removeDuplicates tid (xs @ ys))"
  by (simp only: concatTrades_def Let_def orderByDate_sort_key js_sort_key)

lemma find_by_distinct_key:
  assumes "distinct (map f xs)"
  shows "List.find (\<lambda>x. f x = k) xs = Some y \<longleftrightarrow> y \<in> set xs \<and> f y = k"
  using assms by (induction xs) (auto simp: image_iff)

lemma find_same_set:
  assumes "distinct (map f xs)" and "distinct (map f ys)" and "set xs = set ys"
  shows "List.find (\<lambda>x. f x = k) xs = List.find (\<lambda>x. f x = k) ys"
  using find_by_distinct_key [OF assms(1)] find_by_distinct_key [OF assms(2)] assms(3)
  by (metis option.exhaust)

text \<open>
  Merging a page of trades into the table. The result has each id once, the ids of both
  lists, the latest trade first, and for every id the copy that came first, so a trade already
  in the table is not replaced by a later copy.
\<close>

theorem concatTrades_correct:
  "distinct (map tid (concatTrades tid date_ms xs ys))
   \<and> sorted (map (\<lambda>t. - date_ms t) (concatTrades tid date_ms xs ys))
   \<and> tid ` set (concatTrades tid date_ms xs ys) = tid ` set xs \<union> tid ` set ys
   \<and> (\<forall>k. List.find (\<lambda>t. tid t = k) (concatTrades tid date_ms xs ys)
          = List.find (\<lambda>t. tid t = k) (xs @ ys))"
proof (intro conjI allI)
  show distinct: "distinct (map tid (concatTrades tid date_ms xs ys))"
    unfolding concatTrades_merge by (rule trades_merge.merge_distinct)
  show "sorted (map (\<lambda>t. - date_ms t) (concatTrades tid date_ms xs ys))"
    unfolding concatTrades_merge by (rule trades_merge.merge_sorted)
  show "tid ` set (concatTrades tid date_ms xs ys) = tid ` set xs \<union> tid ` set ys"
    unfolding concatTrades_merge by (rule trades_merge.merge_keys)
  fix k
  have "List.find (\<lambda>t. tid t = k) (concatTrades tid date_ms xs ys)
      = List.find (\<lambda>t. tid t = k) (removeDuplicates tid (xs @ ys))"
    by (rule find_same_set [OF distinct js_dedup.dedup_distinct]) (simp add: concatTrades_merge)
  then show "List.find (\<lambda>t. tid t = k) (concatTrades tid date_ms xs ys)
      = List.find (\<lambda>t. tid t = k) (xs @ ys)"
    by (simp only: js_dedup.dedup_first)
qed

text \<open>
  \<^verbatim>\<open>removeDuplicates\<close> keeps a subsequence of the array, with one element for every key
  that occurs, and it is the first element that has the key.
\<close>

theorem removeDuplicates_correct:
  "subseq (removeDuplicates key arr) arr \<and> distinct (map key (removeDuplicates key arr))
   \<and> length (removeDuplicates key arr) = card (key ` set arr)
   \<and> (\<forall>k. List.find (\<lambda>x. key x = k) (removeDuplicates key arr) = List.find (\<lambda>x. key x = k) arr)"
  by (intro conjI allI js_dedup.dedup_subseq js_dedup.dedup_distinct js_dedup.dedup_length
      js_dedup.dedup_first)

text \<open>
  \<^verbatim>\<open>groupBy\<close> partitions the list: every key that occurs has exactly one group, which holds
  the items of that key in their order, and no other key has one.
\<close>

theorem groupBy_partitions:
  "distinct (map fst (groupBy keyGetter xs))
   \<and> (\<forall>k. map_of (groupBy keyGetter xs) k =
        (if k \<in> keyGetter ` set xs then Some (filter (\<lambda>x. keyGetter x = k) xs) else None))"
  by (simp add: groupBy_lookup)

end
