(* ===== verification/Ws_Store.thy ===== *)
theory Ws_Store
  imports Json Session Control_Functions
begin

text \<open>
  \<^verbatim>\<open>unstatedContainers/WsContainer.js\<close>: the live data of the dashboard over one web socket. A
  method is cut at its \<^verbatim>\<open>await\<close>s into segments: calling it runs the first segment and leaves
  the rest as frames, which the event loop (theory \<open>Ws_Loop\<close>) resumes one at a time. A
  \<^verbatim>\<open>setState\<close> is the frame that applies its fields. The socket library is outside: the ready
  state of the socket, its events and the clock are inputs.
\<close>

section \<open>State\<close>

record ws_state =
  ws_strategyName :: jsv
  ws_currencyCodePair :: jsv
  ws_currencyPair :: jsv
  ws_exchangeName :: jsv
  ws_currencyIndicators :: jsv
  ws_orderState :: jsv
  ws_transactions :: jsv
  ws_profits :: jsv
  ws_volumeNow :: jsv
  ws_dashboardIndicators :: jsv
  ws_balances :: jsv
  ws_tradeSignals :: jsv
  ws_isConnected :: bool
  ws_subscribedLiquidity :: string
  ws_subscribedVolume :: string
  ws_subscribedPL :: string
  ws_subscribedDashboard :: bool
  ws_subscribedBalances :: bool
  ws_subscribedTradeSignals :: bool
  ws_auth :: bool

definition emptyState :: ws_state where
  "emptyState =
     \<lparr>ws_strategyName = JStr '''', ws_currencyCodePair = JStr ''$currencyCodePair'',
      ws_currencyPair = JStr '''', ws_exchangeName = JStr ''$exchangeName'',
      ws_currencyIndicators = JNull, ws_orderState = JNull, ws_transactions = JNull,
      ws_profits = JNull, ws_volumeNow = JNull, ws_dashboardIndicators = JNull,
      ws_balances = JNull, ws_tradeSignals = JNull, ws_isConnected = False,
      ws_subscribedLiquidity = '''', ws_subscribedVolume = '''', ws_subscribedPL = '''',
      ws_subscribedDashboard = False, ws_subscribedBalances = False,
      ws_subscribedTradeSignals = False, ws_auth = False\<rparr>"

text \<open>The arguments of the \<^verbatim>\<open>setState\<close> calls.\<close>

datatype patch =
    PEmpty | PConnected | PAuth
  | PVolume jsv | PIndicators jsv | PBalances jsv | PProfitLoss jsv jsv | PSignals jsv
  | POrderState jsv | PCurrencyIndicators jsv
  | PSubDashboard | PUnsubDashboard | PSubBalances | PUnsubBalances | PSubSignals | PUnsubSignals
  | PUnsubPL | PSubPL string jsv jsv jsv | PUnsubLiquidity | PSubLiquidity string jsv jsv
  | PUnsubVolume | PSubVolume string jsv jsv | PState jsv jsv jsv

fun apply_patch :: "patch \<Rightarrow> ws_state \<Rightarrow> ws_state" where
  "apply_patch PEmpty s = emptyState"
| "apply_patch PConnected s = s\<lparr>ws_isConnected := True\<rparr>"
| "apply_patch PAuth s = s\<lparr>ws_auth := True\<rparr>"
| "apply_patch (PVolume d) s = s\<lparr>ws_volumeNow := d\<rparr>"
| "apply_patch (PIndicators d) s = s\<lparr>ws_dashboardIndicators := d\<rparr>"
| "apply_patch (PBalances d) s = s\<lparr>ws_balances := d\<rparr>"
| "apply_patch (PProfitLoss t p) s = s\<lparr>ws_transactions := t, ws_profits := p\<rparr>"
| "apply_patch (PSignals d) s = s\<lparr>ws_tradeSignals := d\<rparr>"
| "apply_patch (POrderState d) s = s\<lparr>ws_orderState := d\<rparr>"
| "apply_patch (PCurrencyIndicators d) s = s\<lparr>ws_currencyIndicators := d\<rparr>"
| "apply_patch PSubDashboard s = s\<lparr>ws_subscribedDashboard := True\<rparr>"
| "apply_patch PUnsubDashboard s = s\<lparr>ws_subscribedDashboard := False, ws_dashboardIndicators := JNull\<rparr>"
| "apply_patch PSubBalances s = s\<lparr>ws_subscribedBalances := True\<rparr>"
| "apply_patch PUnsubBalances s = s\<lparr>ws_subscribedBalances := False, ws_balances := JNull\<rparr>"
| "apply_patch PSubSignals s = s\<lparr>ws_subscribedTradeSignals := True\<rparr>"
| "apply_patch PUnsubSignals s = s\<lparr>ws_subscribedTradeSignals := False, ws_tradeSignals := JNull\<rparr>"
| "apply_patch PUnsubPL s = s\<lparr>ws_subscribedPL := '''', ws_transactions := JNull, ws_profits := JNull\<rparr>"
| "apply_patch (PSubPL new x c st) s =
     s\<lparr>ws_subscribedPL := new, ws_exchangeName := x, ws_currencyCodePair := c, ws_strategyName := st\<rparr>"
| "apply_patch PUnsubLiquidity s = s\<lparr>ws_subscribedLiquidity := '''', ws_orderState := JNull\<rparr>"
| "apply_patch (PSubLiquidity new x c) s =
     s\<lparr>ws_subscribedLiquidity := new, ws_exchangeName := x, ws_currencyCodePair := c\<rparr>"
| "apply_patch PUnsubVolume s = s\<lparr>ws_subscribedVolume := '''', ws_volumeNow := JNull\<rparr>"
| "apply_patch (PSubVolume new x c) s =
     s\<lparr>ws_subscribedVolume := new, ws_exchangeName := x, ws_currencyCodePair := c\<rparr>"
| "apply_patch (PState x p c) s =
     s\<lparr>ws_exchangeName := x, ws_currencyPair := p, ws_currencyCodePair := c\<rparr>"

text \<open>
  What is left of a method after an \<^verbatim>\<open>await\<close>: a state update, the end of an invocation, the
  second half of a change of subscription, the rest of \<^verbatim>\<open>onopen\<close>, the reconnection of \<^verbatim>\<open>hb\<close>.
\<close>

datatype frame =
    FSet patch | FInvokeEnd
  | FSubscribePL string jsv jsv jsv | FSubscribeLiquidity string jsv jsv | FSubscribeVolume string jsv jsv
  | FOpenAuth | FOpenPing | FOpenHb | FReconnect

datatype ready_state = Connecting | Open | Closing | Closed

datatype timer = PingTimer | HbTimer

datatype wait = WaitLogin | WaitClientType auth_data

record ws =
  ws_st :: ws_state
  ws_isInvokeInProgress :: bool
  ws_ready :: ready_state
  ws_connection :: nat
  ws_sent :: "string list"
  ws_timers :: "(nat \<times> timer) list"
  ws_nextTimer :: nat
  ws_pingTimeout :: "nat option"
  ws_hbTimeout :: "nat option"
  ws_lastPongTime :: "int option"
  ws_clock :: int
  ws_session :: session
  ws_waiting :: "wait list"
  ws_toasts :: "jsv list"

text \<open>A segment: whether it threw, the frames it leaves, the state.\<close>

type_synonym segment = "js_error option \<times> frame list \<times> ws"

section \<open>Socket and timers\<close>

text \<open>\<^verbatim>\<open>send\<close> throws while the socket connects and discards the text once it closes.\<close>

definition ws_send :: "string \<Rightarrow> ws \<Rightarrow> ws res" where
  "ws_send t s =
     (case ws_ready s of
        Connecting \<Rightarrow> Inl InvalidState
      | Open \<Rightarrow> Inr (s\<lparr>ws_sent := ws_sent s @ [t]\<rparr>)
      | _ \<Rightarrow> Inr s)"

definition ws_close :: "ws \<Rightarrow> ws" where
  "ws_close s = s\<lparr>ws_ready := Closing\<rparr>"

definition initiateConnection :: "ws \<Rightarrow> ws" where
  "initiateConnection s = s\<lparr>ws_connection := ws_connection s + 1, ws_ready := Connecting\<rparr>"

definition clearTimeout :: "nat option \<Rightarrow> ws \<Rightarrow> ws" where
  "clearTimeout i s = s\<lparr>ws_timers := filter (\<lambda>(j, _). Some j \<noteq> i) (ws_timers s)\<rparr>"

definition setTimeout :: "timer \<Rightarrow> ws \<Rightarrow> ws" where
  "setTimeout k s =
     s\<lparr>ws_timers := (ws_nextTimer s, k) # ws_timers s, ws_nextTimer := ws_nextTimer s + 1\<rparr>"

definition stopPing :: "ws \<Rightarrow> ws" where
  "stopPing s = clearTimeout (ws_pingTimeout s) s"

definition stopHb :: "ws \<Rightarrow> ws" where
  "stopHb s = clearTimeout (ws_hbTimeout s) s"

text \<open>A \<^verbatim>\<open>send\<close> that throws is caught, and then no timer is set.\<close>

definition ping :: "ws \<Rightarrow> ws" where
  "ping s =
     (case ws_send ''Ping|'' s of
        Inl _ \<Rightarrow> s
      | Inr s1 \<Rightarrow> (setTimeout PingTimer s1)\<lparr>ws_pingTimeout := Some (ws_nextTimer s1)\<rparr>)"

definition late :: "ws \<Rightarrow> bool" where
  "late s = (case ws_lastPongTime s of None \<Rightarrow> False | Some t \<Rightarrow> t \<noteq> 0 \<and> t + 4000 < ws_clock s)"

definition hb :: "ws \<Rightarrow> segment" where
  "hb s =
     (if late s then (None, [FSet PEmpty, FReconnect], (stopHb s)\<lparr>ws_lastPongTime := None\<rparr>)
      else (None, [], (setTimeout HbTimer s)\<lparr>ws_hbTimeout := Some (ws_nextTimer s)\<rparr>))"

definition pong :: "ws \<Rightarrow> ws" where
  "pong s = s\<lparr>ws_lastPongTime := Some (ws_clock s)\<rparr>"

section \<open>Invocations\<close>

text \<open>The text sent is \<^verbatim>\<open>`${method}|${props}`\<close>: the arguments joined by commas.\<close>

definition oneTimeInvoke :: "patch \<Rightarrow> string \<Rightarrow> jsv list \<Rightarrow> ws \<Rightarrow> segment" where
  "oneTimeInvoke newState method props s =
     (if ws_isConnected (ws_st s) then
        let s1 = s\<lparr>ws_isInvokeInProgress := True\<rparr>
        in case ws_send (method @ ''|'' @ js_to_string (JArr props)) s1 of
             Inl e \<Rightarrow> (Some e, [], s1)
           | Inr s2 \<Rightarrow> (None, [FSet newState, FInvokeEnd], s2)
      else (None, [], s))"

definition retryInvoke :: "bool \<Rightarrow> string \<Rightarrow> patch \<Rightarrow> string \<Rightarrow> jsv list \<Rightarrow> ws \<Rightarrow> segment" where
  "retryInvoke b checkField newState method props s = oneTimeInvoke newState method props s"

definition auth :: "jsv \<Rightarrow> ws \<Rightarrow> segment" where
  "auth token s =
     retryInvoke False ''auth'' PAuth ''Auth''
       [case json_stringify (JObj [(''token'', token)]) of None \<Rightarrow> JUndef | Some t \<Rightarrow> JStr t] s"

definition subscribeDashboard :: "ws \<Rightarrow> segment" where
  "subscribeDashboard s = retryInvoke False ''subscribedDashboard'' PSubDashboard ''SubscribeDashboard'' [] s"

definition unsubscribeDashboard :: "ws \<Rightarrow> segment" where
  "unsubscribeDashboard s =
     retryInvoke True ''subscribedDashboard'' PUnsubDashboard ''UnsubscribeDashboard'' [] s"

definition subscribeBalances :: "ws \<Rightarrow> segment" where
  "subscribeBalances s =
     (if \<not> ws_subscribedBalances (ws_st s)
      then retryInvoke False ''subscribedBalances'' PSubBalances ''SubscribeBalances'' [] s
      else (None, [], s))"

definition unsubscribeBalances :: "ws \<Rightarrow> segment" where
  "unsubscribeBalances s =
     retryInvoke True ''subscribedBalances'' PUnsubBalances ''UnsubscribeBalances'' [] s"

definition subscribeTradeSignals :: "ws \<Rightarrow> segment" where
  "subscribeTradeSignals s =
     retryInvoke False ''subscribedTradeSignals'' PSubSignals ''SubscribeTradeSignals'' [] s"

definition unsubscribeTradeSignals :: "ws \<Rightarrow> segment" where
  "unsubscribeTradeSignals s =
     retryInvoke True ''subscribedTradeSignals'' PUnsubSignals ''UnsubscribeTradeSignals'' [] s"

section \<open>Keyed subscriptions\<close>

definition getSubscribeString :: "jsv list \<Rightarrow> string" where
  "getSubscribeString props =
     (if \<not> list_all is_string props then ''''
      else if \<not> list_all (\<lambda>p. js_to_string p \<noteq> []) props then ''''
      else concat (map (\<lambda>(p, i). js_to_string p @ (if i = length props - 1 then '''' else ''|''))
                     (zip props [0..<length props])))"

text \<open>\<^verbatim>\<open>currentCodes[i]\<close>: \<open>undefined\<close> past the end.\<close>

definition code_at :: "string list \<Rightarrow> int \<Rightarrow> jsv" where
  "code_at codes i = (case at codes i of None \<Rightarrow> JUndef | Some c \<Rightarrow> JStr c)"

definition unsubscribePL :: "ws \<Rightarrow> segment" where
  "unsubscribePL s =
     (let sub = ws_subscribedPL (ws_st s); currentCodes = split_on CHR ''|'' sub
      in if truthy_str sub
         then retryInvoke True ''subscribedPL'' PUnsubPL ''UnsubscribePL''
                [code_at currentCodes 0, code_at currentCodes 1, code_at currentCodes 2,
                 JNum (num_of_int 100)] s
         else (None, [], s))"

definition subscribePL :: "string \<Rightarrow> jsv \<Rightarrow> jsv \<Rightarrow> jsv \<Rightarrow> ws \<Rightarrow> segment" where
  "subscribePL newSubscribed strategyName exchangeName currencyCodePair s =
     (if truthy_str newSubscribed \<and> length newSubscribed \<noteq> 0
      then retryInvoke False ''subscribedPL''
             (PSubPL newSubscribed exchangeName currencyCodePair strategyName) ''SubscribePL''
             [strategyName, currencyCodePair, exchangeName, JNum (num_of_int 100)] s
      else (None, [], s))"

definition updatePLSubscription :: "jsv \<Rightarrow> jsv \<Rightarrow> jsv \<Rightarrow> ws \<Rightarrow> segment" where
  "updatePLSubscription strategyName exchangeName currencyCodePair s =
     (let newSubscribed = getSubscribeString [strategyName, currencyCodePair, exchangeName]
      in if ws_subscribedPL (ws_st s) \<noteq> newSubscribed
         then (case unsubscribePL s of
                 (err, fs, s1) \<Rightarrow>
                   (err, fs @ [FSubscribePL newSubscribed strategyName exchangeName currencyCodePair], s1))
         else (None, [], s))"

definition unsubscribeLiquidity :: "ws \<Rightarrow> segment" where
  "unsubscribeLiquidity s =
     (let sub = ws_subscribedLiquidity (ws_st s); currentCodes = split_on CHR ''|'' sub
      in if truthy_str sub
         then retryInvoke True ''subscribedLiquidity'' PUnsubLiquidity ''UnsubscribeLiquidity''
                [code_at currentCodes 0, code_at currentCodes 1] s
         else (None, [], s))"

definition subscribeLiquidity :: "string \<Rightarrow> jsv \<Rightarrow> jsv \<Rightarrow> ws \<Rightarrow> segment" where
  "subscribeLiquidity newSubscribed exchangeName currencyCodePair s =
     (if truthy_str newSubscribed
      then retryInvoke False ''subscribedLiquidity''
             (PSubLiquidity newSubscribed exchangeName currencyCodePair) ''SubscribeLiquidity''
             [case json_stringify (JObj [(''exchangeId'', exchangeName), (''currencyPair'', currencyCodePair)]) of
                None \<Rightarrow> JUndef | Some t \<Rightarrow> JStr t] s
      else (None, [], s))"

definition updateLiquiditySubscription :: "jsv \<Rightarrow> jsv \<Rightarrow> ws \<Rightarrow> segment" where
  "updateLiquiditySubscription exchangeName currencyCodePair s =
     (let newSubscribed = getSubscribeString [exchangeName, currencyCodePair]
      in if ws_subscribedLiquidity (ws_st s) \<noteq> newSubscribed
         then (case unsubscribeLiquidity s of
                 (err, fs, s1) \<Rightarrow>
                   (err, fs @ [FSubscribeLiquidity newSubscribed exchangeName currencyCodePair], s1))
         else (None, [], s))"

definition unsubscribeVolume :: "ws \<Rightarrow> segment" where
  "unsubscribeVolume s =
     (let sub = ws_subscribedVolume (ws_st s); currentCodes = split_on CHR ''|'' sub
      in if truthy_str sub
         then retryInvoke True ''subscribedVolume'' PUnsubVolume ''UnsubscribeVolume''
                [code_at currentCodes 0, code_at currentCodes 1] s
         else (None, [], s))"

definition subscribeVolume :: "string \<Rightarrow> jsv \<Rightarrow> jsv \<Rightarrow> ws \<Rightarrow> segment" where
  "subscribeVolume newSubscribed exchangeName currencyCodePair s =
     (if truthy_str newSubscribed
      then retryInvoke False ''subscribedVolume''
             (PSubVolume newSubscribed exchangeName currencyCodePair) ''SubscribeVolume''
             [currencyCodePair, exchangeName] s
      else (None, [], s))"

definition updateVolumeSubscription :: "jsv \<Rightarrow> jsv \<Rightarrow> ws \<Rightarrow> segment" where
  "updateVolumeSubscription exchangeName currencyCodePair s =
     (let newSubscribed = getSubscribeString [exchangeName, currencyCodePair]
      in if ws_subscribedVolume (ws_st s) \<noteq> newSubscribed
         then (case unsubscribeVolume s of
                 (err, fs, s1) \<Rightarrow>
                   (err, fs @ [FSubscribeVolume newSubscribed exchangeName currencyCodePair], s1))
         else (None, [], s))"

definition updateState :: "jsv \<Rightarrow> jsv \<Rightarrow> jsv \<Rightarrow> ws \<Rightarrow> segment" where
  "updateState exchangeName currencyPair currencyCodePair s =
     (None, [FSet (PState exchangeName currencyPair currencyCodePair)], s)"

end
