(* ===== verification/Ws_Messages.thy ===== *)
theory Ws_Messages
  imports Ws_Store
begin

text \<open>
  What \<^verbatim>\<open>WsContainer.js\<close> does with the messages and events of its socket: the handlers of the
  server's commands, the router over them, and the callbacks given to the socket. A message is
  text of the form \<open>command|json\<close>.
\<close>

section \<open>Updates from the server\<close>

definition updateVolume :: "jsv \<Rightarrow> ws \<Rightarrow> segment" where
  "updateVolume data s =
     (if truthy_str (ws_subscribedVolume (ws_st s)) then (None, [FSet (PVolume data)], s) else (None, [], s))"

text \<open>A handler that throws while it reads the message leaves no frames and the state as it was.\<close>

definition seg_of :: "frame list res \<Rightarrow> ws \<Rightarrow> segment" where
  "seg_of r s = (case r of Inl e \<Rightarrow> (Some e, [], s) | Inr fs \<Rightarrow> (None, fs, s))"

definition updateIndicators :: "jsv \<Rightarrow> ws \<Rightarrow> segment" where
  "updateIndicators data s =
     (if ws_subscribedDashboard (ws_st s)
      then seg_of (res_bind (get_prop data ''pairIndicators'') (\<lambda>v. Inr [FSet (PIndicators v)])) s
      else (None, [], s))"

text \<open>The reduction \<^verbatim>\<open>(a, b) => a + b.value\<close> from \<open>0\<close>, over whatever \<^verbatim>\<open>value\<close> holds.\<close>

fun sum_values :: "jsv \<Rightarrow> jsv list \<Rightarrow> jsv res" where
  "sum_values acc [] = Inr acc"
| "sum_values acc (b # bs) = res_bind (get_prop b ''value'') (\<lambda>v. sum_values (js_add acc v) bs)"

definition currency_key :: "jsv \<Rightarrow> string res" where
  "currency_key d = res_bind (get_prop d ''currencyCode'') (\<lambda>c. Inr (js_to_string c))"

text \<open>The grouped balances: per currency the list \<^verbatim>\<open>exchanges\<close> and its \<^verbatim>\<open>total\<close>.\<close>

definition group_balances :: "jsv \<Rightarrow> jsv res" where
  "group_balances data =
     res_bind (get_prop data ''balances'') (\<lambda>bs.
     res_bind (elements bs) (\<lambda>items.
     res_bind (res_map currency_key items) (\<lambda>ks.
       let grouped = groupBy fst (zip ks items)
       in res_bind (res_map (\<lambda>(k, g).
              res_bind (sum_values (JNum num_zero) (map snd g)) (\<lambda>t.
                Inr (k, JObj [(''exchanges'', JArr (map snd g)), (''total'', t)]))) grouped)
            (\<lambda>ps. Inr (JObj ps)))))"

definition updateBalances :: "jsv \<Rightarrow> ws \<Rightarrow> segment" where
  "updateBalances data s =
     (if ws_subscribedBalances (ws_st s)
      then seg_of (res_bind (group_balances data) (\<lambda>g. Inr [FSet (PBalances g)])) s
      else (None, [], s))"

definition updateProfitLoss :: "jsv \<Rightarrow> ws \<Rightarrow> segment" where
  "updateProfitLoss data s =
     (if truthy_str (ws_subscribedPL (ws_st s))
      then seg_of (res_bind (get_prop data ''transactions'') (\<lambda>t.
             res_bind (get_prop data ''profits'') (\<lambda>p. Inr [FSet (PProfitLoss t p)]))) s
      else (None, [], s))"

definition updateTradeSignals :: "jsv \<Rightarrow> ws \<Rightarrow> segment" where
  "updateTradeSignals data s =
     (if ws_subscribedTradeSignals (ws_st s)
      then seg_of (res_bind (get_prop data ''signals'') (\<lambda>v. Inr [FSet (PSignals v)])) s
      else (None, [], s))"

text \<open>The two fields of the message are read first; the rest only while subscribed.\<close>

definition updateOrderState :: "jsv \<Rightarrow> ws \<Rightarrow> segment" where
  "updateOrderState data s =
     seg_of (res_bind (get_prop data ''ordersStateAndTransactions'') (\<lambda>o1.
       res_bind (get_prop data ''indicators'') (\<lambda>indicators.
         if \<not> truthy_str (ws_subscribedLiquidity (ws_st s)) then Inr []
         else res_bind (get_prop o1 ''exchangeName'') (\<lambda>x.
           if \<not> strict_eq (ws_exchangeName (ws_st s)) x then Inr []
           else res_bind (get_prop o1 ''currencyCodePair'') (\<lambda>c.
             if strict_eq (ws_currencyCodePair (ws_st s)) c
             then Inr [FSet (POrderState o1), FSet (PCurrencyIndicators indicators)]
             else Inr []))))) s"

section \<open>Authorisation\<close>

text \<open>The flag is cleared in the state object itself, without \<^verbatim>\<open>setState\<close>.\<close>

definition close_and_logout :: "ws \<Rightarrow> ws" where
  "close_and_logout s = (ws_close s)\<lparr>ws_session := logout (ws_session s)\<rparr>"

definition processAuthorized :: "jsv \<Rightarrow> ws \<Rightarrow> segment" where
  "processAuthorized message s =
     (case get_prop message ''value'' of
        Inl e \<Rightarrow> (Some e, [], s)
      | Inr v \<Rightarrow>
          if truthy v then (None, [], s)
          else
            let s1 = s\<lparr>ws_st := (ws_st s)\<lparr>ws_auth := False\<rparr>\<rparr>;
                refreshToken = getItem ''refresh_token'' (ses_storage (ws_session s1))
            in if \<not> truthy refreshToken then (None, [], close_and_logout s1)
               else (None, [], s1\<lparr>ws_waiting := ws_waiting s1 @ [WaitLogin]\<rparr>))"

text \<open>The continuations of the refresh: the login answer, then the client type; the catch.\<close>

definition authorized_login :: "auth_data res \<Rightarrow> ws \<Rightarrow> segment" where
  "authorized_login reply s =
     (case reply of
        Inl e \<Rightarrow> (None, [], close_and_logout s)
      | Inr d \<Rightarrow> (None, [], s\<lparr>ws_waiting := ws_waiting s @ [WaitClientType d]\<rparr>))"

definition authorized_client_type :: "(jsv \<Rightarrow> jsv res) \<Rightarrow> auth_data \<Rightarrow> jsv res \<Rightarrow> ws \<Rightarrow> segment" where
  "authorized_client_type decode d ct s =
     (case res_bind ct (\<lambda>c. get_prop c ''content'') of
        Inl e \<Rightarrow> (None, [], close_and_logout s)
      | Inr content \<Rightarrow>
          (case setToken decode d content (ws_session s) of
             (Some e, ses) \<Rightarrow> (None, [], close_and_logout (s\<lparr>ws_session := ses\<rparr>))
           | (None, ses) \<Rightarrow>
               (case auth (ses_token ses) (s\<lparr>ws_session := ses\<rparr>) of
                  (Some e, fs, s1) \<Rightarrow> (None, [], close_and_logout s1)
                | (None, fs, s1) \<Rightarrow> (None, fs, s1))))"

section \<open>Routing\<close>

definition router :: "string \<Rightarrow> jsv \<Rightarrow> ws \<Rightarrow> segment" where
  "router command message s =
     (if command = ''Authorized'' then processAuthorized message s
      else if command = ''Pong'' then (None, [], pong s)
      else if command = ''UpdateOrdersState'' then updateOrderState message s
      else if command = ''UpdateDashboard'' then updateIndicators message s
      else if command = ''UpdateBalances'' then updateBalances message s
      else if command = ''UpdatePL'' then updateProfitLoss message s
      else if command = ''UpdateTradeSignals'' then updateTradeSignals message s
      else if command = ''UpdateVolume'' then updateVolume message s
      else if command = ''Error'' then
        (case get_prop message ''message'' of
           Inl e \<Rightarrow> (Some e, [], s)
         | Inr t \<Rightarrow> (None, [], s\<lparr>ws_toasts := ws_toasts s @ [t]\<rparr>))
      else (None, [], s))"

text \<open>\<^verbatim>\<open>JSON.parse(undefined)\<close> parses the text \<open>undefined\<close>.\<close>

definition decode_message :: "string \<Rightarrow> (string \<times> jsv) res" where
  "decode_message data =
     (let slices = split_on CHR ''|'' data
      in res_bind (json_parse (case at slices 1 of None \<Rightarrow> ''undefined'' | Some t \<Rightarrow> t))
           (\<lambda>v. Inr (hd slices, v)))"

definition onmessage :: "string \<Rightarrow> ws \<Rightarrow> segment" where
  "onmessage data s =
     (case decode_message data of Inl e \<Rightarrow> (Some e, [], s) | Inr (c, v) \<Rightarrow> router c v s)"

definition onopen :: "ws \<Rightarrow> segment" where
  "onopen s = (None, [FSet PConnected, FOpenAuth, FOpenPing, FOpenHb], s)"

definition onreconnect :: "ws \<Rightarrow> segment" where
  "onreconnect s = (None, [FSet PEmpty], s)"

definition onclose :: "ws \<Rightarrow> segment" where
  "onclose s = (None, [FSet PEmpty], stopPing s)"

definition onerror :: "ws \<Rightarrow> segment" where
  "onerror s =
     (None, [], (stopPing s)\<lparr>ws_toasts := ws_toasts s @ [JStr ''Connection problem'']\<rparr>)"

section \<open>Resuming\<close>

definition open_auth :: "ws \<Rightarrow> segment" where
  "open_auth s = auth (getItem ''auth_token'' (ses_storage (ws_session s))) s"

definition open_ping :: "ws \<Rightarrow> ws" where
  "open_ping s = ping (clearTimeout (ws_pingTimeout s) s)"

definition open_hb :: "ws \<Rightarrow> segment" where
  "open_hb s = hb (clearTimeout (ws_hbTimeout s) s)"

definition hb_reconnect :: "ws \<Rightarrow> ws" where
  "hb_reconnect s = initiateConnection (ws_close s)"

fun run_frame :: "frame \<Rightarrow> ws \<Rightarrow> segment" where
  "run_frame (FSet p) s = (None, [], s\<lparr>ws_st := apply_patch p (ws_st s)\<rparr>)"
| "run_frame FInvokeEnd s = (None, [], s\<lparr>ws_isInvokeInProgress := False\<rparr>)"
| "run_frame (FSubscribePL new st x c) s = subscribePL new st x c s"
| "run_frame (FSubscribeLiquidity new x c) s = subscribeLiquidity new x c s"
| "run_frame (FSubscribeVolume new x c) s = subscribeVolume new x c s"
| "run_frame FOpenAuth s = open_auth s"
| "run_frame FOpenPing s = (None, [], open_ping s)"
| "run_frame FOpenHb s = open_hb s"
| "run_frame FReconnect s = (None, [], hb_reconnect s)"

text \<open>A thread run on its own to its end; a throw drops what is left of it.\<close>

fun frame_size :: "frame \<Rightarrow> nat" where
  "frame_size (FSet _) = 1"
| "frame_size FInvokeEnd = 1"
| "frame_size FReconnect = 1"
| "frame_size FOpenPing = 1"
| "frame_size _ = 3"

lemma oneTimeInvoke_frames:
  "oneTimeInvoke p m as s = (e, fs, t) \<Longrightarrow> fs = [] \<or> fs = [FSet p, FInvokeEnd]"
  by (auto simp: oneTimeInvoke_def Let_def split: if_splits sum.splits)

lemma run_frame_smaller:
  assumes "run_frame f s = (e, fs, t)"
  shows "sum_list (map frame_size fs) < frame_size f"
  using assms
  by (cases f)
    (auto simp: subscribePL_def subscribeLiquidity_def subscribeVolume_def open_auth_def auth_def
      retryInvoke_def open_hb_def hb_def split: if_splits dest!: oneTimeInvoke_frames)

function run_alone :: "frame list \<Rightarrow> ws \<Rightarrow> ws" where
  "run_alone [] s = s"
| "run_alone (f # fs) s =
     (case run_frame f s of (Some e, _, t) \<Rightarrow> t | (None, gs, t) \<Rightarrow> run_alone (gs @ fs) t)"
  by pat_completeness auto
termination
  by (relation "measure (\<lambda>(fs, _). sum_list (map frame_size fs))")
    (auto dest: run_frame_smaller run_frame_smaller [OF sym])

definition run_segment :: "segment \<Rightarrow> ws" where
  "run_segment = (\<lambda>(e, fs, s). if e = None then run_alone fs s else s)"

section \<open>Messages\<close>

lemma decode_plain:
  assumes "CHR ''|'' \<notin> set command" and "CHR ''|'' \<notin> set t"
  shows "decode_message (command @ ''|'' @ t) = res_bind (json_parse t) (\<lambda>v. Inr (command, v))"
  using assms by (simp add: decode_message_def split_on_append_sep split_on_no_sep Let_def at_def)



lemma bar_in_quote: "CHR ''|'' \<in> set (quote_char c) \<longleftrightarrow> c = CHR ''|''"
proof -
  have "CHR ''|'' \<noteq> hex_digit k" if "k < 16" for k
  proof
    assume "CHR ''|'' = hex_digit k"
    moreover have "digit_value CHR ''|'' = 99" by (simp add: digit_value_def)
    ultimately show False using digit_value_hex [OF that] that by simp
  qed
  then show ?thesis by (auto simp: quote_char_def Let_def)
qed

lemma parse_chars_unterminated: "parse_chars (concat (map quote_char a)) = Inl SyntaxError"
proof (induction a)
  case (Cons c a)
  have "hd (quote_char c @ concat (map quote_char a)) \<noteq> CHR 0x22" using quote_char_head [of c] by simp
  with Cons show ?case by (subst parse_chars.simps) (simp add: read_char_quote)
qed (simp add: parse_chars.simps read_char_def)

definition error_prefix :: string where
  "error_prefix = [CHR 0x7B, CHR 0x22] @ ''message'' @ [CHR 0x22, CHR '':'', CHR 0x22]"

lemma error_text:
  "text_of (JObj [(''message'', JStr m)])
     = error_prefix @ concat (map quote_char m) @ [CHR 0x22, CHR 0x7D]"
proof -
  have "text_of (JObj [(''message'', JStr m)])
      = CHR 0x7B # json_quote ''message'' @ '':'' @ json_quote m @ [CHR 0x7D]"
    by (subst text_of_obj)
      (simp_all add: member_text_def text_of_def is_index_key_def digit_value_def)
  moreover have "json_quote ''message'' = [CHR 0x22] @ ''message'' @ [CHR 0x22]" by code_simp
  ultimately show ?thesis by (simp add: error_prefix_def json_quote_def)
qed

lemma parse_error_prefix: "json_parse (error_prefix @ concat (map quote_char a)) = Inl SyntaxError"
proof -
  let ?body = "concat (map quote_char a)"
  have name: "parse_chars (''message'' @ CHR 0x22 # r) = Inr (''message'', r)" for r
    using parse_chars_quote [of "''message''" r] by (simp add: quote_char_def)
  have "parse_value (Suc (Suc (Suc k))) (error_prefix @ ?body) = Inl SyntaxError" for k
    using name [of "CHR '':'' # CHR 0x22 # ?body"] parse_chars_unterminated [of a]
    by (simp add: error_prefix_def skip_space_def after_head)
  moreover obtain k where "2 * length (error_prefix @ ?body) + 2 = Suc (Suc (Suc k))"
    by (simp add: error_prefix_def)
  ultimately show ?thesis by (simp only: json_parse_def res_bind_simps)
qed

text \<open>
  C38: a bar inside the payload cuts it short. An \<^verbatim>\<open>Error\<close> message whose text contains a bar is not
  shown: \<^verbatim>\<open>split\<close> gives the parser only what stands before the bar, which is a syntax error.
\<close>

theorem error_message_with_bar_is_lost:
  assumes "m = a @ ''|'' @ b"
  shows "onmessage (''Error|'' @ text_of (JObj [(''message'', JStr m)])) s = (Some SyntaxError, [], s)"
proof -
  have "CHR ''|'' \<in> set m" using assms by simp
  then obtain a1 b1 where m: "m = a1 @ CHR ''|'' # b1" and a1: "CHR ''|'' \<notin> set a1"
    by (blast dest: split_list_first)
  have bar: "quote_char CHR ''|'' = ''|''" by code_simp
  let ?p = "error_prefix @ concat (map quote_char a1)"
  have p: "CHR ''|'' \<notin> set ?p"
    using a1 by (auto simp: error_prefix_def bar_in_quote)
  obtain r where "text_of (JObj [(''message'', JStr m)]) = ?p @ CHR ''|'' # r"
    by (simp add: error_text m bar)
  then have "split_on CHR ''|'' (''Error|'' @ text_of (JObj [(''message'', JStr m)]))
      = ''Error'' # ?p # split_on CHR ''|'' r"
    using split_on_append_sep [OF p, of r] split_on_append_sep [of "CHR ''|''" "''Error''" "?p @ CHR ''|'' # r"]
    by simp
  then show ?thesis
    by (simp add: onmessage_def decode_message_def at_def parse_error_prefix)
qed

theorem error_message_with_bar_is_lost_witness:
  "\<forall>s0. onmessage (''Error|'' @ text_of (JObj [(''message'', JStr ''a|b'')])) s0 = (Some SyntaxError, [], s0)"
  by (intro allI error_message_with_bar_is_lost [of _ "''a''" "''b''"]) simp

section \<open>Balances\<close>

lemma groupBy_map:
  "groupBy f (map g xs) = map (\<lambda>(k, ys). (k, map g ys)) (groupBy (\<lambda>x. f (g x)) xs)"
proof (induction xs rule: rev_induct)
  case (snoc x xs)
  have upd: "AList.update k (map g ys) (map (\<lambda>(k, ys). (k, map g ys)) c)
      = map (\<lambda>(k, ys). (k, map g ys)) (AList.update k ys c)" for k :: string and ys c
    by (induction c) auto
  have look: "map_of (map (\<lambda>(k, ys). (k, map g ys)) c) k = map_option (map g) (map_of c k)" for c and k :: string
    by (simp add: map_of_map)
  show ?case
    using snoc upd [of _ "_ @ [x]"] upd [of _ "[x]"]
    by (simp add: groupBy_snoc group_add_def look Let_def comp_def split: option.split)
qed simp

lemma sum_values_fold:
  assumes "\<forall>b \<in> set bs. get_prop b ''value'' = Inr (val b)"
  shows "sum_values acc bs = Inr (foldl js_add acc (map val bs))"
  using assms by (induction bs arbitrary: acc) simp_all

lemma res_map_all:
  assumes "\<forall>x \<in> set xs. f x = Inr (g x)"
  shows "res_map f xs = Inr (map g xs)"
  using assms by (induction xs) simp_all

lemma groupBy_members: "(k, ys) \<in> set (groupBy f xs) \<Longrightarrow> set ys \<subseteq> set xs"
proof -
  assume "(k, ys) \<in> set (groupBy f xs)"
  then have "map_of (groupBy f xs) k = Some ys" by simp
  then show ?thesis by (auto simp: groupBy_lookup split: if_splits)
qed

lemma totals_map:
  assumes "\<forall>kg \<in> set c. sum_values (JNum num_zero) (snd kg) = Inr (tot (snd kg))"
  shows "res_map (\<lambda>(k, g). res_bind (sum_values (JNum num_zero) (map snd g)) (\<lambda>t.
        Inr (k, JObj [(''exchanges'', JArr (map snd g)), (''total'', t)])))
      (map (\<lambda>(k, g). (k, map (\<lambda>d. (cur d, d)) g)) c)
    = Inr (map (\<lambda>(k, g). (k, JObj [(''exchanges'', JArr g), (''total'', tot g)])) c)"
  using assms by (induction c) (auto simp: comp_def)

lemma group_balances_eq:
  assumes "\<forall>d \<in> set ds. get_prop d ''currencyCode'' = Inr (JStr (cur d)) \<and> get_prop d ''value'' = Inr (val d)"
  shows "group_balances (JObj [(''balances'', JArr ds)]) =
    Inr (JObj (map (\<lambda>(k, g). (k, JObj [(''exchanges'', JArr g),
        (''total'', foldl js_add (JNum num_zero) (map val g))])) (groupBy cur ds)))"
proof -
  have keys: "res_map currency_key ds = Inr (map cur ds)"
    using assms by (intro res_map_all) (simp add: currency_key_def)
  have "zip (map cur ds) ds = map (\<lambda>d. (cur d, d)) ds" by (induction ds) simp_all
  then have grouped: "groupBy fst (zip (map cur ds) ds)
      = map (\<lambda>(k, g). (k, map (\<lambda>d. (cur d, d)) g)) (groupBy cur ds)"
    by (simp add: groupBy_map)
  have "\<forall>kg \<in> set (groupBy cur ds).
      sum_values (JNum num_zero) (snd kg) = Inr (foldl js_add (JNum num_zero) (map val (snd kg)))"
  proof
    fix kg
    assume "kg \<in> set (groupBy cur ds)"
    then have "set (snd kg) \<subseteq> set ds" by (metis groupBy_members prod.collapse)
    with assms show "sum_values (JNum num_zero) (snd kg) = Inr (foldl js_add (JNum num_zero) (map val (snd kg)))"
      by (intro sum_values_fold) blast
  qed
  from totals_map [OF this, of cur] keys grouped show ?thesis
    by (simp add: group_balances_def Let_def)
qed


lemma num_zero_text: "num_to_string num_zero = ''0''"
  by code_simp

lemma foldl_add_strings: "foldl js_add (JStr a) (map JStr ws) = JStr (a @ concat ws)"
  by (induction ws arbitrary: a) simp_all

definition balance_item :: "string \<Rightarrow> string \<times> string \<Rightarrow> jsv" where
  "balance_item c xv =
     JObj [(''exchangeId'', JStr (fst xv)), (''currencyCode'', JStr c), (''value'', JStr (snd xv))]"

lemma groupBy_constant: "xs \<noteq> [] \<Longrightarrow> groupBy (\<lambda>_. c) xs = [(c, xs)]"
proof (induction xs rule: rev_induct)
  case (snoc x xs)
  then show ?case
    using groupBy_snoc [of "\<lambda>_. c" "[]" x] by (cases "xs = []") (simp_all add: groupBy_snoc group_add_def)
qed simp

lemma foldl_balance_items:
  assumes "xvs \<noteq> []"
  shows "foldl js_add (JNum num_zero) (map JStr (map snd xvs)) = JStr (''0'' @ concat (map snd xvs))"
  using assms
proof (cases xvs)
  case (Cons xv ys)
  have "js_add (JNum num_zero) (JStr (snd xv)) = JStr (''0'' @ snd xv)"
    by (simp add: js_add_string_right num_zero_text)
  then show ?thesis using Cons foldl_add_strings [of "''0'' @ snd xv" "map snd ys"] by simp
qed simp

text \<open>
  Totals of decimal strings are not sums. The server writes decimals as strings, and for a
  currency held on several exchanges the total is the text \<open>0\<close> followed by all the amounts.
\<close>

theorem balance_totals_concatenate:
  assumes "xvs \<noteq> []"
  shows "group_balances (JObj [(''balances'', JArr (map (balance_item c) xvs))]) =
    Inr (JObj [(c, JObj [(''exchanges'', JArr (map (balance_item c) xvs)),
      (''total'', JStr (''0'' @ concat (map snd xvs)))])])"
proof -
  define val where "val d = (case get_prop d ''value'' of Inr v \<Rightarrow> v | Inl _ \<Rightarrow> JUndef)" for d
  have item: "val (balance_item c xv) = JStr (snd xv)" for xv
    by (simp add: val_def balance_item_def)
  have "\<forall>d \<in> set (map (balance_item c) xvs).
      get_prop d ''currencyCode'' = Inr (JStr c) \<and> get_prop d ''value'' = Inr (val d)"
    by (auto simp: val_def balance_item_def)
  from group_balances_eq [OF this] show ?thesis
    using assms foldl_balance_items [OF assms]
    by (simp add: groupBy_constant comp_def item)
qed

theorem balance_totals_concatenate_witness:
  "group_balances (JObj [(''balances'', JArr (map (balance_item ''BTC'') [(''Binance'', ''1.5''), (''Bitmex'', ''2'')]))])
    = Inr (JObj [(''BTC'', JObj [(''exchanges'',
        JArr (map (balance_item ''BTC'') [(''Binance'', ''1.5''), (''Bitmex'', ''2'')])), (''total'', JStr ''01.52'')])])"
  using balance_totals_concatenate [of "[(''Binance'', ''1.5''), (''Bitmex'', ''2'')]" "''BTC''"] by simp


end
