(* ===== verification/Ws_Channels.thy ===== *)
theory Ws_Channels
  imports Ws_Messages
begin

text \<open>
  The three subscriptions of \<^verbatim>\<open>WsContainer.js\<close> that have a key (profit and loss, liquidity, volume)
  follow one protocol: leave the current key, then join the new one. The protocol is stated and
  followed once, over an interface, and the three sets of methods are instances of it. The key is
  the text of \<^verbatim>\<open>getSubscribeString\<close>, which splits back into its parts.
\<close>

section \<open>Keys\<close>

lemma concat_sep_join:
  "concat (map (\<lambda>(p, i). f p @ (if i = n + length ps - 1 then [] else [c])) (zip ps [n..<n + length ps]))
     = join_with [c] (map f ps)"
proof (induction ps arbitrary: n)
  case (Cons p ps)
  have "[n..<n + length (p # ps)] = n # [Suc n..<Suc n + length ps]" by (simp add: upt_rec)
  then show ?case
    using Cons [of "Suc n"] by (cases ps) (simp_all add: join_with_Cons)
qed simp

lemma getSubscribeString_join:
  assumes "\<forall>w \<in> set ws. w \<noteq> []"
  shows "getSubscribeString (map JStr ws) = join_with ''|'' ws"
  using assms concat_sep_join [of js_to_string 0 "map JStr ws" "CHR ''|''"]
  by (simp add: getSubscribeString_def list_all_iff comp_def)

lemma getSubscribeString_split:
  assumes "ws \<noteq> []" and "\<forall>w \<in> set ws. w \<noteq> [] \<and> CHR ''|'' \<notin> set w"
  shows "split_on CHR ''|'' (getSubscribeString (map JStr ws)) = ws"
  using assms by (simp add: getSubscribeString_join split_on_join)

text \<open>
  The text a subscription is remembered by splits back into the codes it was made of, for
  non-empty codes without a bar, so the unsubscription names what was subscribed.
\<close>

theorem getSubscribeString_round_trip:
  assumes "ws \<noteq> []" and "\<forall>w \<in> set ws. w \<noteq> [] \<and> CHR ''|'' \<notin> set w"
  shows "split_on CHR ''|'' (getSubscribeString (map JStr ws)) = ws"
  using assms by (rule getSubscribeString_split)

section \<open>The protocol\<close>

definition invoke_text :: "string \<Rightarrow> jsv list \<Rightarrow> string" where
  "invoke_text method props = method @ ''|'' @ js_to_string (JArr props)"

text \<open>An invocation that ran to its end on an open connection.\<close>

definition invoked :: "patch \<Rightarrow> string \<Rightarrow> ws \<Rightarrow> ws" where
  "invoked p t s =
     s\<lparr>ws_sent := ws_sent s @ [t], ws_st := apply_patch p (ws_st s), ws_isInvokeInProgress := False\<rparr>"

definition live :: "ws \<Rightarrow> bool" where
  "live s \<longleftrightarrow> ws_isConnected (ws_st s) \<and> ws_ready s = Open"

lemma oneTimeInvoke_live:
  assumes "live s"
  shows "oneTimeInvoke p m as s =
    (None, [FSet p, FInvokeEnd], s\<lparr>ws_isInvokeInProgress := True, ws_sent := ws_sent s @ [invoke_text m as]\<rparr>)"
  using assms by (simp add: oneTimeInvoke_def live_def ws_send_def invoke_text_def)

lemma run_invocation:
  assumes "live s" and "oneTimeInvoke p m as s = (e, gs, t)"
  shows "e = None" and "run_alone (gs @ fs) t = run_alone fs (invoked p (invoke_text m as) s)"
  using assms by (auto simp: oneTimeInvoke_live invoked_def)

locale keyed_channel =
  fixes current :: "ws_state \<Rightarrow> string"
    and unsub :: "ws \<Rightarrow> segment"
    and sub :: "string \<Rightarrow> 'a \<Rightarrow> ws \<Rightarrow> segment"
    and update :: "'a \<Rightarrow> ws \<Rightarrow> segment"
    and rest :: "string \<Rightarrow> 'a \<Rightarrow> frame"
    and key :: "'a \<Rightarrow> string"
    and leave :: patch and leave_method :: string and leave_args :: "string \<Rightarrow> jsv list"
    and join :: "string \<Rightarrow> 'a \<Rightarrow> patch" and join_method :: string and join_args :: "'a \<Rightarrow> jsv list"
  assumes update_step: "update a s =
      (if current (ws_st s) \<noteq> key a
       then (case unsub s of (e, fs, t) \<Rightarrow> (e, fs @ [rest (key a) a], t)) else (None, [], s))"
    and unsub_step: "unsub s =
      (if current (ws_st s) \<noteq> []
       then oneTimeInvoke leave leave_method (leave_args (current (ws_st s))) s else (None, [], s))"
    and sub_step: "sub k a s =
      (if k \<noteq> [] then oneTimeInvoke (join k a) join_method (join_args a) s else (None, [], s))"
    and rest_step: "run_frame (rest k a) s = sub k a s"
    and leave_current: "current (apply_patch leave st) = []"
    and join_current: "current (apply_patch (join k a) st) = k"
    and keeps_connection: "ws_isConnected (apply_patch leave st) = ws_isConnected st"
      "ws_isConnected (apply_patch (join k a) st) = ws_isConnected st"
begin

definition left :: "ws \<Rightarrow> ws" where
  "left s = (if current (ws_st s) \<noteq> []
     then invoked leave (invoke_text leave_method (leave_args (current (ws_st s)))) s else s)"

definition joined :: "'a \<Rightarrow> ws \<Rightarrow> ws" where
  "joined a s = (if key a \<noteq> [] then invoked (join (key a) a) (invoke_text join_method (join_args a)) s else s)"

lemma live_left: "live s \<Longrightarrow> live (left s)"
  by (simp add: left_def live_def invoked_def keeps_connection)

lemma current_left: "current (ws_st (left s)) = []"
  by (simp add: left_def invoked_def leave_current)

lemma run_join:
  assumes "live s"
  shows "run_alone [rest (key a) a] s = joined a s"
proof (cases "key a = []")
  case True
  then show ?thesis by (simp add: rest_step sub_step joined_def)
next
  case False
  obtain e gs t where o: "oneTimeInvoke (join (key a) a) join_method (join_args a) s = (e, gs, t)"
    by (metis prod_cases3)
  from run_invocation(1) [OF assms o] run_invocation(2) [OF assms o, of "[]"] False o show ?thesis
    by (simp add: rest_step sub_step joined_def)
qed

lemma switch:
  assumes "live s"
  shows "run_segment (update a s) = (if current (ws_st s) = key a then s else joined a (left s))"
proof (cases "current (ws_st s) = key a")
  case True
  then show ?thesis by (simp add: update_step run_segment_def)
next
  case False
  show ?thesis
  proof (cases "current (ws_st s) = []")
    case True
    with False run_join [OF assms, of a] show ?thesis
      by (simp add: update_step unsub_step run_segment_def left_def)
  next
    case cur: False
    obtain e gs t where o: "oneTimeInvoke leave leave_method (leave_args (current (ws_st s))) s = (e, gs, t)"
      by (metis prod_cases3)
    from run_invocation(1) [OF assms o] run_invocation(2) [OF assms o, of "[rest (key a) a]"] False cur o
      run_join [OF live_left [OF assms], of a]
    show ?thesis by (simp add: update_step unsub_step run_segment_def left_def)
  qed
qed

lemma switch_current:
  assumes "live s"
  shows "current (ws_st (run_segment (update a s))) = key a"
  using switch [OF assms, of a] current_left [of s]
  by (auto simp: joined_def invoked_def join_current)

lemma switch_sent:
  assumes "live s"
  shows "ws_sent (run_segment (update a s)) = ws_sent s
    @ (if current (ws_st s) = key a then []
       else (if current (ws_st s) \<noteq> []
             then [invoke_text leave_method (leave_args (current (ws_st s)))] else [])
         @ (if key a \<noteq> [] then [invoke_text join_method (join_args a)] else []))"
  using switch [OF assms, of a] by (simp add: joined_def left_def invoked_def)

lemma switch_again:
  assumes "live s"
  shows "update a (run_segment (update a s)) = (None, [], run_segment (update a s))"
  by (simp add: update_step [of a "run_segment (update a s)"] switch_current [OF assms])

end

section \<open>The three channels\<close>

definition pl_key :: "jsv \<times> jsv \<times> jsv \<Rightarrow> string" where
  "pl_key = (\<lambda>(st, x, c). getSubscribeString [st, c, x])"

definition pair_key :: "jsv \<times> jsv \<Rightarrow> string" where
  "pair_key = (\<lambda>(x, c). getSubscribeString [x, c])"

definition codes_of :: "string \<Rightarrow> jsv list" where
  "codes_of sub = (let cs = split_on CHR ''|'' sub in [code_at cs 0, code_at cs 1])"

interpretation pl: keyed_channel ws_subscribedPL unsubscribePL
  "\<lambda>k (st, x, c). subscribePL k st x c" "\<lambda>(st, x, c). updatePLSubscription st x c"
  "\<lambda>k (st, x, c). FSubscribePL k st x c" pl_key
  PUnsubPL "''UnsubscribePL''"
  "\<lambda>sub. (let cs = split_on CHR ''|'' sub in [code_at cs 0, code_at cs 1, code_at cs 2, JNum (num_of_int 100)])"
  "\<lambda>k (st, x, c). PSubPL k x c st" "''SubscribePL''" "\<lambda>(st, x, c). [st, c, x, JNum (num_of_int 100)]"
  by unfold_locales
    (auto simp: updatePLSubscription_def unsubscribePL_def subscribePL_def retryInvoke_def pl_key_def Let_def)

interpretation liquidity: keyed_channel ws_subscribedLiquidity unsubscribeLiquidity
  "\<lambda>k (x, c). subscribeLiquidity k x c" "\<lambda>(x, c). updateLiquiditySubscription x c"
  "\<lambda>k (x, c). FSubscribeLiquidity k x c" pair_key
  PUnsubLiquidity "''UnsubscribeLiquidity''" codes_of
  "\<lambda>k (x, c). PSubLiquidity k x c" "''SubscribeLiquidity''"
  "\<lambda>(x, c). [case json_stringify (JObj [(''exchangeId'', x), (''currencyPair'', c)]) of
      None \<Rightarrow> JUndef | Some t \<Rightarrow> JStr t]"
  by unfold_locales
    (auto simp: updateLiquiditySubscription_def unsubscribeLiquidity_def subscribeLiquidity_def
      retryInvoke_def pair_key_def codes_of_def Let_def)

interpretation volume: keyed_channel ws_subscribedVolume unsubscribeVolume
  "\<lambda>k (x, c). subscribeVolume k x c" "\<lambda>(x, c). updateVolumeSubscription x c"
  "\<lambda>k (x, c). FSubscribeVolume k x c" pair_key
  PUnsubVolume "''UnsubscribeVolume''" codes_of
  "\<lambda>k (x, c). PSubVolume k x c" "''SubscribeVolume''" "\<lambda>(x, c). [c, x]"
  by unfold_locales
    (auto simp: updateVolumeSubscription_def unsubscribeVolume_def subscribeVolume_def
      retryInvoke_def pair_key_def codes_of_def Let_def)

section \<open>Properties\<close>

definition liquidity_join_text :: "string \<Rightarrow> string \<Rightarrow> string" where
  "liquidity_join_text x c = ''SubscribeLiquidity|'' @
     text_of (JObj [(''exchangeId'', JStr x), (''currencyPair'', JStr c)])"

lemma codes_of_pair:
  assumes "x \<noteq> []" "c \<noteq> []" "CHR ''|'' \<notin> set x" "CHR ''|'' \<notin> set c"
  shows "codes_of (getSubscribeString [JStr x, JStr c]) = [JStr x, JStr c]"
    and "getSubscribeString [JStr x, JStr c] = x @ ''|'' @ c"
  using assms getSubscribeString_split [of "[x, c]"] getSubscribeString_join [of "[x, c]"]
  by (simp_all add: codes_of_def code_at_def at_def)

text \<open>
  Changing the order book that is watched. On a live connection subscribed to \<open>x0\<close>, \<open>c0\<close>, an
  update to another pair sends exactly the unsubscription of the old pair and then the
  subscription of the new one, and ends subscribed to the new pair with the old order book gone.
\<close>

theorem updateLiquiditySubscription_switches:
  assumes "live s" and "list_all (\<lambda>w. w \<noteq> [] \<and> CHR ''|'' \<notin> set w) [x0, c0, x, c]"
    and "ws_subscribedLiquidity (ws_st s) = getSubscribeString [JStr x0, JStr c0]"
    and "(x, c) \<noteq> (x0, c0)"
    and "t = run_segment (updateLiquiditySubscription (JStr x) (JStr c) s)"
  shows "ws_sent t = ws_sent s @ [''UnsubscribeLiquidity|'' @ x0 @ '','' @ c0, liquidity_join_text x c]
    \<and> ws_subscribedLiquidity (ws_st t) = x @ ''|'' @ c \<and> ws_orderState (ws_st t) = JNull
    \<and> ws_exchangeName (ws_st t) = JStr x \<and> ws_currencyCodePair (ws_st t) = JStr c \<and> live t"
proof -
  have keys: "getSubscribeString [JStr x0, JStr c0] = x0 @ ''|'' @ c0"
    "pair_key (JStr x, JStr c) = x @ ''|'' @ c"
    "codes_of (x0 @ ''|'' @ c0) = [JStr x0, JStr c0]"
    using assms(2) codes_of_pair [of x0 c0] codes_of_pair [of x c] by (auto simp: pair_key_def)
  have "x0 @ ''|'' @ c0 \<noteq> x @ ''|'' @ c"
    using assms(2,4) split_on_append_sep [of "CHR ''|''" x0 c0] split_on_append_sep [of "CHR ''|''" x c]
    by (auto simp: split_on_no_sep)
  moreover have "json_stringify (JObj [(''exchangeId'', JStr x), (''currencyPair'', JStr c)])
      = Some (text_of (JObj [(''exchangeId'', JStr x), (''currencyPair'', JStr c)]))"
    by (simp add: text_of_def Let_def)
  ultimately show ?thesis
    using liquidity.switch [OF assms(1), of "(JStr x, JStr c)"] assms(1,3,5) keys
    by (simp add: liquidity.joined_def liquidity.left_def invoked_def invoke_text_def
        liquidity_join_text_def live_def del: json_stringify.simps)
qed

text \<open>
  Updating a subscription is idempotent. On a live connection, after \<^verbatim>\<open>updatePLSubscription\<close>,
  \<^verbatim>\<open>updateLiquiditySubscription\<close> or \<^verbatim>\<open>updateVolumeSubscription\<close> ran to its end, the same call again
  sends nothing and changes nothing.
\<close>

theorem update_subscription_idempotent:
  assumes "live s"
  shows "updatePLSubscription st x c (run_segment (updatePLSubscription st x c s))
      = (None, [], run_segment (updatePLSubscription st x c s))
    \<and> updateLiquiditySubscription x c (run_segment (updateLiquiditySubscription x c s))
      = (None, [], run_segment (updateLiquiditySubscription x c s))
    \<and> updateVolumeSubscription x c (run_segment (updateVolumeSubscription x c s))
      = (None, [], run_segment (updateVolumeSubscription x c s))"
  using pl.switch_again [OF assms, of "(st, x, c)"] liquidity.switch_again [OF assms, of "(x, c)"]
    volume.switch_again [OF assms, of "(x, c)"]
  by simp

text \<open>A live connection to start from.\<close>

definition demo_ws :: ws where
  "demo_ws = \<lparr>ws_st = emptyState\<lparr>ws_isConnected := True\<rparr>, ws_isInvokeInProgress = False,
     ws_ready = Open, ws_connection = 1, ws_sent = [], ws_timers = [], ws_nextTimer = 0,
     ws_pingTimeout = None, ws_hbTimeout = None, ws_lastPongTime = None, ws_clock = 1000,
     ws_session = page_load Map.empty ''/'', ws_waiting = [], ws_toasts = []\<rparr>"

lemma live_demo_ws: "live demo_ws"
  by (simp add: live_def demo_ws_def)

theorem updateLiquiditySubscription_switches_witness:
  "ws_sent (run_segment (updateLiquiditySubscription (JStr ''Bitmex'') (JStr ''XBT/USD'')
      (run_segment (updateLiquiditySubscription (JStr ''Binance'') (JStr ''BTC/USDT'') demo_ws))))
    = [liquidity_join_text ''Binance'' ''BTC/USDT'', ''UnsubscribeLiquidity|Binance,BTC/USDT'',
       liquidity_join_text ''Bitmex'' ''XBT/USD'']"
proof -
  let ?s = "run_segment (updateLiquiditySubscription (JStr ''Binance'') (JStr ''BTC/USDT'') demo_ws)"
  have "live ?s \<and> ws_subscribedLiquidity (ws_st ?s) = getSubscribeString [JStr ''Binance'', JStr ''BTC/USDT'']
      \<and> ws_sent ?s = [liquidity_join_text ''Binance'' ''BTC/USDT'']"
    unfolding live_def by code_simp
  with updateLiquiditySubscription_switches
    [of ?s "''Binance''" "''BTC/USDT''" "''Bitmex''" "''XBT/USD''", OF _ _ _ _ refl]
  show ?thesis by simp
qed

section \<open>What the server makes of it\<close>

text \<open>
  The specification of the channel is the session of the server
  (\<^verbatim>\<open>visualization/api/src/ws/actors/ws_client_session.rs\<close>), seen from its order books: it splits a
  text at the first bar, keeps the last order book that was subscribed and the set of those it
  serves, and a body it cannot read stops it. Its other commands do not touch the order books.
\<close>

record server =
  sv_subscribed :: "(string \<times> string) option"
  sv_subscriptions :: "(string \<times> string) set"
  sv_stopped :: bool

definition server_new :: server where
  "server_new = \<lparr>sv_subscribed = None, sv_subscriptions = {}, sv_stopped = False\<rparr>"

definition liquidity_subscription :: "string \<Rightarrow> (string \<times> string) option" where
  "liquidity_subscription body =
     (case json_parse body of
        Inr (JObj ps) \<Rightarrow>
          (case (map_of ps ''exchangeId'', map_of ps ''currencyPair'') of
             (Some (JStr x), Some (JStr c)) \<Rightarrow> Some (x, c)
           | _ \<Rightarrow> None)
      | _ \<Rightarrow> None)"

definition server_reads :: "string \<Rightarrow> server \<Rightarrow> server" where
  "server_reads t v =
     (let command = takeWhile (\<lambda>c. c \<noteq> CHR ''|'') t; body = drop (Suc (length command)) t
      in if command = ''SubscribeLiquidity'' then
           (case liquidity_subscription body of
              Some sub \<Rightarrow> v\<lparr>sv_subscriptions := insert sub (sv_subscriptions v), sv_subscribed := Some sub\<rparr>
            | None \<Rightarrow> v\<lparr>sv_stopped := True\<rparr>)
         else if command = ''UnsubscribeLiquidity'' then
           (case sv_subscribed v of
              None \<Rightarrow> v
            | Some sub \<Rightarrow> v\<lparr>sv_subscriptions := sv_subscriptions v - {sub}, sv_subscribed := None\<rparr>)
         else v)"

definition server_view :: "string list \<Rightarrow> server" where
  "server_view ts = fold server_reads ts server_new"

text \<open>The order book the container believes it watches.\<close>

definition watched :: "ws_state \<Rightarrow> (string \<times> string) option" where
  "watched st =
     (case split_on CHR ''|'' (ws_subscribedLiquidity st) of
        [x, c] \<Rightarrow> Some (x, c)
      | _ \<Rightarrow> None)"

definition server_agrees :: "ws \<Rightarrow> bool" where
  "server_agrees s \<longleftrightarrow>
     server_view (ws_sent s) =
       \<lparr>sv_subscribed = watched (ws_st s), sv_subscriptions = set_option (watched (ws_st s)), sv_stopped = False\<rparr>"

lemma server_view_append: "server_view (ts @ us) = fold server_reads us (server_view ts)"
  by (simp add: server_view_def)

lemma server_reads_join:
  "server_reads (liquidity_join_text x c) v
     = v\<lparr>sv_subscriptions := insert (x, c) (sv_subscriptions v), sv_subscribed := Some (x, c)\<rparr>"
proof -
  let ?o = "JObj [(''exchangeId'', JStr x), (''currencyPair'', JStr c)]"
  have plain: "json_plain ?o" by (simp add: is_index_key_def digit_value_def)
  have "json_parse (text_of ?o) = Inr ?o" using json_round_trip [OF plain text_of_Some [OF plain]] .
  then have "liquidity_subscription (text_of ?o) = Some (x, c)" by (simp add: liquidity_subscription_def)
  then show ?thesis by (simp add: server_reads_def liquidity_join_text_def)
qed

lemma server_reads_leave:
  "server_reads (''UnsubscribeLiquidity|'' @ t) v
     = (case sv_subscribed v of None \<Rightarrow> v
        | Some sub \<Rightarrow> v\<lparr>sv_subscriptions := sv_subscriptions v - {sub}, sv_subscribed := None\<rparr>)"
  by (simp add: server_reads_def)

text \<open>
  C3: the container implements the subscription it promises. If the server serves exactly the order
  book the container believes it watches, then after \<^verbatim>\<open>updateLiquiditySubscription\<close> or
  \<^verbatim>\<open>unsubscribeLiquidity\<close> ran to its end on a live connection it does so again: the server has
  read the new pair, or none, and no subscription of an earlier pair is left behind.
\<close>

theorem liquidity_channel_refines_server:
  assumes "live s" and "server_agrees s"
    and "ws_subscribedLiquidity (ws_st s) = [] \<or> watched (ws_st s) \<noteq> None"
    and "list_all (\<lambda>w. w \<noteq> [] \<and> CHR ''|'' \<notin> set w) [x, c]"
    and t: "t = run_segment (updateLiquiditySubscription (JStr x) (JStr c) s)"
    and u: "u = run_segment (unsubscribeLiquidity s)"
  shows "server_agrees t \<and> watched (ws_st t) = Some (x, c) \<and> server_agrees u \<and> watched (ws_st u) = None"
proof -
  let ?cur = "ws_subscribedLiquidity (ws_st s)"
  have key: "pair_key (JStr x, JStr c) = x @ ''|'' @ c" and ne: "x @ ''|'' @ c \<noteq> []"
    using assms(4) codes_of_pair [of x c] by (auto simp: pair_key_def)
  have split: "split_on CHR ''|'' (x @ CHR ''|'' # c) = [x, c]"
    using assms(4) split_on_append_sep [of "CHR ''|''" x c] by (simp add: split_on_no_sep)
  have json: "json_stringify (JObj [(''exchangeId'', JStr x), (''currencyPair'', JStr c)])
      = Some (text_of (JObj [(''exchangeId'', JStr x), (''currencyPair'', JStr c)]))"
    by (simp add: text_of_def Let_def)
  have tc: "ws_subscribedLiquidity (ws_st t) = x @ ''|'' @ c"
    using liquidity.switch_current [OF assms(1), of "(JStr x, JStr c)"] key t by simp
  then have wt: "watched (ws_st t) = Some (x, c)" by (simp add: watched_def split)
  have sent: "ws_sent t = ws_sent s @ (if ?cur = x @ ''|'' @ c then [] else
      (if ?cur \<noteq> [] then [''UnsubscribeLiquidity|'' @ js_to_string (JArr (codes_of ?cur))] else [])
      @ [liquidity_join_text x c])"
    using liquidity.switch_sent [OF assms(1), of "(JStr x, JStr c)"] key ne t json
    by (simp add: invoke_text_def liquidity_join_text_def del: json_stringify.simps)
  have left: "sv_subscribed (server_reads (''UnsubscribeLiquidity|'' @ a) (server_view (ws_sent s))) = None"
      "sv_subscriptions (server_reads (''UnsubscribeLiquidity|'' @ a) (server_view (ws_sent s))) = {}"
      "sv_stopped (server_reads (''UnsubscribeLiquidity|'' @ a) (server_view (ws_sent s))) = False" for a
    using assms(2) unfolding server_agrees_def server_reads_leave by (auto split: option.split)
  have none: "watched (ws_st s) = None" if "?cur = []" using that by (simp add: watched_def)
  have "server_agrees t"
  proof (cases "?cur = x @ ''|'' @ c")
    case True
    then have "watched (ws_st s) = Some (x, c)" by (simp add: watched_def split)
    with True wt sent assms(2) show ?thesis by (simp add: server_agrees_def)
  next
    case False
    with wt sent left none assms(2) show ?thesis
      by (cases "?cur = []") (simp_all add: server_agrees_def server_view_append server_reads_join)
  qed
  moreover have "server_agrees u \<and> watched (ws_st u) = None"
  proof (cases "?cur = []")
    case True
    then have "u = s" using u by (simp add: unsubscribeLiquidity_def run_segment_def)
    with assms(2) none [OF True] show ?thesis by simp
  next
    case False
    then have "u = invoked PUnsubLiquidity (''UnsubscribeLiquidity|'' @ js_to_string (JArr (codes_of ?cur))) s"
      using u run_invocation(2) [OF assms(1), of PUnsubLiquidity "''UnsubscribeLiquidity''" "codes_of ?cur" _ _ _ "[]"]
      by (simp add: liquidity.unsub_step oneTimeInvoke_live [OF assms(1)] run_segment_def invoke_text_def invoked_def)
    then have "ws_sent u = ws_sent s @ [''UnsubscribeLiquidity|'' @ js_to_string (JArr (codes_of ?cur))]"
      "ws_subscribedLiquidity (ws_st u) = []"
      by (simp_all add: invoked_def)
    with left show ?thesis by (simp add: server_agrees_def server_view_append watched_def)
  qed
  ultimately show ?thesis using wt by simp
qed

theorem liquidity_channel_refines_server_witness:
  "server_agrees (run_segment (updateLiquiditySubscription (JStr ''Binance'') (JStr ''BTC/USDT'') demo_ws))"
proof -
  have "server_agrees demo_ws"
    by (simp add: server_agrees_def demo_ws_def server_view_def server_new_def watched_def emptyState_def)
  from liquidity_channel_refines_server [OF live_demo_ws this _ _ refl refl, of "''Binance''" "''BTC/USDT''"]
  show ?thesis by (simp add: demo_ws_def emptyState_def)
qed

text \<open>
  The volume channel is left under another name than it was entered with. The subscription sends the
  pair and then the exchange, the unsubscription the exchange and then the pair.
\<close>

theorem volume_leaves_in_other_order:
  assumes "live s" and "list_all (\<lambda>w. w \<noteq> [] \<and> CHR ''|'' \<notin> set w) [x, c]"
    and "ws_subscribedVolume (ws_st s) = []"
    and t: "t = run_segment (updateVolumeSubscription (JStr x) (JStr c) s)"
  shows "ws_sent (run_segment (unsubscribeVolume t))
    = ws_sent s @ [''SubscribeVolume|'' @ c @ '','' @ x, ''UnsubscribeVolume|'' @ x @ '','' @ c]"
proof -
  have key: "pair_key (JStr x, JStr c) = x @ ''|'' @ c" and ne: "x @ ''|'' @ c \<noteq> []"
    and codes: "codes_of (x @ ''|'' @ c) = [JStr x, JStr c]"
    using assms(2) codes_of_pair [of x c] by (auto simp: pair_key_def)
  have cur: "ws_subscribedVolume (ws_st t) = x @ ''|'' @ c"
    using volume.switch_current [OF assms(1), of "(JStr x, JStr c)"] key t by simp
  have sent: "ws_sent t = ws_sent s @ [''SubscribeVolume|'' @ c @ '','' @ x]"
    using volume.switch_sent [OF assms(1), of "(JStr x, JStr c)"] key t assms(3)
    by (simp add: invoke_text_def)
  have lv: "live t"
    using volume.switch [OF assms(1), of "(JStr x, JStr c)"] assms(1,3) key t
    by (simp add: volume.joined_def volume.left_def invoked_def live_def)
  show ?thesis
    using cur sent codes by (simp add: volume.unsub_step oneTimeInvoke_live [OF lv] run_segment_def invoke_text_def)
qed

end
