(* ===== verification/Ws_Loop.thy ===== *)
theory Ws_Loop
  imports Ws_Channels
begin

text \<open>
  \<^verbatim>\<open>WsContainer.js\<close> under the event loop. A task (a socket event, a timer, an answer to a request, a
  call from the page) starts when every method in progress has run to its end; the methods it
  starts are threads of frames, resumed in any order. When a state update is applied the page
  renders at once and may call the container, so calls can start between any two frames.
\<close>

section \<open>Calls and tasks\<close>

datatype op =
    SubscribeDashboard | UnsubscribeDashboard | SubscribeBalances | UnsubscribeBalances
  | SubscribeTradeSignals | UnsubscribeTradeSignals | UnsubscribePL | UpdatePL jsv jsv jsv
  | UnsubscribeLiquidity | UpdateLiquidity jsv jsv | UnsubscribeVolume | UpdateVolume jsv jsv
  | UpdateState jsv jsv jsv

fun call_op :: "op \<Rightarrow> ws \<Rightarrow> segment" where
  "call_op SubscribeDashboard s = subscribeDashboard s"
| "call_op UnsubscribeDashboard s = unsubscribeDashboard s"
| "call_op SubscribeBalances s = subscribeBalances s"
| "call_op UnsubscribeBalances s = unsubscribeBalances s"
| "call_op SubscribeTradeSignals s = subscribeTradeSignals s"
| "call_op UnsubscribeTradeSignals s = unsubscribeTradeSignals s"
| "call_op UnsubscribePL s = unsubscribePL s"
| "call_op (UpdatePL st x c) s = updatePLSubscription st x c s"
| "call_op UnsubscribeLiquidity s = unsubscribeLiquidity s"
| "call_op (UpdateLiquidity x c) s = updateLiquiditySubscription x c s"
| "call_op UnsubscribeVolume s = unsubscribeVolume s"
| "call_op (UpdateVolume x c) s = updateVolumeSubscription x c s"
| "call_op (UpdateState x p c) s = updateState x p c s"

datatype event =
    Opened | Message string | Reconnecting | ConnectionClosed | ConnectionError
  | TimerFires nat | PageCalls "op list" | SocketBecomes ready_state | ClockAdvances nat
  | SessionChanges session | LoginAnswered nat "auth_data res" | ClientTypeAnswered nat "jsv res"

text \<open>The thread a segment leaves: nothing when it threw.\<close>

definition thread_of :: "segment \<Rightarrow> frame list" where
  "thread_of = (\<lambda>(e, fs, s). if e = None then fs else [])"

definition state_of :: "segment \<Rightarrow> ws" where
  "state_of = (\<lambda>(e, fs, s). s)"

fun call_all :: "op list \<Rightarrow> ws \<Rightarrow> frame list list \<times> ws" where
  "call_all [] s = ([], s)"
| "call_all (o1 # os) s =
     (case call_all os (state_of (call_op o1 s)) of (ths, t) \<Rightarrow> (thread_of (call_op o1 s) # ths, t))"

definition fire_timer :: "nat \<Rightarrow> ws \<Rightarrow> segment" where
  "fire_timer i s =
     (let s1 = s\<lparr>ws_timers := filter (\<lambda>(j, _). j \<noteq> i) (ws_timers s)\<rparr>
      in case map_of (ws_timers s) i of
           None \<Rightarrow> (None, [], s)
         | Some PingTimer \<Rightarrow> (None, [], ping s1)
         | Some HbTimer \<Rightarrow> hb s1)"

definition drop_wait :: "nat \<Rightarrow> ws \<Rightarrow> ws" where
  "drop_wait i s = s\<lparr>ws_waiting := take i (ws_waiting s) @ drop (Suc i) (ws_waiting s)\<rparr>"

definition login_answered :: "nat \<Rightarrow> auth_data res \<Rightarrow> ws \<Rightarrow> segment" where
  "login_answered i reply s =
     (if i < length (ws_waiting s) \<and> ws_waiting s ! i = WaitLogin
      then authorized_login reply (drop_wait i s) else (None, [], s))"

definition client_type_answered :: "(jsv \<Rightarrow> jsv res) \<Rightarrow> nat \<Rightarrow> jsv res \<Rightarrow> ws \<Rightarrow> segment" where
  "client_type_answered decode i ct s =
     (if i < length (ws_waiting s)
      then (case ws_waiting s ! i of
              WaitClientType d \<Rightarrow> authorized_client_type decode d ct (drop_wait i s)
            | WaitLogin \<Rightarrow> (None, [], s))
      else (None, [], s))"

fun handle :: "(jsv \<Rightarrow> jsv res) \<Rightarrow> event \<Rightarrow> ws \<Rightarrow> segment" where
  "handle decode Opened s = onopen s"
| "handle decode (Message t) s = onmessage t s"
| "handle decode Reconnecting s = onreconnect s"
| "handle decode ConnectionClosed s = onclose s"
| "handle decode ConnectionError s = onerror s"
| "handle decode (TimerFires i) s = fire_timer i s"
| "handle decode (PageCalls os) s = (None, [], s)"
| "handle decode (SocketBecomes r) s = (None, [], s\<lparr>ws_ready := r\<rparr>)"
| "handle decode (ClockAdvances n) s = (None, [], s\<lparr>ws_clock := ws_clock s + int n\<rparr>)"
| "handle decode (SessionChanges ses) s = (None, [], s\<lparr>ws_session := ses\<rparr>)"
| "handle decode (LoginAnswered i r) s = login_answered i r s"
| "handle decode (ClientTypeAnswered i ct) s = client_type_answered decode i ct s"

record loop =
  lp_ws :: ws
  lp_threads :: "frame list list"

definition idle :: "loop \<Rightarrow> bool" where
  "idle l \<longleftrightarrow> list_all (\<lambda>th. th = []) (lp_threads l)"

definition task :: "(jsv \<Rightarrow> jsv res) \<Rightarrow> event \<Rightarrow> loop \<Rightarrow> loop" where
  "task decode e l =
     (case e of
        PageCalls os \<Rightarrow>
          (case call_all os (lp_ws l) of (ths, t) \<Rightarrow> \<lparr>lp_ws = t, lp_threads = ths\<rparr>)
      | _ \<Rightarrow> \<lparr>lp_ws = state_of (handle decode e (lp_ws l)),
              lp_threads = [thread_of (handle decode e (lp_ws l))]\<rparr>)"

fun is_set :: "frame \<Rightarrow> bool" where
  "is_set (FSet _) = True"
| "is_set _ = False"

text \<open>Resume thread \<open>i\<close>; if that applied a state update the page renders and makes the calls \<open>os\<close>.\<close>

definition resume :: "nat \<Rightarrow> op list \<Rightarrow> loop \<Rightarrow> loop" where
  "resume i os l =
     (case (if i < length (lp_threads l) then lp_threads l ! i else []) of
        [] \<Rightarrow> l
      | f # fs \<Rightarrow>
          let (e, gs, t) = run_frame f (lp_ws l);
              ths = (lp_threads l)[i := (if e = None then gs @ fs else [])];
              (new, u) = call_all (if is_set f then os else []) t
          in \<lparr>lp_ws = u, lp_threads = ths @ new\<rparr>)"

inductive loop_step :: "(jsv \<Rightarrow> jsv res) \<Rightarrow> loop \<Rightarrow> loop \<Rightarrow> bool" for decode where
  begins: "idle l \<Longrightarrow> loop_step decode l (task decode e l)"
| resumes: "loop_step decode l (resume i os l)"

inductive_cases loop_stepE: "loop_step decode l l'"

text \<open>The container as constructed: empty state, a first connection on its way.\<close>

definition ws_constructed :: "ws \<Rightarrow> bool" where
  "ws_constructed s \<longleftrightarrow>
     ws_st s = emptyState \<and> ws_timers s = [] \<and> ws_pingTimeout s = None \<and> ws_hbTimeout s = None"

definition loop_start :: "loop \<Rightarrow> bool" where
  "loop_start l \<longleftrightarrow> ws_constructed (lp_ws l) \<and> lp_threads l = []"

section \<open>Timers\<close>

definition timer_ids :: "timer \<Rightarrow> ws \<Rightarrow> nat list" where
  "timer_ids k s = map fst (filter (\<lambda>(_, k'). k' = k) (ws_timers s))"

definition timers_ok :: "ws \<Rightarrow> bool" where
  "timers_ok s \<longleftrightarrow>
     (\<forall>(i, k) \<in> set (ws_timers s). i < ws_nextTimer s)
     \<and> distinct (map fst (ws_timers s))
     \<and> (timer_ids PingTimer s = [] \<or> (\<exists>i. ws_pingTimeout s = Some i \<and> timer_ids PingTimer s = [i]))
     \<and> (timer_ids HbTimer s = [] \<or> (\<exists>i. ws_hbTimeout s = Some i \<and> timer_ids HbTimer s = [i]))"

text \<open>Operations that leave the timers alone.\<close>

definition same_timers :: "ws \<Rightarrow> ws \<Rightarrow> bool" where
  "same_timers s t \<longleftrightarrow>
     ws_timers t = ws_timers s \<and> ws_nextTimer t = ws_nextTimer s
     \<and> ws_pingTimeout t = ws_pingTimeout s \<and> ws_hbTimeout t = ws_hbTimeout s"

lemma same_timers_refl [simp]: "same_timers s s"
  by (simp add: same_timers_def)

lemma same_timers_ok: "same_timers s t \<Longrightarrow> timers_ok s \<Longrightarrow> timers_ok t"
  by (simp add: same_timers_def timers_ok_def timer_ids_def)

lemma same_timers_trans: "same_timers s t \<Longrightarrow> same_timers t u \<Longrightarrow> same_timers s u"
  by (simp add: same_timers_def)

lemma oneTimeInvoke_timers: "same_timers s (state_of (oneTimeInvoke p m as s))"
  by (auto simp: oneTimeInvoke_def state_of_def same_timers_def ws_send_def Let_def
      split: ready_state.split)

lemma append_segment [simp]:
  "state_of (case seg of (e, fs, t) \<Rightarrow> (e, fs @ gs, t)) = state_of seg"
  by (simp add: state_of_def split: prod.split)

lemma call_op_timers: "same_timers s (state_of (call_op o1 s))"
  by (cases o1)
    (simp_all add: subscribeDashboard_def unsubscribeDashboard_def subscribeBalances_def
      unsubscribeBalances_def subscribeTradeSignals_def unsubscribeTradeSignals_def unsubscribePL_def
      updatePLSubscription_def unsubscribeLiquidity_def updateLiquiditySubscription_def
      unsubscribeVolume_def updateVolumeSubscription_def updateState_def retryInvoke_def Let_def
      oneTimeInvoke_timers, simp_all add: state_of_def)

lemma call_all_timers: "same_timers s (snd (call_all os s))"
  by (induction os arbitrary: s)
    (auto simp: split_beta intro: same_timers_trans [OF call_op_timers])

lemma seg_of_state [simp]: "state_of (seg_of r s) = s" "state_of (e, fs, s) = s"
  by (simp_all add: seg_of_def state_of_def split: sum.split)

text \<open>The handlers of data messages change nothing before their frames run.\<close>

lemma data_handlers_state [simp]:
  "state_of (updateOrderState v s) = s" "state_of (updateIndicators v s) = s"
  "state_of (updateBalances v s) = s" "state_of (updateProfitLoss v s) = s"
  "state_of (updateTradeSignals v s) = s" "state_of (updateVolume v s) = s"
  by (simp_all add: updateOrderState_def updateIndicators_def updateBalances_def
      updateProfitLoss_def updateTradeSignals_def updateVolume_def)

lemma processAuthorized_timers: "same_timers s (state_of (processAuthorized v s))"
  by (simp add: processAuthorized_def same_timers_def close_and_logout_def ws_close_def Let_def
      split: sum.split)

lemma router_timers: "same_timers s (state_of (router c v s))"
proof -
  have "same_timers s (pong s)" "same_timers s (s\<lparr>ws_toasts := x\<rparr>)" for x
    by (simp_all add: pong_def same_timers_def)
  then show ?thesis
    unfolding router_def by (simp add: processAuthorized_timers split: sum.split)
qed

lemma onmessage_timers: "same_timers s (state_of (onmessage t s))"
  by (simp add: onmessage_def router_timers split: sum.split prod.split)

lemma close_and_logout_timers: "same_timers s (close_and_logout s)"
  by (simp add: close_and_logout_def ws_close_def same_timers_def)

lemma auth_timers: "same_timers s (state_of (auth t s))"
  by (simp add: auth_def retryInvoke_def oneTimeInvoke_timers)

lemma answers_timers:
  "same_timers s (state_of (login_answered i r s))"
  "same_timers s (state_of (client_type_answered decode i ct s))"
proof -
  have wait: "same_timers s (drop_wait i s)" for s by (simp add: drop_wait_def same_timers_def)
  have login: "same_timers s (state_of (authorized_login r s))" for s
    by (simp add: authorized_login_def close_and_logout_timers split: sum.split)
      (simp add: same_timers_def)
  have ses: "same_timers s (s\<lparr>ws_session := x\<rparr>)" for s x by (simp add: same_timers_def)
  have client: "same_timers s (state_of (authorized_client_type decode d ct s))" for d s
  proof -
    have "same_timers s (state_of (auth t (s\<lparr>ws_session := x\<rparr>)))" for t x
      by (rule same_timers_trans [OF ses auth_timers])
    moreover have "same_timers s (close_and_logout (s\<lparr>ws_session := x\<rparr>))" for x
      by (rule same_timers_trans [OF ses close_and_logout_timers])
    moreover have "same_timers s (close_and_logout (state_of (auth t (s\<lparr>ws_session := x\<rparr>))))" for t x
      by (rule same_timers_trans [OF _ close_and_logout_timers]) fact
    ultimately show ?thesis
      by (auto simp: authorized_client_type_def close_and_logout_timers state_of_def
          split: sum.split prod.splits option.split) (metis case_prod_conv)+
  qed
  show "same_timers s (state_of (login_answered i r s))"
    by (simp add: login_answered_def same_timers_trans [OF wait login])
  show "same_timers s (state_of (client_type_answered decode i ct s))"
    by (simp add: client_type_answered_def same_timers_trans [OF wait client] split: wait.split)
qed

section \<open>Timers are not duplicated\<close>

lemma timer_ids_clear:
  "timer_ids k (clearTimeout i s) = filter (\<lambda>j. Some j \<noteq> i) (timer_ids k s)"
proof -
  have "map fst (filter (\<lambda>(_, k'). k' = k) (filter (\<lambda>(j, _). Some j \<noteq> i) ts))
      = filter (\<lambda>j. Some j \<noteq> i) (map fst (filter (\<lambda>(_, k'). k' = k) ts))" for ts :: "(nat \<times> timer) list"
    by (induction ts) auto
  then show ?thesis by (simp add: timer_ids_def clearTimeout_def)
qed

lemma clearTimeout_fields [simp]:
  "ws_pingTimeout (clearTimeout i s) = ws_pingTimeout s" "ws_hbTimeout (clearTimeout i s) = ws_hbTimeout s"
  "ws_nextTimer (clearTimeout i s) = ws_nextTimer s" "ws_st (clearTimeout i s) = ws_st s"
  by (simp_all add: clearTimeout_def)

lemma clearTimeout_ok: "timers_ok s \<Longrightarrow> timers_ok (clearTimeout i s)"
proof -
  assume ok: "timers_ok s"
  have sub: "ws_timers (clearTimeout i s) = filter (\<lambda>(j, _). Some j \<noteq> i) (ws_timers s)"
    by (simp add: clearTimeout_def)
  have "\<forall>(i, k) \<in> set (ws_timers (clearTimeout i s)). i < ws_nextTimer s"
    "distinct (map fst (ws_timers (clearTimeout i s)))"
    using ok unfolding sub by (auto simp: timers_ok_def distinct_map_filter)
  with ok show ?thesis by (auto simp: timers_ok_def timer_ids_clear split: if_splits)
qed

lemma clear_ping: "timers_ok s \<Longrightarrow> timer_ids PingTimer (clearTimeout (ws_pingTimeout s) s) = []"
  by (auto simp: timers_ok_def timer_ids_clear)

lemma clear_hb: "timers_ok s \<Longrightarrow> timer_ids HbTimer (clearTimeout (ws_hbTimeout s) s) = []"
  by (auto simp: timers_ok_def timer_ids_clear)

lemma set_ping_ok:
  assumes "timers_ok s" and "timer_ids PingTimer s = []"
  shows "timers_ok ((setTimeout PingTimer s)\<lparr>ws_pingTimeout := Some (ws_nextTimer s)\<rparr>)"
  using assms by (force simp: timers_ok_def timer_ids_def setTimeout_def)

lemma set_hb_ok:
  assumes "timers_ok s" and "timer_ids HbTimer s = []"
  shows "timers_ok ((setTimeout HbTimer s)\<lparr>ws_hbTimeout := Some (ws_nextTimer s)\<rparr>)"
  using assms by (force simp: timers_ok_def timer_ids_def setTimeout_def)

lemma ping_ok:
  assumes "timers_ok s" and "timer_ids PingTimer s = []"
  shows "timers_ok (ping s)"
proof -
  have "timers_ok t \<and> timer_ids PingTimer t = []" if "ws_send x s = Inr t" for x t
    using assms that by (auto simp: ws_send_def timers_ok_def timer_ids_def split: ready_state.splits)
  with assms show ?thesis by (auto simp: ping_def intro!: set_ping_ok split: sum.split)
qed

lemma hb_ok:
  assumes "timers_ok s" and "timer_ids HbTimer s = []"
  shows "timers_ok (state_of (hb s))"
proof -
  have "timers_ok ((stopHb s)\<lparr>ws_lastPongTime := None\<rparr>)"
    by (rule same_timers_ok [OF _ clearTimeout_ok [OF assms(1)]]) (simp add: stopHb_def same_timers_def)
  with set_hb_ok [OF assms] show ?thesis by (simp add: hb_def)
qed

lemma fire_timer_ok:
  assumes "timers_ok s"
  shows "timers_ok (state_of (fire_timer i s))"
proof -
  let ?s = "s\<lparr>ws_timers := filter (\<lambda>(j, _). j \<noteq> i) (ws_timers s)\<rparr>"
  have s: "?s = clearTimeout (Some i) s" by (simp add: clearTimeout_def)
  have ok: "timers_ok ?s" unfolding s by (rule clearTimeout_ok [OF assms])
  have gone: "timer_ids k ?s = []" if "map_of (ws_timers s) i = Some k" for k
  proof -
    have "i \<in> set (timer_ids k s)"
      using map_of_SomeD [OF that] by (force simp: timer_ids_def)
    moreover have "timer_ids k s = [] \<or> (\<exists>j. timer_ids k s = [j])"
      using assms by (cases k) (auto simp: timers_ok_def)
    ultimately show ?thesis unfolding s timer_ids_clear by auto
  qed
  show ?thesis
    using ok gone assms by (auto simp: fire_timer_def Let_def ping_ok hb_ok split: option.split timer.split)
qed

lemma run_frame_ok:
  assumes "timers_ok s"
  shows "timers_ok (state_of (run_frame f s))"
proof -
  note same = same_timers_ok [OF _ assms]
  show ?thesis
  proof (cases f)
    case FOpenPing
    then show ?thesis using assms by (simp add: open_ping_def ping_ok clearTimeout_ok clear_ping)
  next
    case FOpenHb
    then show ?thesis using assms by (simp add: open_hb_def hb_ok clearTimeout_ok clear_hb)
  qed (auto intro!: same simp: subscribePL_def subscribeLiquidity_def subscribeVolume_def retryInvoke_def
      oneTimeInvoke_timers open_auth_def auth_timers,
      auto simp: same_timers_def hb_reconnect_def initiateConnection_def ws_close_def)
qed

lemma handle_ok:
  assumes "timers_ok s"
  shows "timers_ok (state_of (handle decode e s))"
proof -
  note same = same_timers_ok [OF _ assms]
  have stop: "timers_ok (stopPing s)" using assms by (simp add: stopPing_def clearTimeout_ok)
  show ?thesis
  proof (cases e)
    case ConnectionError
    show ?thesis
      by (simp add: ConnectionError onerror_def) (rule same_timers_ok [OF _ stop], simp add: same_timers_def)
  qed (auto intro!: same simp: onopen_def onmessage_timers onreconnect_def onclose_def stop
      fire_timer_ok [OF assms] assms answers_timers, auto simp: same_timers_def)
qed

lemma loop_step_timers:
  assumes "timers_ok (lp_ws l)" and "loop_step decode l l'"
  shows "timers_ok (lp_ws l')"
  using assms(2)
proof (cases rule: loop_step.cases)
  case (begins e)
  have "timers_ok (snd (call_all os (lp_ws l)))" for os
    by (rule same_timers_ok [OF call_all_timers assms(1)])
  then show ?thesis
    using begins handle_ok [OF assms(1), of decode e]
    by (cases e) (auto simp: task_def split_beta)
next
  case (resumes i os)
  show ?thesis
  proof (cases "if i < length (lp_threads l) then lp_threads l ! i else []")
    case (Cons f fs)
    have "timers_ok (snd (call_all os' (state_of (run_frame f (lp_ws l)))))" for os'
      by (rule same_timers_ok [OF call_all_timers run_frame_ok [OF assms(1)]])
    then show ?thesis using Cons resumes by (simp add: resume_def split_beta Let_def state_of_def)
  qed (use resumes assms in \<open>simp add: resume_def\<close>)
qed

lemma loop_start_timers: "loop_start l \<Longrightarrow> timers_ok (lp_ws l)"
  by (simp add: loop_start_def ws_constructed_def timers_ok_def timer_ids_def)

interpretation ws_timers: invariant_machine loop_start "loop_step decode" "\<lambda>l. timers_ok (lp_ws l)" for decode
  by unfold_locales (rule loop_start_timers, assumption, rule loop_step_timers)

text \<open>
  C8: in every state the container can reach, whatever the socket, the timers, the requests and the
  page do, at most one ping timer and at most one heartbeat timer are running, and when the socket
  closes or fails no ping timer is left.
\<close>

theorem one_timer_of_each_kind:
  assumes "loop_start l" and "(loop_step decode)\<^sup>*\<^sup>* l l'"
  shows "length (timer_ids PingTimer (lp_ws l')) \<le> 1 \<and> length (timer_ids HbTimer (lp_ws l')) \<le> 1
    \<and> timer_ids PingTimer (state_of (onclose (lp_ws l'))) = []
    \<and> timer_ids PingTimer (state_of (onerror (lp_ws l'))) = []"
proof -
  have ok: "timers_ok (lp_ws l')" using ws_timers.inv_reach [OF assms] .
  then have "timer_ids PingTimer (stopPing (lp_ws l')) = []" by (simp add: stopPing_def clear_ping)
  then show ?thesis
    using ok by (auto simp: timers_ok_def onclose_def onerror_def timer_ids_def)
qed

section \<open>Data only while subscribed\<close>

definition data_ok :: "ws_state \<Rightarrow> bool" where
  "data_ok st \<longleftrightarrow>
     (ws_orderState st = JNull \<or> ws_subscribedLiquidity st \<noteq> [])
     \<and> (ws_volumeNow st = JNull \<or> ws_subscribedVolume st \<noteq> [])
     \<and> (ws_transactions st = JNull \<or> ws_subscribedPL st \<noteq> [])
     \<and> (ws_profits st = JNull \<or> ws_subscribedPL st \<noteq> [])
     \<and> (ws_dashboardIndicators st = JNull \<or> ws_subscribedDashboard st)
     \<and> (ws_balances st = JNull \<or> ws_subscribedBalances st)
     \<and> (ws_tradeSignals st = JNull \<or> ws_subscribedTradeSignals st)"

text \<open>Updates that keep this in any state, and those that need their subscription.\<close>

fun patch_safe :: "patch \<Rightarrow> bool" where
  "patch_safe (PVolume _) = False"
| "patch_safe (PIndicators _) = False"
| "patch_safe (PBalances _) = False"
| "patch_safe (PProfitLoss _ _) = False"
| "patch_safe (PSignals _) = False"
| "patch_safe (POrderState _) = False"
| "patch_safe (PSubPL k _ _ _) = (k \<noteq> [])"
| "patch_safe (PSubLiquidity k _ _) = (k \<noteq> [])"
| "patch_safe (PSubVolume k _ _) = (k \<noteq> [])"
| "patch_safe _ = True"

fun allowed :: "patch \<Rightarrow> ws_state \<Rightarrow> bool" where
  "allowed (PVolume _) st = (ws_subscribedVolume st \<noteq> [])"
| "allowed (PIndicators _) st = ws_subscribedDashboard st"
| "allowed (PBalances _) st = ws_subscribedBalances st"
| "allowed (PProfitLoss _ _) st = (ws_subscribedPL st \<noteq> [])"
| "allowed (PSignals _) st = ws_subscribedTradeSignals st"
| "allowed (POrderState _) st = (ws_subscribedLiquidity st \<noteq> [])"
| "allowed p st = patch_safe p"

text \<open>The updates the container makes on its own account carry no data, and a key they set is not empty.\<close>

fun page_patch :: "patch \<Rightarrow> bool" where
  "page_patch (PVolume _) = False"
| "page_patch (PIndicators _) = False"
| "page_patch (PBalances _) = False"
| "page_patch (PProfitLoss _ _) = False"
| "page_patch (PSignals _) = False"
| "page_patch (POrderState _) = False"
| "page_patch (PCurrencyIndicators _) = False"
| "page_patch (PSubPL k _ _ _) = (k \<noteq> [])"
| "page_patch (PSubLiquidity k _ _) = (k \<noteq> [])"
| "page_patch (PSubVolume k _ _) = (k \<noteq> [])"
| "page_patch _ = True"

fun frame_fits :: "(patch \<Rightarrow> bool) \<Rightarrow> frame \<Rightarrow> bool" where
  "frame_fits fits (FSet p) = fits p"
| "frame_fits fits _ = True"

abbreviation frame_safe :: "frame \<Rightarrow> bool" where
  "frame_safe \<equiv> frame_fits patch_safe"

definition threads_safe :: "frame list list \<Rightarrow> bool" where
  "threads_safe ths \<longleftrightarrow> (\<forall>th \<in> set ths. list_all frame_safe th)"

definition loop_data :: "loop \<Rightarrow> bool" where
  "loop_data l \<longleftrightarrow> data_ok (ws_st (lp_ws l))
     \<and> (threads_safe (lp_threads l)
        \<or> (\<exists>p fs. lp_threads l = [FSet p # fs] \<and> allowed p (ws_st (lp_ws l)) \<and> list_all frame_safe fs))"

lemma allowed_data_ok: "data_ok st \<Longrightarrow> allowed p st \<Longrightarrow> data_ok (apply_patch p st)"
  by (cases p) (auto simp: data_ok_def emptyState_def)

lemma safe_allowed: "patch_safe p \<Longrightarrow> allowed p st"
  by (cases p) auto

lemma thread_of_append: "list_all P (thread_of seg) \<Longrightarrow> list_all P gs \<Longrightarrow>
   list_all P (thread_of (case seg of (e, fs, t) \<Rightarrow> (e, fs @ gs, t)))"
  by (auto simp: thread_of_def split: prod.splits)

lemma thread_of_none [simp]: "thread_of (None, fs, s) = fs"
  by (simp add: thread_of_def)

text \<open>Until a frame is resumed nothing but the connection changes.\<close>

lemma oneTimeInvoke_st: "ws_st (state_of (oneTimeInvoke p m as s)) = ws_st s"
  by (auto simp: oneTimeInvoke_def state_of_def ws_send_def Let_def split: ready_state.split)

lemma state_of_append: "state_of (case seg of (e, fs, t) \<Rightarrow> (e, fs @ gs, t)) = state_of seg"
  by (simp add: state_of_def split: prod.split)

lemma call_op_st: "ws_st (state_of (call_op o1 s)) = ws_st s"
  by (cases o1; simp add: subscribeDashboard_def unsubscribeDashboard_def subscribeBalances_def
      unsubscribeBalances_def subscribeTradeSignals_def unsubscribeTradeSignals_def unsubscribePL_def
      updatePLSubscription_def unsubscribeLiquidity_def updateLiquiditySubscription_def
      unsubscribeVolume_def updateVolumeSubscription_def updateState_def retryInvoke_def Let_def
      oneTimeInvoke_st state_of_append)+

lemma call_all_st: "ws_st (snd (call_all os s)) = ws_st s"
  by (induction os arbitrary: s) (simp_all add: split_beta call_op_st)

lemma auth_st: "ws_st (state_of (auth t s)) = ws_st s"
  by (simp add: auth_def retryInvoke_def oneTimeInvoke_st)

lemma hb_st: "ws_st (state_of (hb s)) = ws_st s"
  by (simp add: hb_def stopHb_def setTimeout_def)

lemma ping_st [simp]: "ws_st (ping s) = ws_st s"
  by (simp add: ping_def setTimeout_def ws_send_def split: sum.split ready_state.split)

lemma run_frame_st:
  "ws_st (state_of (run_frame f s)) = (case f of FSet p \<Rightarrow> apply_patch p (ws_st s) | _ \<Rightarrow> ws_st s)"
  by (cases f; simp add: subscribePL_def subscribeLiquidity_def subscribeVolume_def retryInvoke_def
      oneTimeInvoke_st open_auth_def auth_st open_ping_def open_hb_def hb_st hb_reconnect_def
      initiateConnection_def ws_close_def)+

lemma fire_timer_st: "ws_st (state_of (fire_timer i s)) = ws_st s"
  by (simp add: fire_timer_def Let_def hb_st split: option.split timer.split)

lemma authorized_client_type_st: "ws_st (state_of (authorized_client_type decode d ct s)) = ws_st s"
proof -
  have "ws_st u = ws_st t" if "auth x t = (r, fs, u)" for x t r fs u
    using auth_st [of x t] that by (simp add: state_of_def)
  then show ?thesis
    by (auto simp: authorized_client_type_def close_and_logout_def ws_close_def
        split: sum.split prod.split option.split)
qed

text \<open>
  The threads of everything but a message hold only such updates, whatever property of updates is
  to be shown of them.
\<close>

locale page_frames =
  fixes fits :: "patch \<Rightarrow> bool"
  assumes page_fits: "page_patch p \<Longrightarrow> fits p"
begin

lemma oneTimeInvoke_fits:
  "page_patch p \<Longrightarrow> list_all (frame_fits fits) (thread_of (oneTimeInvoke p m as s))"
  by (auto simp: oneTimeInvoke_def thread_of_def ws_send_def page_fits Let_def split: ready_state.split)

lemma call_op_fits: "list_all (frame_fits fits) (thread_of (call_op o1 s))"
  by (cases o1; simp add: subscribeDashboard_def unsubscribeDashboard_def subscribeBalances_def
      unsubscribeBalances_def subscribeTradeSignals_def unsubscribeTradeSignals_def unsubscribePL_def
      updatePLSubscription_def unsubscribeLiquidity_def updateLiquiditySubscription_def
      unsubscribeVolume_def updateVolumeSubscription_def updateState_def retryInvoke_def Let_def
      oneTimeInvoke_fits thread_of_append page_fits)+

lemma call_all_fits: "\<forall>th \<in> set (fst (call_all os s)). list_all (frame_fits fits) th"
  by (induction os arbitrary: s) (simp_all add: split_beta call_op_fits)

lemma auth_fits: "list_all (frame_fits fits) (thread_of (auth t s))"
  by (simp add: auth_def retryInvoke_def oneTimeInvoke_fits)

lemma hb_fits: "list_all (frame_fits fits) (thread_of (hb s))"
  by (simp add: hb_def page_fits)

lemma run_frame_fits: "list_all (frame_fits fits) (thread_of (run_frame f s))"
  by (cases f; simp add: subscribePL_def subscribeLiquidity_def subscribeVolume_def retryInvoke_def
      oneTimeInvoke_fits open_auth_def auth_fits open_hb_def hb_fits)+

lemma fire_timer_fits: "list_all (frame_fits fits) (thread_of (fire_timer i s))"
  by (simp add: fire_timer_def Let_def hb_fits split: option.split timer.split)

lemma authorized_client_type_fits:
  "list_all (frame_fits fits) (thread_of (authorized_client_type decode d ct s))"
proof -
  have "list_all (frame_fits fits) fs" if "auth x t = (None, fs, u)" for x t fs u
    using auth_fits [of x t] that by simp
  then show ?thesis
    by (auto simp: authorized_client_type_def split: sum.split prod.split option.split)
qed

end

lemma page_patch_safe: "page_patch p \<Longrightarrow> patch_safe p"
  by (cases p) auto

interpretation safe: page_frames patch_safe
  by unfold_locales (rule page_patch_safe)

text \<open>What a task may leave behind: safe frames, or one update allowed by the state.\<close>

definition good_segment :: "segment \<Rightarrow> bool" where
  "good_segment seg \<longleftrightarrow>
     list_all frame_safe (thread_of seg)
     \<or> (\<exists>p fs. thread_of seg = FSet p # fs \<and> allowed p (ws_st (state_of seg)) \<and> list_all frame_safe fs)"

lemma good_simps [simp]:
  "good_segment (None, [], s)" "good_segment (Some e, fs, s)"
  "good_segment (None, [FSet p], s) \<longleftrightarrow> allowed p (ws_st s)"
  by (auto simp: good_segment_def thread_of_def dest: safe_allowed)

lemma good_seg_of: "(\<And>fs. r = Inr fs \<Longrightarrow> good_segment (None, fs, s)) \<Longrightarrow> good_segment (seg_of r s)"
  by (cases r) (auto simp: seg_of_def)

lemma data_handlers_good:
  "good_segment (updateVolume v s)" "good_segment (updateIndicators v s)"
  "good_segment (updateBalances v s)" "good_segment (updateProfitLoss v s)"
  "good_segment (updateTradeSignals v s)"
  by (auto simp: updateVolume_def updateIndicators_def updateBalances_def updateProfitLoss_def
      updateTradeSignals_def res_bind_eq_Inr intro!: good_seg_of)

lemma updateOrderState_good: "good_segment (updateOrderState v s)"
  unfolding updateOrderState_def
proof (rule good_seg_of)
  fix fs
  assume "res_bind (get_prop v ''ordersStateAndTransactions'') (\<lambda>o1.
       res_bind (get_prop v ''indicators'') (\<lambda>indicators.
         if \<not> truthy_str (ws_subscribedLiquidity (ws_st s)) then Inr []
         else res_bind (get_prop o1 ''exchangeName'') (\<lambda>x.
           if \<not> strict_eq (ws_exchangeName (ws_st s)) x then Inr []
           else res_bind (get_prop o1 ''currencyCodePair'') (\<lambda>c.
             if strict_eq (ws_currencyCodePair (ws_st s)) c
             then Inr [FSet (POrderState o1), FSet (PCurrencyIndicators indicators)]
             else Inr [])))) = Inr fs"
  then have "fs = [] \<or> (ws_subscribedLiquidity (ws_st s) \<noteq> []
      \<and> (\<exists>o1 i. fs = [FSet (POrderState o1), FSet (PCurrencyIndicators i)]))"
    by (auto simp: res_bind_eq_Inr split: if_splits)
  then show "good_segment (None, fs, s)" by (auto simp: good_segment_def)
qed

lemma router_good: "good_segment (router c v s)"
proof -
  have "good_segment (processAuthorized v s)"
    by (simp add: processAuthorized_def Let_def split: sum.split)
  then show ?thesis
    unfolding router_def by (simp add: data_handlers_good updateOrderState_good split: sum.split)
qed

lemma router_data_ok:
  assumes "data_ok (ws_st s)"
  shows "data_ok (ws_st (state_of (router c v s)))"
proof -
  have "data_ok (ws_st (state_of (processAuthorized v s)))"
    using assms
    by (simp add: processAuthorized_def close_and_logout_def ws_close_def data_ok_def Let_def
        split: sum.split)
  with assms show ?thesis unfolding router_def by (simp add: pong_def split: sum.split)
qed

lemma safe_good: "list_all frame_safe (thread_of seg) \<Longrightarrow> good_segment seg"
  by (simp add: good_segment_def)

lemma handle_good:
  assumes "data_ok (ws_st s)"
  shows "good_segment (handle decode e s)" and "data_ok (ws_st (state_of (handle decode e s)))"
proof -
  have "good_segment (handle decode e s) \<and> data_ok (ws_st (state_of (handle decode e s)))"
  proof (cases e)
    case (Message t)
    with assms show ?thesis
      by (auto simp: onmessage_def router_good router_data_ok split: sum.split)
  next
    case (TimerFires i)
    with assms show ?thesis by (simp add: safe.fire_timer_fits fire_timer_st safe_good)
  next
    case (ClientTypeAnswered i ct)
    with assms show ?thesis
      by (auto simp: client_type_answered_def safe.authorized_client_type_fits
          authorized_client_type_st safe_good drop_wait_def
          split: wait.split)
  next
    case Opened
    with assms show ?thesis by (simp add: onopen_def good_segment_def)
  qed (use assms in \<open>simp_all add: onreconnect_def onclose_def onerror_def stopPing_def
      login_answered_def authorized_login_def close_and_logout_def ws_close_def drop_wait_def
      split: sum.split\<close>)
  then show "good_segment (handle decode e s)" "data_ok (ws_st (state_of (handle decode e s)))"
    by simp_all
qed

lemma task_data:
  assumes "data_ok (ws_st (lp_ws l))"
  shows "loop_data (task decode e l)"
proof (cases "\<exists>os. e = PageCalls os")
  case True
  then show ?thesis
    using assms safe.call_all_fits call_all_st
    by (auto simp: task_def loop_data_def threads_safe_def split_beta)
next
  case False
  then have "task decode e l = \<lparr>lp_ws = state_of (handle decode e (lp_ws l)),
      lp_threads = [thread_of (handle decode e (lp_ws l))]\<rparr>"
    by (cases e) (auto simp: task_def)
  then show ?thesis
    using handle_good [OF assms, of decode e]
    by (auto simp: loop_data_def threads_safe_def good_segment_def)
qed

text \<open>Resuming a thread whose next frame the state allows, when all other frames are safe.\<close>

lemma resume_safe:
  assumes "data_ok (ws_st (lp_ws l))" and "i < length (lp_threads l)" and "lp_threads l ! i = f # fs"
    and "\<And>p. f = FSet p \<Longrightarrow> allowed p (ws_st (lp_ws l))" and "list_all frame_safe fs"
    and "threads_safe ((lp_threads l)[i := []])"
  shows "loop_data (resume i os l)"
proof -
  obtain e gs t where run: "run_frame f (lp_ws l) = (e, gs, t)" by (metis prod_cases3)
  let ?ths = "(lp_threads l)[i := (if e = None then gs @ fs else [])]"
  have "threads_safe ?ths"
  proof -
    have "list_all frame_safe (if e = None then gs @ fs else [])"
      using safe.run_frame_fits [of f "lp_ws l"] run assms(5) by (auto simp: thread_of_def)
    moreover have "set ?ths \<subseteq> insert (if e = None then gs @ fs else []) (set ((lp_threads l)[i := []]))"
      using set_update_subset_insert [of "(lp_threads l)[i := []]" i] by simp
    ultimately show ?thesis using assms(6) unfolding threads_safe_def by blast
  qed
  moreover have "data_ok (ws_st t)"
    using run_frame_st [of f "lp_ws l"] run assms(1) allowed_data_ok assms(4)
    by (cases f) auto
  ultimately show ?thesis
    using run assms(2,3) safe.call_all_fits call_all_st [of _ t]
    by (auto simp: resume_def loop_data_def threads_safe_def split_beta Let_def)
qed

lemma loop_step_data:
  assumes "loop_data l" and "loop_step decode l l'"
  shows "loop_data l'"
  using assms(2)
proof (cases rule: loop_step.cases)
  case (begins e)
  with assms(1) show ?thesis by (simp add: task_data loop_data_def [of l])
next
  case (resumes i os)
  show ?thesis
  proof (cases "if i < length (lp_threads l) then lp_threads l ! i else []")
    case Nil
    with assms(1) resumes show ?thesis by (simp add: resume_def)
  next
    case cons: (Cons f fs)
    then have len: "i < length (lp_threads l)" and Cons: "lp_threads l ! i = f # fs"
      by (simp_all split: if_splits)
    from assms(1) have data: "data_ok (ws_st (lp_ws l))" by (simp add: loop_data_def)
    from assms(1) consider (safe) "threads_safe (lp_threads l)"
      | (one) p gs where "lp_threads l = [FSet p # gs]" "allowed p (ws_st (lp_ws l))" "list_all frame_safe gs"
      by (auto simp: loop_data_def)
    then show ?thesis
    proof cases
      case safe
      then have "list_all frame_safe (f # fs)"
        using len Cons nth_mem unfolding threads_safe_def by metis
      moreover have "threads_safe ((lp_threads l)[i := []])"
        using safe set_update_subset_insert [of "lp_threads l" i "[]"] unfolding threads_safe_def by fastforce
      ultimately show ?thesis
        using resumes len Cons data by (auto intro!: resume_safe dest: safe_allowed)
    next
      case one
      with Cons resumes len data show ?thesis
        by (auto intro!: resume_safe simp: threads_safe_def)
    qed
  qed
qed

lemma loop_start_data: "loop_start l \<Longrightarrow> loop_data l"
  by (simp add: loop_start_def ws_constructed_def loop_data_def data_ok_def emptyState_def threads_safe_def)

interpretation ws_data: invariant_machine loop_start "loop_step decode" loop_data for decode
  by unfold_locales (rule loop_start_data, assumption, rule loop_step_data)


section \<open>Concrete runs\<close>

datatype choice = Begin event | Resume nat "op list"

fun take_choice :: "(jsv \<Rightarrow> jsv res) \<Rightarrow> choice \<Rightarrow> loop \<Rightarrow> loop" where
  "take_choice decode (Begin e) l = (if idle l then task decode e l else l)"
| "take_choice decode (Resume i os) l = resume i os l"

definition run_choices :: "(jsv \<Rightarrow> jsv res) \<Rightarrow> choice list \<Rightarrow> loop \<Rightarrow> loop" where
  "run_choices decode cs l = fold (take_choice decode) cs l"

lemma run_choices_reach: "(loop_step decode)\<^sup>*\<^sup>* l (run_choices decode cs l)"
proof (induction cs arbitrary: l)
  case (Cons c cs)
  have "(loop_step decode)\<^sup>*\<^sup>* l (take_choice decode c l)"
    by (cases c) (auto intro: loop_step.intros)
  then show ?case using Cons [of "take_choice decode c l"] by (simp add: run_choices_def)
qed (simp add: run_choices_def)

definition demo_loop :: loop where
  "demo_loop = \<lparr>lp_ws = demo_ws\<lparr>ws_st := emptyState, ws_ready := Connecting\<rparr>, lp_threads = []\<rparr>"

lemma demo_loop_start: "loop_start demo_loop"
  by (simp add: loop_start_def ws_constructed_def demo_loop_def demo_ws_def)

definition demo_open :: "choice list" where
  "demo_open = [Begin (SocketBecomes Open), Begin Opened, Resume 0 [SubscribeBalances], Resume 0 [],
     Resume 0 [], Resume 0 [], Resume 0 [], Resume 0 [], Resume 1 [], Resume 1 []]"

theorem one_timer_of_each_kind_witness:
  "timer_ids PingTimer (lp_ws (run_choices Inr demo_open demo_loop)) = [0]
   \<and> timer_ids PingTimer (state_of (onclose (lp_ws (run_choices Inr demo_open demo_loop)))) = []"
proof
  show "timer_ids PingTimer (lp_ws (run_choices Inr demo_open demo_loop)) = [0]" by code_simp
qed (use one_timer_of_each_kind [OF demo_loop_start run_choices_reach] in blast)


section \<open>The heartbeat\<close>


definition demo_late :: ws where
  "demo_late = demo_ws\<lparr>ws_timers := [(0, HbTimer)], ws_nextTimer := 1, ws_hbTimeout := Some 0,
     ws_lastPongTime := Some 1000, ws_clock := 6000\<rparr>"


end
