(* ===== verification/Exchange_Store.thy ===== *)
theory Exchange_Store
  imports Control_Functions
begin

text \<open>
  \<^verbatim>\<open>unstatedContainers/ExchangeContainer.js\<close>: the exchanges and symbols the server supports
  and which of them is selected. Every operation of the container computes an update of the
  state when it is called and applies it when \<^verbatim>\<open>setState\<close> resolves; \<open>'_patch\<close> definitions are
  the first half, so that callers that do not await can be modelled too. The state of the
  container merges the fields given to \<^verbatim>\<open>setState\<close> and keeps the others.
\<close>

section \<open>Data\<close>

record symbol =
  sym_currencyCodePair :: string
  sym_currencyPair :: string
  sym_amountCurrencyCode :: string
  sym_pricePrecision :: int

record exchange =
  exch_name :: string
  exch_symbols :: "symbol list"

text \<open>What \<^verbatim>\<open>getSupportedExchanges\<close> resolves to.\<close>

record supported =
  sup_supportedExchanges :: "exchange list"
  sup_shortStrategyNames :: "string list option"
  sup_longStrategyNames :: "string list option"

record ex_state =
  ex_currencyCodePair :: string
  ex_currencyPair :: string
  ex_exchangeName :: string
  ex_strategyName :: "string option"
  ex_exchanges :: "exchange list option"
  ex_symbols :: "symbol list option"
  ex_interval :: string
  ex_selectedSymbol :: int
  ex_selectedExchange :: int
  ex_selectedStrategy :: int
  ex_shortStrategyNames :: "string list option"
  ex_longStrategyNames :: "string list option"
  ex_symbol :: "symbol option"

definition ex_initial :: ex_state where
  "ex_initial =
     \<lparr>ex_currencyCodePair = '''', ex_currencyPair = '''', ex_exchangeName = '''',
      ex_strategyName = Some ''All'', ex_exchanges = None, ex_symbols = None,
      ex_interval = ''now'', ex_selectedSymbol = - 1, ex_selectedExchange = - 1,
      ex_selectedStrategy = - 1, ex_shortStrategyNames = None, ex_longStrategyNames = None,
      ex_symbol = None\<rparr>"

type_synonym ex_patch = "ex_state \<Rightarrow> ex_state"

section \<open>Operations\<close>

text \<open>An index outside the array reads \<open>undefined\<close>, whose fields throw.\<close>

definition getSymbol :: "symbol list option \<Rightarrow> int \<Rightarrow> (string \<times> string \<times> symbol option) res" where
  "getSymbol symbols index =
     (case symbols of
        None \<Rightarrow> Inr (''all'', ''all'', None)
      | Some ss \<Rightarrow>
          if index = - 1 then Inr (''all'', ''all'', None)
          else (case at ss index of
                  None \<Rightarrow> Inl TypeError
                | Some s \<Rightarrow> Inr (sym_currencyCodePair s, sym_currencyPair s, Some s)))"

definition exchangeName_of :: "exchange list option \<Rightarrow> int \<Rightarrow> string res" where
  "exchangeName_of exchanges index =
     (if index = - 1 then Inr ''all''
      else (case exchanges of
              None \<Rightarrow> Inl TypeError
            | Some exs \<Rightarrow> (case at exs index of None \<Rightarrow> Inl TypeError | Some e \<Rightarrow> Inr (exch_name e))))"

definition updateSelected_patch :: "ex_state \<Rightarrow> ex_patch res" where
  "updateSelected_patch s =
     res_bind (exchangeName_of (ex_exchanges s) (ex_selectedExchange s)) (\<lambda>exchangeName.
     res_bind (getSymbol (ex_symbols s) (ex_selectedSymbol s)) (\<lambda>(codePair, pair, sym).
       let strategyName =
             (if ex_selectedStrategy s = - 1 then Some ''all''
              else (case ex_shortStrategyNames s of
                      None \<Rightarrow> Some ''all''
                    | Some names \<Rightarrow> at names (ex_selectedStrategy s)))
       in Inr (\<lambda>t. t\<lparr>ex_exchangeName := exchangeName, ex_currencyCodePair := codePair,
                     ex_currencyPair := pair, ex_symbol := sym,
                     ex_strategyName := strategyName\<rparr>)))"

definition updateSelected :: "ex_state \<Rightarrow> ex_state res" where
  "updateSelected s = res_bind (updateSelected_patch s) (\<lambda>p. Inr (p s))"

text \<open>
  The list is stored first and the selected names are derived from the stored state after
  that, so a throw between the two leaves the lists in place.
\<close>

definition loadExchanges :: "supported option \<Rightarrow> ex_state \<Rightarrow> js_error option \<times> ex_state" where
  "loadExchanges res s =
     (case res of
        None \<Rightarrow> (Some TypeError, s)
      | Some r \<Rightarrow>
          (case at (sup_supportedExchanges r) 0 of
             None \<Rightarrow> (Some TypeError, s)
           | Some e \<Rightarrow>
               let s1 = s\<lparr>ex_exchanges := Some (sup_supportedExchanges r),
                          ex_symbols := Some (exch_symbols e), ex_selectedExchange := 0,
                          ex_selectedSymbol := 0,
                          ex_shortStrategyNames := sup_shortStrategyNames r,
                          ex_longStrategyNames := sup_longStrategyNames r\<rparr>
               in (case updateSelected s1 of
                     Inl err \<Rightarrow> (Some err, s1)
                   | Inr s2 \<Rightarrow> (None, s2))))"

text \<open>
  The method reads \<^verbatim>\<open>this.props.state\<close>; a container has a \<^verbatim>\<open>state\<close> and no \<^verbatim>\<open>props\<close>, so the
  read of a property of \<open>undefined\<close> throws before anything is set.
\<close>

definition updateSelectedStrategy :: "int \<Rightarrow> ex_state \<Rightarrow> ex_state res" where
  "updateSelectedStrategy index s =
     res_bind (get_prop JUndef ''state'') (\<lambda>_.
       let strategyName =
             (if index = - 1 then Some ''all''
              else (case ex_shortStrategyNames s of
                      None \<Rightarrow> Some ''all'' | Some names \<Rightarrow> at names index))
       in Inr (s\<lparr>ex_selectedStrategy := index, ex_strategyName := strategyName\<rparr>))"

definition symbols_of_exchange :: "exchange list option \<Rightarrow> int \<Rightarrow> symbol list res" where
  "symbols_of_exchange exchanges index =
     (case exchanges of
        None \<Rightarrow> Inl TypeError
      | Some exs \<Rightarrow>
          if index = - 1
          then Inr (removeDuplicates sym_currencyCodePair (concat (map exch_symbols exs)))
          else (case at exs index of None \<Rightarrow> Inl TypeError | Some e \<Rightarrow> Inr (exch_symbols e)))"

definition updateSelectedExchange_patch :: "int \<Rightarrow> ex_state \<Rightarrow> ex_patch res" where
  "updateSelectedExchange_patch index s =
     res_bind (symbols_of_exchange (ex_exchanges s) index) (\<lambda>symbols.
     res_bind (exchangeName_of (ex_exchanges s) index) (\<lambda>exchangeName.
       let selectedSymbol = (if index = - 1 then - 1 else 0)
       in res_bind (getSymbol (Some symbols) selectedSymbol) (\<lambda>(codePair, pair, sym).
            Inr (\<lambda>t. t\<lparr>ex_selectedExchange := index, ex_exchangeName := exchangeName,
                       ex_symbols := Some symbols, ex_selectedSymbol := selectedSymbol,
                       ex_currencyCodePair := codePair, ex_currencyPair := pair,
                       ex_symbol := sym\<rparr>))))"

definition updateSelectedExchange :: "int \<Rightarrow> ex_state \<Rightarrow> ex_state res" where
  "updateSelectedExchange index s =
     res_bind (updateSelectedExchange_patch index s) (\<lambda>p. Inr (p s))"

definition updateSelectedSymbol_patch :: "int \<Rightarrow> ex_state \<Rightarrow> ex_patch res" where
  "updateSelectedSymbol_patch index s =
     res_bind (getSymbol (ex_symbols s) index) (\<lambda>(codePair, pair, sym).
       Inr (\<lambda>t. t\<lparr>ex_selectedSymbol := index, ex_currencyCodePair := codePair,
                  ex_currencyPair := pair, ex_symbol := sym\<rparr>))"

definition updateSelectedSymbol :: "int \<Rightarrow> ex_state \<Rightarrow> ex_state res" where
  "updateSelectedSymbol index s =
     res_bind (updateSelectedSymbol_patch index s) (\<lambda>p. Inr (p s))"

definition setInterval :: "string \<Rightarrow> ex_state \<Rightarrow> ex_state" where
  "setInterval interval s = s\<lparr>ex_interval := interval\<rparr>"

lemmas ex_op_defs [store_defs] =
  updateSelected_def updateSelected_patch_def updateSelectedExchange_def
  updateSelectedExchange_patch_def updateSelectedSymbol_def updateSelectedSymbol_patch_def
  setInterval_def symbols_of_exchange_def exchangeName_of_def getSymbol_def

section \<open>The selection invariant\<close>

text \<open>
  The names in the state are those of the selected entries: the exchange name and the symbols
  belong to the selected exchange (or to all of them), and the pair, the code pair and the
  symbol object are those of the selected symbol of that list.
\<close>

definition selection_ok :: "ex_state \<Rightarrow> bool" where
  "selection_ok s \<longleftrightarrow>
     (\<exists>symbols. symbols_of_exchange (ex_exchanges s) (ex_selectedExchange s) = Inr symbols
        \<and> ex_symbols s = Some symbols)
     \<and> exchangeName_of (ex_exchanges s) (ex_selectedExchange s) = Inr (ex_exchangeName s)
     \<and> getSymbol (ex_symbols s) (ex_selectedSymbol s)
        = Inr (ex_currencyCodePair s, ex_currencyPair s, ex_symbol s)"

lemma updateSelectedExchange_ok:
  assumes "updateSelectedExchange i s = Inr t"
  shows "selection_ok t"
  using assms
  by (auto simp: updateSelectedExchange_def updateSelectedExchange_patch_def selection_ok_def
      res_simps Let_def split: prod.splits)

lemma updateSelectedSymbol_ok:
  assumes "selection_ok s" and "updateSelectedSymbol i s = Inr t"
  shows "selection_ok t"
  using assms
  by (auto simp: updateSelectedSymbol_def updateSelectedSymbol_patch_def selection_ok_def
      res_simps split: prod.splits)

lemma updateSelected_ok:
  assumes "selection_ok s" and "updateSelected s = Inr t"
  shows "selection_ok t"
  using assms
  by (auto simp: updateSelected_def updateSelected_patch_def selection_ok_def res_simps Let_def
      split: prod.splits)

lemma setInterval_ok: "selection_ok s \<Longrightarrow> selection_ok (setInterval v s)"
  by (simp add: selection_ok_def setInterval_def)

lemma updateSelectedStrategy_throws: "updateSelectedStrategy i s = Inl TypeError"
  by (simp add: updateSelectedStrategy_def)

lemma loadExchanges_ok:
  assumes "loadExchanges r s = (None, t)"
  shows "selection_ok t"
  using assms
  by (auto simp: loadExchanges_def updateSelected_def updateSelected_patch_def selection_ok_def
      symbols_of_exchange_def res_simps Let_def split: option.splits prod.splits sum.splits)

text \<open>The container as a machine: each operation that does not throw is a step.\<close>

inductive ex_step :: "ex_state \<Rightarrow> ex_state \<Rightarrow> bool" where
  load: "loadExchanges r s = (None, t) \<Longrightarrow> ex_step s t"
| selected: "updateSelected s = Inr t \<Longrightarrow> ex_step s t"
| strategy: "updateSelectedStrategy i s = Inr t \<Longrightarrow> ex_step s t"
| exchange: "updateSelectedExchange i s = Inr t \<Longrightarrow> ex_step s t"
| symbol: "updateSelectedSymbol i s = Inr t \<Longrightarrow> ex_step s t"
| interval: "ex_step s (setInterval v s)"

inductive_cases ex_stepE: "ex_step s t"

lemma ex_step_ok: "selection_ok s \<Longrightarrow> ex_step s t \<Longrightarrow> selection_ok t"
  by (auto elim!: ex_stepE simp: updateSelectedStrategy_throws
      intro: loadExchanges_ok updateSelected_ok updateSelectedExchange_ok
        updateSelectedSymbol_ok setInterval_ok)

definition ex_loaded :: "ex_state \<Rightarrow> bool" where
  "ex_loaded t \<longleftrightarrow> (\<exists>r. loadExchanges (Some r) ex_initial = (None, t))"

interpretation exchange_store: invariant_machine ex_loaded ex_step selection_ok
  by unfold_locales (auto simp: ex_loaded_def intro: loadExchanges_ok ex_step_ok)

section \<open>Properties\<close>

text \<open>
  C6: once the exchanges are loaded, every sequence of completed selections keeps the store
  consistent: the exchange name, the symbol list, the pair, the code pair and the symbol object
  are those of the selected indices.
\<close>

theorem exchange_selection_consistent:
  assumes "ex_loaded s" and "ex_step\<^sup>*\<^sup>* s t"
  shows "selection_ok t"
  using assms by (rule exchange_store.inv_reach)

definition sample_symbol :: symbol where
  "sample_symbol = \<lparr>sym_currencyCodePair = ''BTC/USDT'', sym_currencyPair = ''btcusdt'',
     sym_amountCurrencyCode = ''BTC'', sym_pricePrecision = 2\<rparr>"

definition sample_supported :: supported where
  "sample_supported =
     \<lparr>sup_supportedExchanges = [\<lparr>exch_name = ''Binance'', exch_symbols = [sample_symbol]\<rparr>,
        \<lparr>exch_name = ''Bitmex'', exch_symbols = [sample_symbol]\<rparr>],
      sup_shortStrategyNames = None, sup_longStrategyNames = None\<rparr>"

theorem exchange_selection_consistent_witness:
  "selection_ok (setInterval ''day'' (snd (loadExchanges (Some sample_supported) ex_initial)))"
proof (rule exchange_selection_consistent)
  show "ex_loaded (snd (loadExchanges (Some sample_supported) ex_initial))"
    unfolding ex_loaded_def
  proof
    have "fst (loadExchanges (Some sample_supported) ex_initial) = None" by code_simp
    then show "loadExchanges (Some sample_supported) ex_initial
        = (None, snd (loadExchanges (Some sample_supported) ex_initial))"
      by (metis prod.collapse)
  qed
qed (intro r_into_rtranclp ex_step.interval)

text \<open>
  Selecting an exchange never throws for an index the drop-down offers: \<open>-1\<close> for all of them,
  or an index of the list whose exchange has a symbol. The first symbol is selected, and for all
  exchanges together every code pair is listed once.
\<close>

theorem updateSelectedExchange_total:
  assumes "ex_exchanges s = Some exs"
    and "i = - 1 \<or> (0 \<le> i \<and> i < int (length exs) \<and> exch_symbols (exs ! nat i) \<noteq> [])"
  shows "\<exists>t. updateSelectedExchange i s = Inr t \<and> ex_selectedExchange t = i
    \<and> ex_selectedSymbol t = (if i = - 1 then - 1 else 0)
    \<and> (\<exists>ss. ex_symbols t = Some ss
        \<and> (if i = - 1
           then distinct (map sym_currencyCodePair ss)
             \<and> sym_currencyCodePair ` set ss = (\<Union>e \<in> set exs. sym_currencyCodePair ` set (exch_symbols e))
           else ss = exch_symbols (exs ! nat i)))"
proof (cases "i = - 1")
  case True
  have "sym_currencyCodePair ` set (removeDuplicates sym_currencyCodePair (concat (map exch_symbols exs)))
      = (\<Union>e \<in> set exs. sym_currencyCodePair ` set (exch_symbols e))"
    unfolding removeDuplicates_image by auto
  with True assms(1) js_dedup.dedup_distinct [of sym_currencyCodePair "concat (map exch_symbols exs)"]
  show ?thesis
    by (simp add: ex_op_defs Let_def)
next
  case False
  with assms obtain y ys where "at exs i = Some (exs ! nat i)" "exch_symbols (exs ! nat i) = y # ys"
    by (auto simp: at_def neq_Nil_conv)
  with False assms(1) show ?thesis by (simp add: ex_op_defs Let_def)
qed

text \<open>
  Choosing a strategy always fails: the handler reads \<^verbatim>\<open>this.props\<close>, which a container does
  not have, so no index selects a strategy.
\<close>

theorem updateSelectedStrategy_never_succeeds:
  "updateSelectedStrategy i s = Inl TypeError"
  by (simp add: updateSelectedStrategy_def)

end
