(* ===== verification/Ws_Pages.thy ===== *)
theory Ws_Pages
  imports Ws_Loop Exchange_Store
begin

text \<open>
  The pages that live on the web socket, \<^verbatim>\<open>containers/*/index.js\<close>: what each calls when it is
  mounted, after every render and when it is removed, and what it shows. Every update of the
  container renders the mounted page, whose \<^verbatim>\<open>componentDidUpdate\<close> calls the container again;
  a page settles when that call finds nothing left to do.
\<close>

section \<open>Life cycle\<close>

datatype page =
    DashboardPage | BalancesPage | TradeSignalsPage
  | LiquidityNowPage ex_state | VolumeNowPage ex_state | PLPage ex_state

definition opt_jsv :: "string option \<Rightarrow> jsv" where
  "opt_jsv v = (case v of None \<Rightarrow> JUndef | Some x \<Rightarrow> JStr x)"

definition LiquidityNow_updateSubscription :: "ex_state \<Rightarrow> op list" where
  "LiquidityNow_updateSubscription ex =
     [UpdateLiquidity (JStr (ex_exchangeName ex)) (JStr (ex_currencyCodePair ex))]"

definition VolumeNow_updateSubscription :: "ex_state \<Rightarrow> op list" where
  "VolumeNow_updateSubscription ex =
     (if truthy_str (ex_exchangeName ex) \<and> truthy_str (ex_currencyCodePair ex)
      then [UpdateVolume (JStr (ex_exchangeName ex)) (JStr (ex_currencyCodePair ex))] else [])"

definition PL_updateSubscription :: "ex_state \<Rightarrow> op list" where
  "PL_updateSubscription ex =
     (if truthy (opt_jsv (ex_strategyName ex)) \<and> truthy_str (ex_exchangeName ex)
         \<and> truthy_str (ex_currencyCodePair ex)
      then [UpdatePL (opt_jsv (ex_strategyName ex)) (JStr (ex_exchangeName ex)) (JStr (ex_currencyCodePair ex))]
      else [])"

text \<open>\<^verbatim>\<open>componentDidMount\<close> and \<^verbatim>\<open>componentDidUpdate\<close> make the same call on all six pages.\<close>

fun page_didUpdate :: "page \<Rightarrow> op list" where
  "page_didUpdate DashboardPage = [SubscribeDashboard]"
| "page_didUpdate BalancesPage = [SubscribeBalances]"
| "page_didUpdate TradeSignalsPage = [SubscribeTradeSignals]"
| "page_didUpdate (LiquidityNowPage ex) = LiquidityNow_updateSubscription ex"
| "page_didUpdate (VolumeNowPage ex) = VolumeNow_updateSubscription ex"
| "page_didUpdate (PLPage ex) = PL_updateSubscription ex"

fun page_didMount :: "page \<Rightarrow> op list" where
  "page_didMount p = page_didUpdate p"

fun page_willUnmount :: "page \<Rightarrow> op list" where
  "page_willUnmount DashboardPage = [UnsubscribeDashboard]"
| "page_willUnmount BalancesPage = [UnsubscribeBalances]"
| "page_willUnmount TradeSignalsPage = [UnsubscribeTradeSignals]"
| "page_willUnmount (LiquidityNowPage ex) = [UnsubscribeLiquidity]"
| "page_willUnmount (VolumeNowPage ex) = [UnsubscribeVolume]"
| "page_willUnmount (PLPage ex) = [UnsubscribePL]"

text \<open>The loop while a page is mounted: every state update renders it.\<close>

definition mounted :: "(jsv \<Rightarrow> jsv res) \<Rightarrow> page \<Rightarrow> loop \<Rightarrow> loop" where
  "mounted decode p l = task decode (PageCalls (page_didMount p)) l"

fun run_page :: "page \<Rightarrow> nat list \<Rightarrow> loop \<Rightarrow> loop" where
  "run_page p [] l = l"
| "run_page p (i # is) l = run_page p is (resume i (page_didUpdate p) l)"

section \<open>Pages that subscribe on every render\<close>

text \<open>
  A subscription that is repeated whatever the state says: on a live connection each applied
  update starts the next one.
\<close>

definition churning :: "patch \<Rightarrow> loop \<Rightarrow> bool" where
  "churning p l \<longleftrightarrow> live (lp_ws l)
     \<and> (\<forall>th \<in> set (lp_threads l). th \<in> {[], [FInvokeEnd], [FSet p, FInvokeEnd]})
     \<and> [FSet p, FInvokeEnd] \<in> set (lp_threads l)"

lemma churning_not_idle: "churning p l \<Longrightarrow> \<not> idle l"
  by (auto simp: churning_def idle_def list_all_iff)

locale repeated_subscription =
  fixes sub_op :: op and sub_patch :: patch and sub_method :: string
  assumes sub_call: "call_op sub_op s = oneTimeInvoke sub_patch sub_method [] s"
    and sub_connected: "ws_isConnected (apply_patch sub_patch st) = ws_isConnected st"
begin

lemma sub_live:
  assumes "live s"
  shows "call_all [sub_op] s = ([[FSet sub_patch, FInvokeEnd]],
    s\<lparr>ws_isInvokeInProgress := True, ws_sent := ws_sent s @ [invoke_text sub_method []]\<rparr>)"
  using assms by (simp add: sub_call oneTimeInvoke_live state_of_def)

lemma churning_resume:
  assumes "churning sub_patch l"
  shows "churning sub_patch (resume i [sub_op] l)"
proof (cases "if i < length (lp_threads l) then lp_threads l ! i else []")
  case Nil
  with assms show ?thesis by (simp add: resume_def)
next
  case (Cons f fs)
  then have i: "i < length (lp_threads l)" "lp_threads l ! i = f # fs" by (simp_all split: if_splits)
  then have "f # fs \<in> set (lp_threads l)" by (metis nth_mem)
  with assms have "f # fs = [FInvokeEnd] \<or> f # fs = [FSet sub_patch, FInvokeEnd]"
    by (auto simp: churning_def)
  then show ?thesis
  proof
    assume end_frame: "f # fs = [FInvokeEnd]"
    have "[FSet sub_patch, FInvokeEnd] \<in> set ((lp_threads l)[i := []])"
    proof -
      obtain j where j: "j < length (lp_threads l)" "lp_threads l ! j = [FSet sub_patch, FInvokeEnd]"
        using assms by (auto simp: churning_def in_set_conv_nth)
      with i end_frame have "j \<noteq> i" by auto
      with j show ?thesis by (metis length_list_update nth_list_update_neq nth_mem)
    qed
    moreover have "set ((lp_threads l)[i := []]) \<subseteq> insert [] (set (lp_threads l))"
      by (rule set_update_subset_insert)
    ultimately show ?thesis
      using assms i end_frame by (auto simp: churning_def resume_def live_def)
  next
    assume set_frame: "f # fs = [FSet sub_patch, FInvokeEnd]"
    let ?t = "(lp_ws l)\<lparr>ws_st := apply_patch sub_patch (ws_st (lp_ws l))\<rparr>"
    have t: "live ?t" using assms by (simp add: churning_def live_def sub_connected)
    have "set ((lp_threads l)[i := [FInvokeEnd]]) \<subseteq> insert [FInvokeEnd] (set (lp_threads l))"
      by (rule set_update_subset_insert)
    moreover have "resume i [sub_op] l = \<lparr>lp_ws = snd (call_all [sub_op] ?t),
        lp_threads = (lp_threads l)[i := [FInvokeEnd]] @ fst (call_all [sub_op] ?t)\<rparr>"
      using i set_frame by (simp add: resume_def split_beta Let_def del: call_all.simps)
    moreover have "live (snd (call_all [sub_op] ?t))"
      using t unfolding sub_live [OF t] by (simp add: live_def)
    ultimately show ?thesis
      using assms unfolding sub_live [OF t] by (auto simp: churning_def)
  qed
qed

lemma churning_start:
  assumes "live (lp_ws l)"
  shows "churning sub_patch (task decode (PageCalls [sub_op]) l)"
  using assms sub_live [OF assms]
  by (simp add: task_def churning_def live_def del: call_all.simps)

end

interpretation dashboard_sub: repeated_subscription SubscribeDashboard PSubDashboard "''SubscribeDashboard''"
  by unfold_locales (simp_all add: subscribeDashboard_def retryInvoke_def)

interpretation signals_sub: repeated_subscription SubscribeTradeSignals PSubSignals "''SubscribeTradeSignals''"
  by unfold_locales (simp_all add: subscribeTradeSignals_def retryInvoke_def)

lemma run_page_churning:
  assumes "churning PSubDashboard l"
  shows "churning PSubDashboard (run_page DashboardPage is l)"
  using assms by (induction "is" arbitrary: l) (simp_all add: dashboard_sub.churning_resume)

lemma run_page_churning_signals:
  assumes "churning PSubSignals l"
  shows "churning PSubSignals (run_page TradeSignalsPage is l)"
  using assms by (induction "is" arbitrary: l) (simp_all add: signals_sub.churning_resume)

text \<open>
  C39: the dashboard and the trade signals page never settle. Mounted on a live connection, in
  whatever order the pending work is resumed, another subscription is always under way: each one
  that is recorded renders the page, which subscribes again without looking at the state.
\<close>

theorem unguarded_pages_never_settle:
  assumes "live (lp_ws l)"
  shows "\<not> idle (run_page DashboardPage is (mounted decode DashboardPage l))
    \<and> \<not> idle (run_page TradeSignalsPage is (mounted decode TradeSignalsPage l))"
  using churning_not_idle [OF run_page_churning [OF dashboard_sub.churning_start [OF assms]]]
    churning_not_idle [OF run_page_churning_signals [OF signals_sub.churning_start [OF assms]]]
  by (simp add: mounted_def)

definition demo_idle :: loop where
  "demo_idle = \<lparr>lp_ws = demo_ws, lp_threads = []\<rparr>"

theorem unguarded_pages_never_settle_witness:
  "\<not> idle (run_page DashboardPage [0, 0, 1, 1, 2] (mounted Inr DashboardPage demo_idle))"
proof -
  have "live (lp_ws demo_idle)" by (simp add: demo_idle_def live_demo_ws)
  from unguarded_pages_never_settle [OF this] show ?thesis by blast
qed

section \<open>Pages that settle\<close>



section \<open>Changing the pair on the liquidity page\<close>

text \<open>Applying an update renders the page, which makes its call at once.\<close>

lemma resume_set:
  assumes "i < length (lp_threads l)" and "lp_threads l ! i = FSet p # fs"
    and "call_op o1 ((lp_ws l)\<lparr>ws_st := apply_patch p (ws_st (lp_ws l))\<rparr>) = (e, gs, t)"
  shows "resume i [o1] l = \<lparr>lp_ws = t, lp_threads = (lp_threads l)[i := fs] @ [if e = None then gs else []]\<rparr>"
  using assms by (simp add: resume_def thread_of_def state_of_def)

definition liquidity_args :: "jsv \<Rightarrow> jsv \<Rightarrow> jsv list" where
  "liquidity_args x c =
     [case json_stringify (JObj [(''exchangeId'', x), (''currencyPair'', c)]) of
        None \<Rightarrow> JUndef | Some t \<Rightarrow> JStr t]"

lemma update_other_key:
  assumes "live s" and "k = getSubscribeString [x, c]" and "ws_subscribedLiquidity (ws_st s) \<noteq> k"
  shows "updateLiquiditySubscription x c s =
    (if ws_subscribedLiquidity (ws_st s) = [] then (None, [FSubscribeLiquidity k x c], s)
     else (None, [FSet PUnsubLiquidity, FInvokeEnd, FSubscribeLiquidity k x c],
       s\<lparr>ws_isInvokeInProgress := True,
         ws_sent := ws_sent s @ [invoke_text ''UnsubscribeLiquidity'' (codes_of (ws_subscribedLiquidity (ws_st s)))]\<rparr>))"
  using assms
  by (simp add: updateLiquiditySubscription_def unsubscribeLiquidity_def retryInvoke_def
      oneTimeInvoke_live codes_of_def Let_def)

lemma subscribe_live:
  assumes "live s" and "k \<noteq> []"
  shows "subscribeLiquidity k x c s = (None, [FSet (PSubLiquidity k x c), FInvokeEnd],
    s\<lparr>ws_isInvokeInProgress := True,
      ws_sent := ws_sent s @ [invoke_text ''SubscribeLiquidity'' (liquidity_args x c)]\<rparr>)"
  using assms by (simp add: subscribeLiquidity_def retryInvoke_def oneTimeInvoke_live liquidity_args_def)

text \<open>
  Changing the pair on the liquidity page subscribes twice. While the first call waits for its
  unsubscription to be recorded, that record renders the page, whose own call sees no
  subscription and sends one; then the first call goes on and sends the same one again.
\<close>

theorem liquidity_page_subscribes_twice:
  assumes "live (lp_ws l)" and "k0 = ws_subscribedLiquidity (ws_st (lp_ws l))" and "k0 \<noteq> []"
    and "x = JStr (ex_exchangeName ex)" and "c = JStr (ex_currencyCodePair ex)"
    and "k = getSubscribeString [x, c]" and "k \<noteq> []" and "k \<noteq> k0"
    and "l' = run_page (LiquidityNowPage ex) [0, 1, 0, 0] (mounted decode (LiquidityNowPage ex) l)"
  shows "ws_sent (lp_ws l') = ws_sent (lp_ws l)
    @ [invoke_text ''UnsubscribeLiquidity'' (codes_of k0),
       invoke_text ''SubscribeLiquidity'' (liquidity_args x c),
       invoke_text ''SubscribeLiquidity'' (liquidity_args x c)]"
proof -
  let ?s = "lp_ws l" and ?o = "UpdateLiquidity x c"
  let ?u = "invoke_text ''UnsubscribeLiquidity'' (codes_of k0)"
    and ?j = "invoke_text ''SubscribeLiquidity'' (liquidity_args x c)"
  have o: "page_didUpdate (LiquidityNowPage ex) = [?o]"
    using assms(4,5) by (simp add: LiquidityNow_updateSubscription_def)
  define s1 where "s1 = ?s\<lparr>ws_isInvokeInProgress := True, ws_sent := ws_sent ?s @ [?u]\<rparr>"
  define s2 where "s2 = s1\<lparr>ws_st := apply_patch PUnsubLiquidity (ws_st s1)\<rparr>"
  define s3 where "s3 = s2\<lparr>ws_isInvokeInProgress := True, ws_sent := ws_sent s2 @ [?j]\<rparr>"
  define s4 where "s4 = s3\<lparr>ws_isInvokeInProgress := False\<rparr>"
  have live: "live s2" "live s4" using assms(1) by (simp_all add: s1_def s2_def s3_def s4_def live_def)
  have start: "mounted decode (LiquidityNowPage ex) l
      = \<lparr>lp_ws = s1, lp_threads = [[FSet PUnsubLiquidity, FInvokeEnd, FSubscribeLiquidity k x c]]\<rparr>"
    using update_other_key [OF assms(1,6)] assms(2,3,8) o
    by (simp add: mounted_def task_def state_of_def s1_def)
  have "call_op ?o s2 = (None, [FSubscribeLiquidity k x c], s2)"
    using update_other_key [OF live(1) assms(6)] assms(7) by (simp add: s2_def)
  then have 1: "resume 0 [?o] \<lparr>lp_ws = s1, lp_threads = [[FSet PUnsubLiquidity, FInvokeEnd, FSubscribeLiquidity k x c]]\<rparr>
      = \<lparr>lp_ws = s2, lp_threads = [[FInvokeEnd, FSubscribeLiquidity k x c], [FSubscribeLiquidity k x c]]\<rparr>"
    using resume_set [of 0 "\<lparr>lp_ws = s1, lp_threads = [[FSet PUnsubLiquidity, FInvokeEnd, FSubscribeLiquidity k x c]]\<rparr>"
        PUnsubLiquidity "[FInvokeEnd, FSubscribeLiquidity k x c]" ?o None "[FSubscribeLiquidity k x c]" s2]
    by (simp add: s2_def del: call_op.simps apply_patch.simps)
  have 2: "resume 1 [?o] \<lparr>lp_ws = s2, lp_threads = [[FInvokeEnd, FSubscribeLiquidity k x c], [FSubscribeLiquidity k x c]]\<rparr>
      = \<lparr>lp_ws = s3, lp_threads = [[FInvokeEnd, FSubscribeLiquidity k x c], [FSet (PSubLiquidity k x c), FInvokeEnd]]\<rparr>"
    by (simp add: resume_def subscribe_live [OF live(1) assms(7)] s3_def)
  have 3: "resume 0 [?o] \<lparr>lp_ws = s3, lp_threads = [[FInvokeEnd, FSubscribeLiquidity k x c], th]\<rparr>
      = \<lparr>lp_ws = s4, lp_threads = [[FSubscribeLiquidity k x c], th]\<rparr>" for th
    by (simp add: resume_def s4_def)
  have 4: "lp_ws (resume 0 [?o] \<lparr>lp_ws = s4, lp_threads = [[FSubscribeLiquidity k x c], th]\<rparr>)
      = s4\<lparr>ws_isInvokeInProgress := True, ws_sent := ws_sent s4 @ [?j]\<rparr>" for th
    by (simp add: resume_def subscribe_live [OF live(2) assms(7)])
  show ?thesis
    unfolding assms(9) run_page.simps o start 1 2 3 4 by (simp add: s1_def s2_def s3_def s4_def)
qed

theorem liquidity_page_subscribes_twice_witness:
  "length (filter (\<lambda>t. t = invoke_text ''SubscribeLiquidity'' (liquidity_args (JStr ''B'') (JStr ''Y/Z'')))
     (ws_sent (lp_ws (run_page (LiquidityNowPage (ex_initial\<lparr>ex_exchangeName := ''B'', ex_currencyCodePair := ''Y/Z''\<rparr>))
       [0, 1, 0, 0]
       (mounted Inr (LiquidityNowPage (ex_initial\<lparr>ex_exchangeName := ''B'', ex_currencyCodePair := ''Y/Z''\<rparr>))
         \<lparr>lp_ws = demo_ws\<lparr>ws_st := (ws_st demo_ws)\<lparr>ws_subscribedLiquidity := ''A|X/Y''\<rparr>\<rparr>, lp_threads = []\<rparr>))))) = 2"
proof -
  let ?l = "\<lparr>lp_ws = demo_ws\<lparr>ws_st := (ws_st demo_ws)\<lparr>ws_subscribedLiquidity := ''A|X/Y''\<rparr>\<rparr>, lp_threads = []\<rparr>"
  have "live (lp_ws ?l)" using live_demo_ws by (simp add: live_def)
  moreover have "getSubscribeString [JStr ''B'', JStr ''Y/Z''] = ''B|Y/Z''" by code_simp
  moreover have "ws_sent demo_ws = []" by (simp add: demo_ws_def)
  moreover have "invoke_text ''UnsubscribeLiquidity'' (codes_of ''A|X/Y'')
      \<noteq> invoke_text ''SubscribeLiquidity'' (liquidity_args (JStr ''B'') (JStr ''Y/Z''))"
    by (simp add: invoke_text_def)
  ultimately show ?thesis
    using liquidity_page_subscribes_twice [of ?l "''A|X/Y''" "JStr ''B''"
        "ex_initial\<lparr>ex_exchangeName := ''B'', ex_currencyCodePair := ''Y/Z''\<rparr>" "JStr ''Y/Z''" "''B|Y/Z''", OF _ _ _ _ _ _ _ _ refl]
    by simp
qed

end
