(* ===== verification/Ws_Settle.thy ===== *)
theory Ws_Settle
  imports Ws_Pages
begin

text \<open>
  The pages with a key settle. While a page is mounted every state update renders it and it calls
  the container again, so several calls are in progress at once and their frames may be resumed in
  any order. Whatever the order, the run ends, and it ends subscribed to the key of the page.
\<close>

section \<open>Runs of a mounted page\<close>

text \<open>A step resumes a thread that has something left to do; an applied update renders the page.\<close>

inductive page_step :: "page \<Rightarrow> loop \<Rightarrow> loop \<Rightarrow> bool" for p where
  page_step: "i < length (lp_threads l) \<Longrightarrow> lp_threads l ! i \<noteq> [] \<Longrightarrow>
    page_step p l (resume i (page_didUpdate p) l)"

lemma idle_iff_stuck: "idle l \<longleftrightarrow> (\<nexists>l'. page_step p l l')"
proof
  assume "idle l"
  then show "\<nexists>l'. page_step p l l'" by (auto simp: idle_def list_all_length elim!: page_step.cases)
next
  assume "\<nexists>l'. page_step p l l'"
  then show "idle l" using page_step [of _ l p] by (auto simp: idle_def list_all_length)
qed

text \<open>A quantity that falls with every step from the states of an invariant bounds every run.\<close>

locale falling_machine = invariant_machine +
  fixes weight :: "'s \<Rightarrow> nat"
  assumes weight_step: "inv s \<Longrightarrow> step s t \<Longrightarrow> weight t < weight s"
begin

lemma no_infinite_run:
  assumes "init (f 0)" and "\<And>n. step (f n) (f (Suc n))"
  shows False
proof -
  have inv: "inv (f n)" for n
    by (induction n) (use assms in \<open>auto intro: inv_init inv_step\<close>)
  have "weight (f (Suc n)) < weight (f n)" for n by (rule weight_step [OF inv assms(2)])
  then show False
    using wf_no_infinite_down_chainE [OF wf_measure [of weight], of f] by auto
qed

lemma run_ends: "inv s \<Longrightarrow> \<exists>t. step\<^sup>*\<^sup>* s t \<and> (\<nexists>u. step t u)"
proof (induction "weight s" arbitrary: s rule: less_induct)
  case less
  show ?case
  proof (cases "\<exists>u. step s u")
    case True
    then obtain u where u: "step s u" by blast
    with less obtain t where "step\<^sup>*\<^sup>* u t" "\<nexists>v. step t v"
      by (meson inv_step weight_step)
    with u show ?thesis by (meson converse_rtranclp_into_rtranclp)
  qed blast
qed

end

section \<open>The states of a run\<close>

lemma length_filter_update:
  assumes "i < length xs"
  shows "length (filter P (xs[i := x])) + (if P (xs ! i) then 1 else 0)
    = length (filter P xs) + (if P x then 1 else 0)"
  using assms
proof (induction xs arbitrary: i)
  case (Cons y ys)
  show ?case
  proof (cases i)
    case (Suc j)
    with Cons.prems Cons.IH [of j] show ?thesis by (simp split: if_splits)
  qed simp
qed simp

lemma in_set_update: "y \<in> set xs \<Longrightarrow> y \<noteq> xs ! i \<Longrightarrow> y \<in> set (xs[i := x])"
  by (metis in_set_conv_nth length_list_update nth_list_update_neq)

locale channel_page = keyed_channel current unsub sub update rest key leave leave_method leave_args
    join join_method join_args
  for current :: "ws_state \<Rightarrow> string" and unsub and sub :: "string \<Rightarrow> 'a \<Rightarrow> ws \<Rightarrow> segment"
    and update and rest and key and leave and leave_method and leave_args
    and join and join_method and join_args +
  fixes call :: "'a \<Rightarrow> op"
  assumes call_step: "call_op (call a) s = update a s"
    and rest_frame: "rest k a \<noteq> FInvokeEnd" "rest k a \<noteq> FSet p"
begin

definition join_text :: "'a \<Rightarrow> string" where
  "join_text a = invoke_text join_method (join_args a)"

definition leave_text :: "string \<Rightarrow> string" where
  "leave_text k = invoke_text leave_method (leave_args k)"

text \<open>The threads in which the subscription is still to be sent, and those that have sent it.\<close>

definition pending :: "'a \<Rightarrow> frame list \<Rightarrow> bool" where
  "pending a th \<longleftrightarrow> th = [FInvokeEnd, rest (key a) a] \<or> th = [rest (key a) a]"

definition joining :: "'a \<Rightarrow> frame list \<Rightarrow> bool" where
  "joining a th \<longleftrightarrow> th = [FSet (join (key a) a), FInvokeEnd]"

definition finished :: "frame list \<Rightarrow> bool" where
  "finished th \<longleftrightarrow> th = [FInvokeEnd] \<or> th = []"

text \<open>
  Before the old key is left, and after: \<open>n\<close> subscriptions were sent and \<open>m\<close> are still to be sent.
\<close>

definition leaving :: "'a \<Rightarrow> string list \<Rightarrow> loop \<Rightarrow> bool" where
  "leaving a msgs l \<longleftrightarrow> live (lp_ws l) \<and> current (ws_st (lp_ws l)) \<noteq> key a \<and> ws_sent (lp_ws l) = msgs
     \<and> lp_threads l = [[FSet leave, FInvokeEnd, rest (key a) a]]"

definition working :: "'a \<Rightarrow> string list \<Rightarrow> nat \<Rightarrow> loop \<Rightarrow> bool" where
  "working a msgs m l \<longleftrightarrow> live (lp_ws l)
     \<and> (\<forall>th \<in> set (lp_threads l). pending a th \<or> joining a th \<or> finished th)
     \<and> length (filter (pending a) (lp_threads l)) \<le> m
     \<and> ws_sent (lp_ws l) = msgs @ replicate (m - length (filter (pending a) (lp_threads l))) (join_text a)
     \<and> (if current (ws_st (lp_ws l)) = key a
        then length (filter (pending a) (lp_threads l)) < m
        else current (ws_st (lp_ws l)) = []
          \<and> (\<exists>th \<in> set (lp_threads l). pending a th \<or> joining a th)
          \<and> (\<forall>th \<in> set (lp_threads l). joining a th \<longrightarrow> length (filter (pending a) (lp_threads l)) < m))"

definition frame_weight :: "'a \<Rightarrow> frame \<Rightarrow> nat" where
  "frame_weight a f = (if f = FSet leave then 5 else if f = rest (key a) a then 3 else 1)"

definition loop_weight :: "'a \<Rightarrow> loop \<Rightarrow> nat" where
  "loop_weight a l = sum_list (map (\<lambda>th. sum_list (map (frame_weight a) th)) (lp_threads l))"

lemma join_not_leave: "key a \<noteq> [] \<Longrightarrow> join (key a) a \<noteq> leave"
  using leave_current join_current by metis

lemma frame_weights:
  "frame_weight a FInvokeEnd = 1" "frame_weight a (rest (key a) a) = 3" "frame_weight a (FSet leave) = 5"
  "key a \<noteq> [] \<Longrightarrow> frame_weight a (FSet (join (key a) a)) = 1"
  using join_not_leave [of a] rest_frame(1) [of "key a" a] rest_frame(2) [of "key a" a]
  by (simp_all add: frame_weight_def) metis+

lemma loop_weight_update:
  assumes "i < length (lp_threads l)"
  shows "loop_weight a \<lparr>lp_ws = s, lp_threads = (lp_threads l)[i := th] @ new\<rparr> + sum_list (map (frame_weight a) (lp_threads l ! i))
    = loop_weight a l + sum_list (map (frame_weight a) th) + loop_weight a \<lparr>lp_ws = s, lp_threads = new\<rparr>"
  using assms sum_list_update [of i "map (\<lambda>th. sum_list (map (frame_weight a) th)) (lp_threads l)"]
    member_le_sum_list [of "sum_list (map (frame_weight a) (lp_threads l ! i))"
      "map (\<lambda>th. sum_list (map (frame_weight a) th)) (lp_threads l)"]
  by (simp add: loop_weight_def map_update)

text \<open>What one step does to each kind of thread.\<close>

lemma resume_end:
  assumes "i < length (lp_threads l)" and "lp_threads l ! i = FInvokeEnd # fs"
  shows "resume i os l
    = \<lparr>lp_ws = (lp_ws l)\<lparr>ws_isInvokeInProgress := False\<rparr>, lp_threads = (lp_threads l)[i := fs] @ []\<rparr>"
  using assms by (simp add: resume_def)

lemma resume_rest:
  assumes "i < length (lp_threads l)" and "lp_threads l ! i = [rest (key a) a]" and "live (lp_ws l)" and "key a \<noteq> []"
  shows "resume i os l
    = \<lparr>lp_ws = (lp_ws l)\<lparr>ws_isInvokeInProgress := True, ws_sent := ws_sent (lp_ws l) @ [join_text a]\<rparr>,
       lp_threads = (lp_threads l)[i := [FSet (join (key a) a), FInvokeEnd]] @ []\<rparr>"
proof -
  have "\<not> is_set (rest (key a) a)" using rest_frame(2) by (cases "rest (key a) a") auto
  with assms show ?thesis
    by (simp add: resume_def rest_step sub_step oneTimeInvoke_live join_text_def)
qed

lemma resume_join:
  assumes "i < length (lp_threads l)" and "lp_threads l ! i = [FSet (join (key a) a), FInvokeEnd]"
  shows "resume i [call a] l
    = \<lparr>lp_ws = (lp_ws l)\<lparr>ws_st := apply_patch (join (key a) a) (ws_st (lp_ws l))\<rparr>,
       lp_threads = (lp_threads l)[i := [FInvokeEnd]] @ [[]]\<rparr>"
  using assms by (simp add: resume_def call_step update_step join_current state_of_def thread_of_def)

lemma leaving_step:
  assumes "leaving a msgs l" and "key a \<noteq> []" and "i < length (lp_threads l)"
  shows "working a msgs 2 (resume i [call a] l)"
    and "loop_weight a (resume i [call a] l) < loop_weight a l"
proof -
  let ?s = "(lp_ws l)\<lparr>ws_st := apply_patch leave (ws_st (lp_ws l))\<rparr>"
  have ths: "lp_threads l = [[FSet leave, FInvokeEnd, rest (key a) a]]" "i = 0"
    and l: "live (lp_ws l)" "ws_sent (lp_ws l) = msgs"
    using assms(1,3) by (simp_all add: leaving_def)
  have "update a ?s = (None, [rest (key a) a], ?s)"
    using assms(2) by (simp add: update_step unsub_step leave_current)
  then have run: "resume i [call a] l
      = \<lparr>lp_ws = ?s, lp_threads = [[FInvokeEnd, rest (key a) a], [rest (key a) a]]\<rparr>"
    by (simp add: resume_def ths call_step state_of_def thread_of_def)
  have "live ?s" using l(1) by (simp add: live_def keeps_connection)
  then show "working a msgs 2 (resume i [call a] l)"
    using l(2) assms(2) rest_frame(1) [of "key a" a] rest_frame(2) [of "key a" a]
    by (auto simp: run working_def pending_def joining_def leave_current)
  show "loop_weight a (resume i [call a] l) < loop_weight a l"
    unfolding run by (simp add: loop_weight_def ths(1) frame_weights)
qed

lemma working_step:
  assumes "working a msgs m l" and "key a \<noteq> []" and i: "i < length (lp_threads l)" and "lp_threads l ! i \<noteq> []"
  shows "working a msgs m (resume i [call a] l)"
    and "loop_weight a (resume i [call a] l) < loop_weight a l"
proof -
  let ?ths = "lp_threads l" and ?th = "lp_threads l ! i"
  have live: "live (lp_ws l)" and all: "\<forall>th \<in> set ?ths. pending a th \<or> joining a th \<or> finished th"
    using assms(1) by (simp_all add: working_def)
  note rest_ne [simp] = rest_frame(1) [of "key a" a] rest_frame(2) [of "key a" a]
    rest_frame(1) [of "key a" a, symmetric] rest_frame(2) [of "key a" a, symmetric]
  note kinds = pending_def joining_def finished_def
  have mem: "?th \<in> set ?ths" using i by simp
  have kept: "\<forall>th \<in> set (?ths[i := new] @ more). pending a th \<or> joining a th \<or> finished th"
    if "pending a new \<or> joining a new \<or> finished new" "set more \<subseteq> {[]}" for new more
    using all that set_update_subset_insert [of ?ths i new] by (auto simp: finished_def)
  have cnt: "length (filter (pending a) (?ths[i := new])) + (if pending a ?th then 1 else 0)
      = length (filter (pending a) ?ths) + (if pending a new then 1 else 0)" for new
    by (rule length_filter_update [OF i])
  from all mem assms(4) consider "?th = [FInvokeEnd, rest (key a) a]" | "?th = [rest (key a) a]"
    | "?th = [FSet (join (key a) a), FInvokeEnd]" | "?th = [FInvokeEnd]"
    by (auto simp: kinds)
  then have "working a msgs m (resume i [call a] l) \<and> loop_weight a (resume i [call a] l) < loop_weight a l"
  proof cases
    case 1
    have "\<exists>th \<in> set (?ths[i := [rest (key a) a]]). pending a th \<or> joining a th"
      using i set_update_memI [of i ?ths "[rest (key a) a]"] by (auto simp: pending_def)
    with 1 assms(1) i kept [of "[rest (key a) a]" "[]"] cnt [of "[rest (key a) a]"]
      set_update_subset_insert [of ?ths i "[rest (key a) a]"] show ?thesis
      using loop_weight_update [OF i, of a _ "[rest (key a) a]" "[]"]
      by (auto simp: resume_end working_def live_def kinds frame_weights loop_weight_def)
  next
    case 2
    let ?new = "[FSet (join (key a) a), FInvokeEnd]"
    have "\<exists>th \<in> set (?ths[i := ?new]). pending a th \<or> joining a th"
      using i set_update_memI [of i ?ths ?new] by (auto simp: joining_def)
    moreover have "Suc (length (filter (pending a) (?ths[i := ?new]))) = length (filter (pending a) ?ths)"
      using cnt [of ?new] 2 by (simp add: kinds)
    moreover have "replicate (m - k) x @ [x] = replicate (m - j) x" if "Suc j = k" "k \<le> m" for j k and x :: string
      using that Suc_diff_le [of k m] by (auto simp: replicate_append_same Suc_diff_Suc simp flip: replicate_Suc)
    ultimately show ?thesis
      using 2 assms(1,2) i kept [of ?new "[]"] loop_weight_update [OF i, of a _ ?new "[]"]
      by (auto simp: resume_rest live working_def live_def kinds frame_weights loop_weight_def)
  next
    case 3
    have "length (filter (pending a) ?ths) < m"
      using assms(1) mem 3 by (auto simp: working_def joining_def split: if_splits)
    then show ?thesis
      using 3 assms(1,2) i kept [of "[FInvokeEnd]" "[[]]"] cnt [of "[FInvokeEnd]"]
        loop_weight_update [OF i, of a _ "[FInvokeEnd]" "[[]]"]
      by (auto simp: resume_join working_def live_def kinds frame_weights loop_weight_def join_current keeps_connection)
  next
    case 4
    have "\<exists>th \<in> set (?ths[i := []]). pending a th \<or> joining a th" if "\<exists>th \<in> set ?ths. pending a th \<or> joining a th"
      using that 4 in_set_update [of _ ?ths i "[]"] by (fastforce simp: kinds)
    with 4 assms(1) i kept [of "[]" "[]"] cnt [of "[]"] set_update_subset_insert [of ?ths i "[]"] show ?thesis
      using loop_weight_update [OF i, of a _ "[]" "[]"]
      by (auto simp: resume_end working_def live_def kinds frame_weights loop_weight_def)
  qed
  then show "working a msgs m (resume i [call a] l)" "loop_weight a (resume i [call a] l) < loop_weight a l"
    by simp_all
qed

text \<open>The runs of a page that works on the key of \<open>a\<close>.\<close>

definition settling :: "'a \<Rightarrow> page \<Rightarrow> string list \<Rightarrow> nat \<Rightarrow> loop \<Rightarrow> bool" where
  "settling a p msgs m l \<longleftrightarrow> key a \<noteq> [] \<and> page_didUpdate p = [call a]
     \<and> (leaving a msgs l \<and> m = 2 \<or> working a msgs m l)"

lemma settling_step:
  assumes "settling a p msgs m l" and "page_step p l l'"
  shows "settling a p msgs m l'" and "loop_weight a l' < loop_weight a l"
proof -
  obtain i where l': "l' = resume i [call a] l" and i: "i < length (lp_threads l)" "lp_threads l ! i \<noteq> []"
    using assms by (auto simp: settling_def elim!: page_step.cases)
  have k: "key a \<noteq> []" and phase: "leaving a msgs l \<and> m = 2 \<or> working a msgs m l"
    using assms(1) by (simp_all add: settling_def)
  show "settling a p msgs m l'" "loop_weight a l' < loop_weight a l"
    using assms(1) phase leaving_step [OF _ k i(1)] working_step [OF _ k i] unfolding l' settling_def by blast+
qed

end

sublocale channel_page \<subseteq> settle: falling_machine "settling a p msgs m" "page_step p" "settling a p msgs m" "loop_weight a"
  for a p msgs m
  by unfold_locales (assumption, rule settling_step(1), assumption+, rule settling_step(2))

context channel_page
begin

lemma settling_start:
  assumes "live (lp_ws l)" and "current (ws_st (lp_ws l)) \<noteq> key a" and "key a \<noteq> []"
    and "page_didUpdate p = [call a]"
  shows "current (ws_st (lp_ws l)) = [] \<Longrightarrow> settling a p (ws_sent (lp_ws l)) 1 (mounted decode p l)"
    and "current (ws_st (lp_ws l)) \<noteq> [] \<Longrightarrow>
      settling a p (ws_sent (lp_ws l) @ [leave_text (current (ws_st (lp_ws l)))]) 2 (mounted decode p l)"
proof -
  have m: "mounted decode p l
      = \<lparr>lp_ws = state_of (update a (lp_ws l)), lp_threads = [thread_of (update a (lp_ws l))]\<rparr>"
    using assms(4) by (simp add: mounted_def task_def call_step)
  show "settling a p (ws_sent (lp_ws l)) 1 (mounted decode p l)" if cur: "current (ws_st (lp_ws l)) = []"
  proof -
    have "update a (lp_ws l) = (None, [rest (key a) a], lp_ws l)"
      using cur assms(2) by (simp add: update_step unsub_step)
    with cur assms show ?thesis
      using rest_frame(1) [of "key a" a] rest_frame(2) [of "key a" a]
      by (auto simp: m settling_def working_def pending_def joining_def state_of_def thread_of_def)
  qed
  show "settling a p (ws_sent (lp_ws l) @ [leave_text (current (ws_st (lp_ws l)))]) 2 (mounted decode p l)"
    if cur: "current (ws_st (lp_ws l)) \<noteq> []"
    using cur assms
    by (simp add: m settling_def leaving_def update_step unsub_step oneTimeInvoke_live state_of_def
        thread_of_def leave_text_def live_def)
qed

lemma settling_idle:
  assumes "settling a p msgs m l" and "idle l"
  shows "live (lp_ws l)" and "current (ws_st (lp_ws l)) = key a"
    and "ws_sent (lp_ws l) = msgs @ replicate m (join_text a)"
proof -
  have none: "filter (pending a) (lp_threads l) = []" "\<not> (\<exists>th \<in> set (lp_threads l). pending a th \<or> joining a th)"
    using assms(2) by (auto simp: idle_def list_all_iff filter_empty_conv pending_def joining_def)
  have "\<not> leaving a msgs l" using assms(2) by (auto simp: leaving_def idle_def)
  with assms(1) have "working a msgs m l" by (simp add: settling_def)
  with none show "live (lp_ws l)" "current (ws_st (lp_ws l)) = key a"
    "ws_sent (lp_ws l) = msgs @ replicate m (join_text a)"
    by (auto simp: working_def split: if_splits)
qed

text \<open>
  Every order of resuming ends, and every end is the same: subscribed to the key of the page, the
  old key left once, the new one subscribed once, or twice when there was an old one.
\<close>

lemma page_settles:
  assumes "live (lp_ws l)" and "current (ws_st (lp_ws l)) \<noteq> key a" and "key a \<noteq> []"
    and "page_didUpdate p = [call a]"
  shows "\<not> (\<exists>f. f 0 = mounted decode p l \<and> (\<forall>n. page_step p (f n) (f (Suc n))))"
    and "(page_step p)\<^sup>*\<^sup>* (mounted decode p l) l' \<Longrightarrow> idle l' \<Longrightarrow>
      live (lp_ws l') \<and> current (ws_st (lp_ws l')) = key a
      \<and> ws_sent (lp_ws l') = ws_sent (lp_ws l)
          @ (if current (ws_st (lp_ws l)) = [] then [join_text a]
             else [leave_text (current (ws_st (lp_ws l))), join_text a, join_text a])"
proof -
  obtain msgs m where start: "settling a p msgs m (mounted decode p l)"
    and sent: "msgs @ replicate m (join_text a) = ws_sent (lp_ws l)
          @ (if current (ws_st (lp_ws l)) = [] then [join_text a]
             else [leave_text (current (ws_st (lp_ws l))), join_text a, join_text a])"
    using settling_start [OF assms] by (cases "current (ws_st (lp_ws l)) = []") (fastforce simp: numeral_2_eq_2)+
  show "\<not> (\<exists>f. f 0 = mounted decode p l \<and> (\<forall>n. page_step p (f n) (f (Suc n))))"
    using settle.no_infinite_run [of a p msgs m] start by metis
  show "live (lp_ws l') \<and> current (ws_st (lp_ws l')) = key a
      \<and> ws_sent (lp_ws l') = ws_sent (lp_ws l)
          @ (if current (ws_st (lp_ws l)) = [] then [join_text a]
             else [leave_text (current (ws_st (lp_ws l))), join_text a, join_text a])"
    if "(page_step p)\<^sup>*\<^sup>* (mounted decode p l) l'" "idle l'"
    using settling_idle [OF settle.inv_star [OF that(1) start] that(2)] sent by simp
qed

end

section \<open>The three pages\<close>

interpretation liquidity_page: channel_page ws_subscribedLiquidity unsubscribeLiquidity
  "\<lambda>k (x, c). subscribeLiquidity k x c" "\<lambda>(x, c). updateLiquiditySubscription x c"
  "\<lambda>k (x, c). FSubscribeLiquidity k x c" pair_key
  PUnsubLiquidity "''UnsubscribeLiquidity''" codes_of
  "\<lambda>k (x, c). PSubLiquidity k x c" "''SubscribeLiquidity''"
  "\<lambda>(x, c). [case json_stringify (JObj [(''exchangeId'', x), (''currencyPair'', c)]) of
      None \<Rightarrow> JUndef | Some t \<Rightarrow> JStr t]"
  "\<lambda>(x, c). UpdateLiquidity x c"
  by unfold_locales auto

interpretation volume_page: channel_page ws_subscribedVolume unsubscribeVolume
  "\<lambda>k (x, c). subscribeVolume k x c" "\<lambda>(x, c). updateVolumeSubscription x c"
  "\<lambda>k (x, c). FSubscribeVolume k x c" pair_key
  PUnsubVolume "''UnsubscribeVolume''" codes_of
  "\<lambda>k (x, c). PSubVolume k x c" "''SubscribeVolume''" "\<lambda>(x, c). [c, x]"
  "\<lambda>(x, c). UpdateVolume x c"
  by unfold_locales auto

interpretation pl_page: channel_page ws_subscribedPL unsubscribePL
  "\<lambda>k (st, x, c). subscribePL k st x c" "\<lambda>(st, x, c). updatePLSubscription st x c"
  "\<lambda>k (st, x, c). FSubscribePL k st x c" pl_key
  PUnsubPL "''UnsubscribePL''"
  "\<lambda>sub. (let cs = split_on CHR ''|'' sub in [code_at cs 0, code_at cs 1, code_at cs 2, JNum (num_of_int 100)])"
  "\<lambda>k (st, x, c). PSubPL k x c st" "''SubscribePL''" "\<lambda>(st, x, c). [st, c, x, JNum (num_of_int 100)]"
  "\<lambda>(st, x, c). UpdatePL st x c"
  by unfold_locales auto

text \<open>A page whose call finds nothing to do is at its end at once.\<close>

lemma mounted_quiet:
  assumes "page_didUpdate p = [o1]" and "call_op o1 (lp_ws l) = (None, [], lp_ws l)"
    and "(page_step p)\<^sup>*\<^sup>* (mounted decode p l) l'"
  shows "lp_ws l' = lp_ws l" and "\<not> (\<exists>f. f 0 = mounted decode p l \<and> (\<forall>n. page_step p (f n) (f (Suc n))))"
proof -
  have m: "mounted decode p l = \<lparr>lp_ws = lp_ws l, lp_threads = [[]]\<rparr>"
    using assms(1,2) by (simp add: mounted_def task_def state_of_def)
  then have stuck: "\<not> page_step p (mounted decode p l) u" for u
    using idle_iff_stuck [of "mounted decode p l" p] by (auto simp: idle_def)
  have "l' = mounted decode p l"
    using assms(3) by (cases rule: converse_rtranclpE) (use stuck in blast)+
  with m show "lp_ws l' = lp_ws l" by simp
  show "\<not> (\<exists>f. f 0 = mounted decode p l \<and> (\<forall>n. page_step p (f n) (f (Suc n))))"
    using stuck by metis
qed

lemma server_left:
  assumes "server_agrees s"
  shows "server_reads (''UnsubscribeLiquidity|'' @ a) (server_view (ws_sent s)) = server_new"
  using assms unfolding server_agrees_def server_reads_leave by (auto simp: server_new_def split: option.split)

text \<open>
  C12: the liquidity page settles, and the server with it. Mounted on a live connection whose server
  serves what the container believes it watches, the page ends however the calls in progress are
  interleaved, and at the end the server serves exactly the order book of the page.
\<close>

theorem liquidity_page_settles:
  assumes "live (lp_ws l)" and agrees: "server_agrees (lp_ws l)"
    and "ws_subscribedLiquidity (ws_st (lp_ws l)) = [] \<or> watched (ws_st (lp_ws l)) \<noteq> None"
    and x: "x = ex_exchangeName ex" and c: "c = ex_currencyCodePair ex"
    and names: "list_all (\<lambda>w. w \<noteq> [] \<and> CHR ''|'' \<notin> set w) [x, c]"
    and run: "(page_step (LiquidityNowPage ex))\<^sup>*\<^sup>* (mounted decode (LiquidityNowPage ex) l) l'"
  shows "\<not> (\<exists>f. f 0 = mounted decode (LiquidityNowPage ex) l \<and> (\<forall>n. page_step (LiquidityNowPage ex) (f n) (f (Suc n))))
    \<and> (idle l' \<longrightarrow> live (lp_ws l') \<and> watched (ws_st (lp_ws l')) = Some (x, c) \<and> server_agrees (lp_ws l'))"
proof -
  let ?a = "(JStr x, JStr c)" and ?cur = "ws_subscribedLiquidity (ws_st (lp_ws l))"
  have key: "pair_key ?a = x @ CHR ''|'' # c"
    using names codes_of_pair [of x c] by (auto simp: pair_key_def)
  have call: "page_didUpdate (LiquidityNowPage ex) = [UpdateLiquidity (JStr x) (JStr c)]"
    using x c by (simp add: LiquidityNow_updateSubscription_def)
  have split: "split_on CHR ''|'' (x @ CHR ''|'' # c) = [x, c]"
    using names split_on_append_sep [of "CHR ''|''" x c] by (simp add: split_on_no_sep)
  then have watches: "watched st = Some (x, c)" if "ws_subscribedLiquidity st = x @ CHR ''|'' # c" for st
    using that by (simp add: watched_def)
  have json: "json_stringify (JObj [(''exchangeId'', JStr x), (''currencyPair'', JStr c)])
      = Some (text_of (JObj [(''exchangeId'', JStr x), (''currencyPair'', JStr c)]))"
    by (simp add: text_of_def Let_def)
  have texts: "liquidity_page.join_text ?a = liquidity_join_text x c"
    "liquidity_page.leave_text k = ''UnsubscribeLiquidity|'' @ js_to_string (JArr (codes_of k))" for k
    unfolding liquidity_page.join_text_def liquidity_page.leave_text_def
    by (simp_all add: invoke_text_def liquidity_join_text_def json del: json_stringify.simps)
  show ?thesis
  proof (cases "?cur = pair_key ?a")
    case True
    then have "call_op (UpdateLiquidity (JStr x) (JStr c)) (lp_ws l) = (None, [], lp_ws l)"
      using liquidity.update_step [of ?a "lp_ws l"] by simp
    from mounted_quiet [OF call this run] True watches key assms(1) agrees show ?thesis by simp
  next
    case False
    have none: "watched (ws_st (lp_ws l)) = None" if "?cur = []" using that by (simp add: watched_def)
    have call': "page_didUpdate (LiquidityNowPage ex) = [(\<lambda>(x, c). UpdateLiquidity x c) ?a]" using call by simp
    have ne: "pair_key ?a \<noteq> []" using key by simp
    note settles = liquidity_page.page_settles [OF assms(1) False ne call']
    show ?thesis
    proof (intro conjI impI)
      show "\<not> (\<exists>f. f 0 = mounted decode (LiquidityNowPage ex) l \<and> (\<forall>n. page_step (LiquidityNowPage ex) (f n) (f (Suc n))))"
        by (rule settles(1))
    next
      assume "idle l'"
      note at_end = settles(2) [OF run this]
      then show "live (lp_ws l')" and "watched (ws_st (lp_ws l')) = Some (x, c)"
        using watches key by simp_all
      have "server_view (ws_sent (lp_ws l')) = \<lparr>sv_subscribed = Some (x, c), sv_subscriptions = {(x, c)}, sv_stopped = False\<rparr>"
        using at_end agrees none server_left [OF agrees] unfolding texts
        by (simp add: server_agrees_def server_view_append server_reads_join server_new_def split: if_splits)
      then show "server_agrees (lp_ws l')" using at_end watches key by (simp add: server_agrees_def)
    qed
  qed
qed

text \<open>The volume and the profit pages settle in the same way.\<close>

lemma key_not_empty: "ws \<noteq> [] \<Longrightarrow> \<forall>w \<in> set ws. w \<noteq> [] \<Longrightarrow> getSubscribeString (map JStr ws) \<noteq> []"
  using getSubscribeString_join [of ws] join_with_eq_Nil [of "CHR ''|''" ws]
  by (auto simp: list_all_iff)

theorem volume_page_settles:
  assumes "live (lp_ws l)" and "ex_exchangeName ex \<noteq> []" and "ex_currencyCodePair ex \<noteq> []"
    and "(page_step (VolumeNowPage ex))\<^sup>*\<^sup>* (mounted decode (VolumeNowPage ex) l) l'"
  shows "\<not> (\<exists>f. f 0 = mounted decode (VolumeNowPage ex) l \<and> (\<forall>n. page_step (VolumeNowPage ex) (f n) (f (Suc n))))
    \<and> (idle l' \<longrightarrow> ws_subscribedVolume (ws_st (lp_ws l'))
         = getSubscribeString [JStr (ex_exchangeName ex), JStr (ex_currencyCodePair ex)])"
proof -
  let ?a = "(JStr (ex_exchangeName ex), JStr (ex_currencyCodePair ex))"
  have call: "page_didUpdate (VolumeNowPage ex) = [(\<lambda>(x, c). UpdateVolume x c) ?a]"
    using assms(2,3) by (simp add: VolumeNow_updateSubscription_def)
  have key: "pair_key ?a = getSubscribeString [JStr (ex_exchangeName ex), JStr (ex_currencyCodePair ex)]"
    and ne: "pair_key ?a \<noteq> []"
    using assms(2,3) key_not_empty [of "[ex_exchangeName ex, ex_currencyCodePair ex]"] by (simp_all add: pair_key_def)
  show ?thesis
  proof (cases "ws_subscribedVolume (ws_st (lp_ws l)) = pair_key ?a")
    case True
    then have "call_op ((\<lambda>(x, c). UpdateVolume x c) ?a) (lp_ws l) = (None, [], lp_ws l)"
      using volume.update_step [of ?a "lp_ws l"] by simp
    from mounted_quiet [OF call this assms(4)] True key show ?thesis by simp
  next
    case False
    from volume_page.page_settles [OF assms(1) False ne call] assms(4) key show ?thesis by metis
  qed
qed

theorem pl_page_settles:
  assumes "live (lp_ws l)" and "ex_strategyName ex = Some st" and "st \<noteq> []"
    and "ex_exchangeName ex \<noteq> []" and "ex_currencyCodePair ex \<noteq> []"
    and "(page_step (PLPage ex))\<^sup>*\<^sup>* (mounted decode (PLPage ex) l) l'"
  shows "\<not> (\<exists>f. f 0 = mounted decode (PLPage ex) l \<and> (\<forall>n. page_step (PLPage ex) (f n) (f (Suc n))))
    \<and> (idle l' \<longrightarrow> ws_subscribedPL (ws_st (lp_ws l'))
         = getSubscribeString [JStr st, JStr (ex_currencyCodePair ex), JStr (ex_exchangeName ex)])"
proof -
  let ?a = "(JStr st, JStr (ex_exchangeName ex), JStr (ex_currencyCodePair ex))"
  have call: "page_didUpdate (PLPage ex) = [(\<lambda>(st, x, c). UpdatePL st x c) ?a]"
    using assms(2-5) by (simp add: PL_updateSubscription_def opt_jsv_def)
  have key: "pl_key ?a = getSubscribeString [JStr st, JStr (ex_currencyCodePair ex), JStr (ex_exchangeName ex)]"
    and ne: "pl_key ?a \<noteq> []"
    using assms(3-5) key_not_empty [of "[st, ex_currencyCodePair ex, ex_exchangeName ex]"] by (simp_all add: pl_key_def)
  show ?thesis
  proof (cases "ws_subscribedPL (ws_st (lp_ws l)) = pl_key ?a")
    case True
    then have "call_op ((\<lambda>(st, x, c). UpdatePL st x c) ?a) (lp_ws l) = (None, [], lp_ws l)"
      using pl.update_step [of ?a "lp_ws l"] by simp
    from mounted_quiet [OF call this assms(6)] True key show ?thesis by simp
  next
    case False
    from pl_page.page_settles [OF assms(1) False ne call] assms(6) key show ?thesis by metis
  qed
qed

section \<open>A concrete run\<close>

lemma run_page_reach: "(page_step p)\<^sup>*\<^sup>* l (run_page p is l)"
proof (induction "is" arbitrary: l)
  case (Cons i "is")
  have "resume i (page_didUpdate p) l = l \<or> page_step p l (resume i (page_didUpdate p) l)"
  proof (cases "i < length (lp_threads l) \<and> lp_threads l ! i \<noteq> []")
    case True
    then show ?thesis using page_step by blast
  next
    case False
    then show ?thesis by (auto simp: resume_def)
  qed
  with Cons.IH [of "resume i (page_didUpdate p) l"] show ?case
    by (auto intro: converse_rtranclp_into_rtranclp)
qed simp

definition demo_selected :: ex_state where
  "demo_selected = ex_initial\<lparr>ex_exchangeName := ''Binance'', ex_currencyCodePair := ''BTC/USDT''\<rparr>"

theorem liquidity_page_settles_witness:
  "server_agrees (lp_ws (run_page (LiquidityNowPage demo_selected) [0, 0, 0]
     (mounted Inr (LiquidityNowPage demo_selected) demo_idle)))"
proof -
  have "live (lp_ws demo_idle)" "server_agrees (lp_ws demo_idle)" "ws_subscribedLiquidity (ws_st (lp_ws demo_idle)) = []"
    by (simp_all add: demo_idle_def live_demo_ws server_agrees_def,
      simp_all add: demo_ws_def server_view_def server_new_def watched_def emptyState_def)
  moreover have "list_all (\<lambda>w. w \<noteq> [] \<and> CHR ''|'' \<notin> set w)
      [ex_exchangeName demo_selected, ex_currencyCodePair demo_selected]"
    by (simp add: demo_selected_def)
  moreover have "idle (run_page (LiquidityNowPage demo_selected) [0, 0, 0]
      (mounted Inr (LiquidityNowPage demo_selected) demo_idle))"
    unfolding idle_def by code_simp
  ultimately show ?thesis
    using liquidity_page_settles [OF _ _ _ refl refl _ run_page_reach] by blast
qed

end
