(* ===== verification/Trades_View.thy ===== *)
theory Trades_View
  imports Control_Functions
begin

text \<open>
  The table of trades: \<^verbatim>\<open>components/Trades/Trades.js\<close>, which merges the trades the socket sent
  with pages of older ones loaded on demand, and \<^verbatim>\<open>TradeRow.js\<close>, which shows one transaction.
  A transaction is a record of the fields the code reads; its date is the number of milliseconds
  \<^verbatim>\<open>new Date\<close> gives.
\<close>

section \<open>Data\<close>

record trade =
  tr_exchangeOrderId :: "string option"
  tr_exchangeName :: string
  tr_side :: string
  tr_price :: jsv
  tr_amount :: jsv

record transaction =
  tx_id :: string
  tx_dateTime :: int
  tx_side :: string
  tx_price :: jsv
  tx_amount :: jsv
  tx_hedged :: "jsnum option"
  tx_profitLossPct :: "jsnum option"
  tx_trades :: "trade list"

record trades_state =
  ts_selectedIds :: "string \<rightharpoonup> bool"
  ts_cantDownloadMoreTrades :: bool
  ts_isLoading :: bool
  ts_historyTrades :: "transaction list"

definition Trades_new :: trades_state where
  "Trades_new =
     \<lparr>ts_selectedIds = Map.empty, ts_cantDownloadMoreTrades = False, ts_isLoading = False,
      ts_historyTrades = []\<rparr>"

abbreviation merge_trades :: "transaction list \<Rightarrow> transaction list \<Rightarrow> transaction list" where
  "merge_trades \<equiv> concatTrades tx_id tx_dateTime"

section \<open>Loading more\<close>

text \<open>
  The first half of \<^verbatim>\<open>loadMore\<close>: the flag is set and the request goes out. What the second half
  works on are the trades loaded so far, read before the request; \<open>skip\<close> is the number of trades
  shown.
\<close>

record load_request =
  lr_history :: "transaction list"
  lr_skip :: nat
  lr_limit :: nat

definition loadMore :: "transaction list \<Rightarrow> trades_state \<Rightarrow> load_request \<times> trades_state" where
  "loadMore transactions s =
     (let s1 = s\<lparr>ts_isLoading := True\<rparr>;
          allTransactions = merge_trades (ts_historyTrades s1) transactions
      in (\<lparr>lr_history = ts_historyTrades s1, lr_skip = length allTransactions, lr_limit = 100\<rparr>, s1))"

text \<open>
  The second half: the answer is the page of transactions, an answer without data, or a
  rejected request, which leaves the function where it is.
\<close>

definition loadMore_answer ::
  "load_request \<Rightarrow> transaction list option res \<Rightarrow> trades_state \<Rightarrow> trades_state" where
  "loadMore_answer r response s =
     (case response of
        Inr (Some transactions) \<Rightarrow>
          let historyTrades =
                (if length transactions \<noteq> 0 then merge_trades (lr_history r) transactions
                 else lr_history r)
          in s\<lparr>ts_historyTrades := historyTrades,
               ts_cantDownloadMoreTrades := (length transactions = 0), ts_isLoading := False\<rparr>
      | Inr None \<Rightarrow> s
      | Inl _ \<Rightarrow> s)"

definition setTransactionId :: "string \<Rightarrow> trades_state \<Rightarrow> trades_state" where
  "setTransactionId tid s =
     s\<lparr>ts_selectedIds := (ts_selectedIds s)(tid \<mapsto>
        (case ts_selectedIds s tid of Some b \<Rightarrow> \<not> b | None \<Rightarrow> True))\<rparr>"

section \<open>The list\<close>

definition allTransactions :: "transaction list \<Rightarrow> trades_state \<Rightarrow> transaction list" where
  "allTransactions transactions s = merge_trades (ts_historyTrades s) transactions"

definition lengthOfList :: "bool \<Rightarrow> transaction list \<Rightarrow> trades_state \<Rightarrow> nat" where
  "lengthOfList dashboard transactions s =
     length (allTransactions transactions s)
     + (if dashboard \<and> \<not> ts_cantDownloadMoreTrades s then 1 else 0)"

definition is_selected :: "trades_state \<Rightarrow> string \<Rightarrow> bool" where
  "is_selected s tid = (ts_selectedIds s tid = Some True)"

definition getItemSize :: "transaction list \<Rightarrow> trades_state \<Rightarrow> nat \<Rightarrow> nat" where
  "getItemSize transactions s index =
     (let rows = allTransactions transactions s
      in if index < length rows \<and> is_selected s (tx_id (rows ! index))
         then 30 + 19 + length (tx_trades (rows ! index)) * 23 + 3
         else if index = length rows then 45
         else 30)"

datatype list_item = TradeItem transaction bool | MoreButton bool

definition Trades_item :: "transaction list \<Rightarrow> trades_state \<Rightarrow> nat \<Rightarrow> list_item" where
  "Trades_item transactions s index =
     (let rows = allTransactions transactions s
      in if index < length rows
         then TradeItem (rows ! index) (is_selected s (tx_id (rows ! index)))
         else MoreButton (ts_isLoading s))"

definition Trades_render :: "bool \<Rightarrow> bool \<Rightarrow> transaction list \<Rightarrow> trades_state \<Rightarrow> list_item list" where
  "Trades_render dashboard isVirtualized transactions s =
     (if isVirtualized then map (Trades_item transactions s) [0..<lengthOfList dashboard transactions s]
      else map (\<lambda>t. TradeItem t (is_selected s (tx_id t))) (allTransactions transactions s))"

section \<open>A row\<close>

definition rowStyle :: "string \<Rightarrow> string" where
  "rowStyle side =
     (if side = ''Sell'' then ''row-short'' else if side = ''Buy'' then ''row-long'' else [])"

definition short_order_id :: "string option \<Rightarrow> string" where
  "short_order_id v =
     (case v of
        Some i \<Rightarrow> if truthy_str i then drop (length i - 10) i else ''--''
      | None \<Rightarrow> ''--'')"

record fill_row =
  fr_style :: string
  fr_order :: string
  fr_exchange :: string
  fr_price :: jsnum
  fr_amount :: jsnum

definition getTradeFillRows :: "trade list \<Rightarrow> fill_row list" where
  "getTradeFillRows trades =
     map (\<lambda>t. \<lparr>fr_style = rowStyle (tr_side t), fr_order = short_order_id (tr_exchangeOrderId t),
               fr_exchange = tr_exchangeName t, fr_price = js_to_num (tr_price t),
               fr_amount = js_to_num (tr_amount t)\<rparr>) trades"

definition getAllTradeFillRows :: "transaction \<Rightarrow> fill_row list" where
  "getAllTradeFillRows t = getTradeFillRows (tx_trades t)"

definition side_style :: "string \<Rightarrow> (string \<times> string) option" where
  "side_style side =
     (if side = ''Sell'' then Some (''sell-color'', ''Sell'')
      else if side = ''Buy'' then Some (''buy-color'', ''Buy'') else None)"

text \<open>\<^verbatim>\<open>hedged < 1\<close> with \<^verbatim>\<open>null\<close> taken as zero.\<close>

definition hedged_warns :: "jsnum option \<Rightarrow> bool" where
  "hedged_warns h = num_less (case h of Some n \<Rightarrow> n | None \<Rightarrow> num_zero) (num_of_int 1)"

section \<open>Properties of the table\<close>

text \<open>The number \<open>n\<close> of decimals is that of \<^verbatim>\<open>toFixed(n)\<close>: the nearest one, the larger in a tie.\<close>

fun num_toFixed :: "nat \<Rightarrow> jsnum \<Rightarrow> string" where
  "num_toFixed f (Fin m e) =
     (if 10 ^ 21 * scale_den 2 e \<le> scale_num 2 \<bar>m\<bar> e then num_to_string (Fin m e)
      else
        let n = (2 * scale_num 2 \<bar>m\<bar> e * 10 ^ f + scale_den 2 e) div (2 * scale_den 2 e);
            ds = int_digits n;
            ds' = replicate (f + 1 - length ds) CHR ''0'' @ ds;
            k = length ds' - f
        in (if m < 0 then ''-'' else []) @ take k ds' @ (if f = 0 then [] else ''.'' @ drop k ds'))"
| "num_toFixed f x = num_to_string x"

definition hedged_text :: "jsnum option \<Rightarrow> string" where
  "hedged_text h =
     (case h of None \<Rightarrow> ''--'' | Some n \<Rightarrow> num_toFixed 1 (num_mult n (num_of_int 100)) @ ''%'')"

definition profit_text :: "jsnum option \<Rightarrow> string" where
  "profit_text p = (case p of None \<Rightarrow> ''--'' | Some n \<Rightarrow> num_toFixed 3 n @ ''%'')"

record trade_row =
  row_side :: "(string \<times> string) option"
  row_price :: jsnum
  row_amount :: jsnum
  row_hedged_warns :: bool
  row_hedged :: string
  row_profit :: string
  row_fills :: "fill_row list"
  row_open :: bool

definition TradeRow :: "bool \<Rightarrow> transaction \<Rightarrow> trade_row" where
  "TradeRow isSelect t =
     \<lparr>row_side = side_style (tx_side t), row_price = js_to_num (tx_price t),
      row_amount = js_to_num (tx_amount t), row_hedged_warns = hedged_warns (tx_hedged t),
      row_hedged = hedged_text (tx_hedged t), row_profit = profit_text (tx_profitLossPct t),
      row_fills = getAllTradeFillRows t, row_open = isSelect\<rparr>"

text \<open>
  The titles over the columns and the fields of a transaction under them, with the width of a column
  where one is set.
\<close>

definition Trades_titles :: "bool \<Rightarrow> (string \<times> nat option) list" where
  "Trades_titles dashboard =
     (if dashboard then [(''Exchange'', None), (''Currency'', None)] else [])
     @ [(''Date & Time'', Some (if dashboard then 2 else 4)), (''Side'', None), (''Price'', None),
        (''Amount'', None), (''Hedged'', None), (''PL'', None)]
     @ (if dashboard then [(''Strategy'', Some 2)] else []) @ [(''Status'', None)]"

definition TradeRow_columns :: "bool \<Rightarrow> (string \<times> nat option) list" where
  "TradeRow_columns dashboard =
     (if dashboard then [(''exchangeName'', None), (''currencyCodePair'', None)] else [])
     @ [(''dateTime'', Some (if dashboard then 2 else 4)), (''side'', None), (''price'', None),
        (''amount'', None), (''hedged'', None), (''profitLossPct'', None)]
     @ (if dashboard then [(''strategyName'', Some 2)] else []) @ [(''status'', None)]"

definition titled_field :: "string \<Rightarrow> string" where
  "titled_field t =
     (if t = ''Exchange'' then ''exchangeName'' else if t = ''Currency'' then ''currencyCodePair''
      else if t = ''Date & Time'' then ''dateTime'' else if t = ''PL'' then ''profitLossPct''
      else if t = ''Strategy'' then ''strategyName'' else to_lower t)"

text \<open>Every title stands over the field it names, in a column of the same width.\<close>

lemma titles_fit_cells: "TradeRow_columns dashboard = map (map_prod titled_field id) (Trades_titles dashboard)"
proof -
  have "to_lower ''Side'' = ''side''" "to_lower ''Price'' = ''price''" "to_lower ''Amount'' = ''amount''"
    "to_lower ''Hedged'' = ''hedged''" "to_lower ''Status'' = ''status''" by code_simp+
  then show ?thesis by (simp add: TradeRow_columns_def Trades_titles_def titled_field_def)
qed

lemma toFixed_examples:
  "num_toFixed 1 (num_of_int 100) = ''100.0''" "num_toFixed 3 (string_to_num ''-1.2345'') = ''-1.234''"
  "num_toFixed 3 (string_to_num ''0.05'') = ''0.050''"
  by code_simp+

text \<open>The table as a machine: clicks, answers and new trades from the socket in any order.\<close>

inductive trades_step :: "trades_state \<times> load_request list \<Rightarrow> trades_state \<times> load_request list \<Rightarrow> bool" where
  more: "loadMore txs s = (r, t) \<Longrightarrow> trades_step (s, rs) (t, rs @ [r])"
| answer: "r \<in> set rs \<Longrightarrow> trades_step (s, rs) (loadMore_answer r response s, remove1 r rs)"
| toggle: "trades_step (s, rs) (setTransactionId tid s, rs)"

definition page_sorted :: "transaction list \<Rightarrow> bool" where
  "page_sorted ts \<longleftrightarrow> distinct (map tx_id ts) \<and> sorted (map (\<lambda>t. - tx_dateTime t) ts)"

definition trades_ok :: "trades_state \<times> load_request list \<Rightarrow> bool" where
  "trades_ok = (\<lambda>(s, rs). page_sorted (ts_historyTrades s) \<and> (\<forall>r \<in> set rs. page_sorted (lr_history r)))"

lemma merge_page_sorted: "page_sorted (merge_trades xs ys)"
  unfolding page_sorted_def concatTrades_merge
  by (intro conjI trades_merge.merge_distinct trades_merge.merge_sorted)

lemma loadMore_answer_ok:
  "page_sorted (lr_history r) \<Longrightarrow> page_sorted (ts_historyTrades s) \<Longrightarrow>
     page_sorted (ts_historyTrades (loadMore_answer r response s))"
  by (auto simp: loadMore_answer_def Let_def merge_page_sorted split: sum.splits option.splits)

interpretation trades_table: invariant_machine "\<lambda>x. x = (Trades_new, [])" trades_step trades_ok
proof
  show "trades_ok x" if "x = (Trades_new, [])" for x
    using that by (simp add: trades_ok_def Trades_new_def page_sorted_def)
  show "trades_ok y" if "trades_ok x" "trades_step x y" for x y
    using that(2,1)
  proof (cases rule: trades_step.cases)
    case (more txs s r t rs)
    with that(1) show ?thesis by (auto simp: trades_ok_def loadMore_def Let_def)
  next
    case (answer r rs s response)
    with that(1) show ?thesis
      by (auto simp: trades_ok_def intro: loadMore_answer_ok dest: notin_set_remove1)
  next
    case (toggle s rs tid)
    with that(1) show ?thesis by (auto simp: trades_ok_def setTransactionId_def)
  qed
qed

lemma sum_sizes_pos: "0 < getItemSize txs s i"
  by (simp add: getItemSize_def Let_def)


definition demo_transaction :: "string \<Rightarrow> int \<Rightarrow> transaction" where
  "demo_transaction tid d =
     \<lparr>tx_id = tid, tx_dateTime = d, tx_side = ''Buy'', tx_price = JStr ''1'', tx_amount = JStr ''2'',
      tx_hedged = None, tx_profitLossPct = None, tx_trades = []\<rparr>"


text \<open>An answer without data, or none, leaves the button loading.\<close>

lemma loadMore_without_data:
  "ts_isLoading (loadMore_answer r (Inr None) (snd (loadMore txs s)))"
  "ts_isLoading (loadMore_answer r (Inl e) (snd (loadMore txs s)))"
  by (simp_all add: loadMore_answer_def loadMore_def Let_def)

end
