(* ===== verification/Url_Utils.thy ===== *)
theory Url_Utils
  imports Exchange_Store
begin

text \<open>
  \<^verbatim>\<open>utils.js\<close>: rounding of displayed numbers, the two spellings of a currency pair, and
  \<^verbatim>\<open>checkParameters\<close>, which keeps the address of a page and the selection of the exchange
  store in step: it either navigates to a corrected address or moves the selection to what the
  address names.
\<close>

section \<open>\<^verbatim>\<open>round\<close>\<close>

text \<open>
  The number is shifted by rewriting the exponent of its printed form:
  \<^verbatim>\<open>+(value[0] + "e" + (value[1] ? +value[1] + exp : exp))\<close>.
\<close>

definition shift_decimal :: "jsnum \<Rightarrow> jsnum \<Rightarrow> jsnum" where
  "shift_decimal v ex =
     (let parts = split_on CHR ''e'' (num_to_string v);
          ex' = (case at parts 1 of
                   None \<Rightarrow> ex
                 | Some p \<Rightarrow> if truthy_str p then num_add (string_to_num p) ex else ex)
      in string_to_num (hd parts @ ''e'' @ num_to_string ex'))"

fun is_integer_num :: "jsnum \<Rightarrow> bool" where
  "is_integer_num (Fin m e) = (0 \<le> e)"
| "is_integer_num _ = False"

definition round_to :: "jsv \<Rightarrow> jsv \<Rightarrow> jsnum" where
  "round_to value ex =
     (if ex = JUndef \<or> num_eq (js_to_num ex) num_zero then math_round (js_to_num value)
      else
        let v = js_to_num value; x = js_to_num ex
        in if v = NaN \<or> \<not> is_integer_num x then NaN
           else shift_decimal (math_round (shift_decimal v x)) (num_neg x))"

section \<open>Currency pairs in addresses\<close>

definition normalCodePair :: "string option \<Rightarrow> string option" where
  "normalCodePair code = map_option (replace_first CHR ''-'' CHR ''/'') code"

definition urlCodePair :: "string \<Rightarrow> string" where
  "urlCodePair code = replace_first CHR ''/'' CHR ''-'' code"

section \<open>Navigation\<close>

datatype nav = Push string | Replace string

definition pushNewLinkToHistory :: "string \<Rightarrow> string \<Rightarrow> nav" where
  "pushNewLinkToHistory pathname newLink =
     (if pathname = newLink then Replace newLink else Push newLink)"

section \<open>\<^verbatim>\<open>checkParameters\<close>\<close>

text \<open>The props of the header: the route it belongs to and the parameters of the address.\<close>

record header_props =
  hp_path :: string
  hp_isNeedInterval :: bool
  hp_isNeedExchange :: bool
  hp_isNeedCurrencyCodePair :: bool
  hp_interval :: "string option"
  hp_exchangeName :: "string option"
  hp_urlCurrencyCodePair :: "string option"
  hp_pathname :: string

definition validIntervals :: "string list" where
  "validIntervals = [''now'', ''day'', ''week'', ''month'']"

definition chosen_interval :: "header_props \<Rightarrow> string" where
  "chosen_interval props =
     (case hp_interval props of
        None \<Rightarrow> ''day''
      | Some i \<Rightarrow> if truthy_str i \<and> i \<in> set validIntervals then i else ''day'')"

definition interval_segment :: "header_props \<Rightarrow> string" where
  "interval_segment props =
     (if hp_isNeedInterval props then ''/'' @ chosen_interval props else [])"

definition first_exchange_name :: "exchange list \<Rightarrow> string res" where
  "first_exchange_name exs =
     (case at exs 0 of None \<Rightarrow> Inl TypeError | Some e \<Rightarrow> Inr (exch_name e))"

definition first_code_pair :: "symbol list \<Rightarrow> string res" where
  "first_code_pair ss =
     (case at ss 0 of None \<Rightarrow> Inl TypeError | Some s \<Rightarrow> Inr (sym_currencyCodePair s))"

text \<open>The name that goes into the address for the exchange, and for the pair.\<close>

definition chosen_exchange :: "header_props \<Rightarrow> exchange list \<Rightarrow> string \<Rightarrow> string res" where
  "chosen_exchange props exs current =
     (case hp_exchangeName props of
        Some n \<Rightarrow>
          if truthy_str n \<and> current \<noteq> n then
            let isValidExchange = (\<exists>ex \<in> set exs. exch_name ex = n)
            in if hp_path props = ''/profits''
               then Inr (if isValidExchange \<or> n = ''all'' then n else current)
               else res_bind (if current = ''all'' then first_exchange_name exs else Inr current)
                      (\<lambda>newExchange. Inr (if isValidExchange then n else newExchange))
          else (if current = ''all'' \<and> hp_path props \<noteq> ''/profits''
                then first_exchange_name exs else Inr current)
      | None \<Rightarrow> (if current = ''all'' \<and> hp_path props \<noteq> ''/profits''
                then first_exchange_name exs else Inr current))"

definition exchange_segment :: "header_props \<Rightarrow> ex_state \<Rightarrow> string res" where
  "exchange_segment props s =
     (case ex_exchanges s of
        Some exs \<Rightarrow>
          if hp_isNeedExchange props \<and> truthy_str (ex_exchangeName s)
          then res_bind (chosen_exchange props exs (ex_exchangeName s)) (\<lambda>n. Inr (''/'' @ n))
          else Inr []
      | None \<Rightarrow> Inr [])"

definition chosen_pair :: "header_props \<Rightarrow> symbol list \<Rightarrow> string \<Rightarrow> string res" where
  "chosen_pair props ss current =
     (case normalCodePair (hp_urlCurrencyCodePair props) of
        Some p \<Rightarrow>
          if truthy_str p \<and> current \<noteq> p then
            let isValidPair = (\<exists>s \<in> set ss. sym_currencyCodePair s = p)
            in if hp_path props = ''/profits''
               then Inr (if isValidPair \<or> p = ''all'' then p else current)
               else res_bind (if current = ''all'' then first_code_pair ss else Inr current)
                      (\<lambda>newPair. Inr (if isValidPair then p else newPair))
          else (if current = ''all'' \<and> hp_path props \<noteq> ''/profits''
                then first_code_pair ss else Inr current)
      | None \<Rightarrow> (if current = ''all'' \<and> hp_path props \<noteq> ''/profits''
                then first_code_pair ss else Inr current))"

definition pair_segment :: "header_props \<Rightarrow> ex_state \<Rightarrow> string res" where
  "pair_segment props s =
     (case ex_symbols s of
        Some ss \<Rightarrow>
          if hp_isNeedCurrencyCodePair props \<and> truthy_str (ex_currencyCodePair s)
          then res_bind (chosen_pair props ss (ex_currencyCodePair s))
                 (\<lambda>p. Inr (''/'' @ urlCodePair p))
          else Inr []
      | None \<Rightarrow> Inr [])"

definition new_path :: "header_props \<Rightarrow> ex_state \<Rightarrow> string res" where
  "new_path props s =
     res_bind (exchange_segment props s) (\<lambda>x.
     res_bind (pair_segment props s) (\<lambda>p.
       Inr (hp_path props @ interval_segment props @ x @ p)))"

text \<open>
  The updates started by the two \<^verbatim>\<open>forEach\<close> loops are not awaited: each is computed from the
  state as it is during the loop and applied later, in order. An update that throws is lost with
  its promise.
\<close>

definition inr_values :: "'a res list \<Rightarrow> 'a list" where
  "inr_values rs = concat (map (\<lambda>r. case r of Inl _ \<Rightarrow> [] | Inr p \<Rightarrow> [p]) rs)"

definition exchange_patches :: "header_props \<Rightarrow> ex_state \<Rightarrow> ex_patch list" where
  "exchange_patches props s =
     (case ex_exchanges s of
        None \<Rightarrow> []
      | Some exs \<Rightarrow>
          inr_values (map (\<lambda>(ex, i). updateSelectedExchange_patch (int i) s)
            (filter (\<lambda>(ex, i). Some (exch_name ex) = hp_exchangeName props
                \<and> Some (ex_exchangeName s) \<noteq> hp_exchangeName props)
              (zip exs [0..<length exs]))))"

definition symbol_patches :: "header_props \<Rightarrow> ex_state \<Rightarrow> ex_patch list" where
  "symbol_patches props s =
     (case ex_symbols s of
        None \<Rightarrow> []
      | Some ss \<Rightarrow>
          let pair = normalCodePair (hp_urlCurrencyCodePair props)
          in inr_values (map (\<lambda>(sym, i). updateSelectedSymbol_patch (int i) s)
               (filter (\<lambda>(sym, i). Some (sym_currencyCodePair sym) = pair
                   \<and> Some (ex_currencyCodePair s) \<noteq> pair)
                 (zip ss [0..<length ss]))))"

definition sync_interval :: "header_props \<Rightarrow> ex_state \<Rightarrow> ex_state" where
  "sync_interval props s =
     (case hp_interval props of
        None \<Rightarrow> s
      | Some i \<Rightarrow> if truthy_str i \<and> i \<noteq> ex_interval s then setInterval i s else s)"

record check_outcome =
  co_error :: "js_error option"
  co_nav :: "nav option"
  co_state :: ex_state

definition sync_symbol :: "header_props \<Rightarrow> ex_patch list \<Rightarrow> ex_state \<Rightarrow> check_outcome" where
  "sync_symbol props pending s =
     (if normalCodePair (hp_urlCurrencyCodePair props) = Some ''all''
         \<and> hp_path props = ''/profits'' \<and> ex_currencyCodePair s \<noteq> ''all''
      then (case updateSelectedSymbol_patch (- 1) s of
              Inl e \<Rightarrow> \<lparr>co_error = Some e, co_nav = None, co_state = fold (\<lambda>p. p) pending s\<rparr>
            | Inr p \<Rightarrow> \<lparr>co_error = None, co_nav = None, co_state = fold (\<lambda>p. p) (pending @ [p]) s\<rparr>)
      else \<lparr>co_error = None, co_nav = None,
            co_state = fold (\<lambda>p. p) (pending @ symbol_patches props s) s\<rparr>)"

definition sync_selection :: "header_props \<Rightarrow> ex_state \<Rightarrow> check_outcome" where
  "sync_selection props s =
     (let s1 = sync_interval props s
      in if hp_exchangeName props = Some ''all'' \<and> hp_path props = ''/profits''
            \<and> ex_exchangeName s1 \<noteq> ''all''
         then (case updateSelectedExchange (- 1) s1 of
                 Inl e \<Rightarrow> \<lparr>co_error = Some e, co_nav = None, co_state = s1\<rparr>
               | Inr s2 \<Rightarrow> sync_symbol props [] s2)
         else sync_symbol props (exchange_patches props s1) s1)"

definition checkParameters :: "header_props \<Rightarrow> ex_state \<Rightarrow> check_outcome" where
  "checkParameters props s =
     (if ex_exchanges s = None \<or> \<not> truthy_str (ex_exchangeName s)
         \<or> \<not> truthy_str (ex_currencyPair s)
      then \<lparr>co_error = None, co_nav = None, co_state = s\<rparr>
      else
        (case new_path props s of
           Inl e \<Rightarrow> \<lparr>co_error = Some e, co_nav = None, co_state = s\<rparr>
         | Inr newPath \<Rightarrow>
             if truthy_str newPath \<and> hp_pathname props \<noteq> newPath
             then \<lparr>co_error = None,
                   co_nav = Some (pushNewLinkToHistory (hp_pathname props) newPath),
                   co_state = s\<rparr>
             else sync_selection props s))"

section \<open>The address converges\<close>

text \<open>
  What the router hands to the header for an address: the route's path followed by the
  parameters that are present, each a non-empty segment, filled from the left.
\<close>

definition opt_segment :: "string option \<Rightarrow> string" where
  "opt_segment v = (case v of None \<Rightarrow> [] | Some x \<Rightarrow> CHR ''/'' # x)"

definition param_ok :: "string option \<Rightarrow> bool" where
  "param_ok v = (case v of None \<Rightarrow> True | Some x \<Rightarrow> x \<noteq> [] \<and> CHR ''/'' \<notin> set x)"

definition router_gives :: "header_props \<Rightarrow> string \<Rightarrow> header_props \<Rightarrow> bool" where
  "router_gives props np props' \<longleftrightarrow>
     hp_path props' = hp_path props
     \<and> hp_isNeedInterval props' = hp_isNeedInterval props
     \<and> hp_isNeedExchange props' = hp_isNeedExchange props
     \<and> hp_isNeedCurrencyCodePair props' = hp_isNeedCurrencyCodePair props
     \<and> hp_pathname props' = np
     \<and> np = hp_path props @ opt_segment (hp_interval props')
            @ opt_segment (hp_exchangeName props') @ opt_segment (hp_urlCurrencyCodePair props')
     \<and> param_ok (hp_interval props') \<and> param_ok (hp_exchangeName props')
     \<and> param_ok (hp_urlCurrencyCodePair props')
     \<and> (hp_isNeedInterval props \<or> hp_interval props' = None)
     \<and> (hp_isNeedInterval props \<and> hp_interval props' = None \<longrightarrow> hp_exchangeName props' = None)
     \<and> (hp_exchangeName props' = None \<longrightarrow> hp_urlCurrencyCodePair props' = None)"

text \<open>Names that survive the trip through an address.\<close>

definition clean_name :: "string \<Rightarrow> bool" where
  "clean_name n \<longleftrightarrow> n \<noteq> [] \<and> CHR ''/'' \<notin> set n"

definition clean_pair :: "string \<Rightarrow> bool" where
  "clean_pair p \<longleftrightarrow> p \<noteq> [] \<and> CHR ''-'' \<notin> set p \<and> CHR ''/'' \<notin> set (urlCodePair p)"

definition clean_store :: "ex_state \<Rightarrow> bool" where
  "clean_store s \<longleftrightarrow>
     (case ex_exchanges s of None \<Rightarrow> True
      | Some exs \<Rightarrow> list_all (\<lambda>e. clean_name (exch_name e)
          \<and> list_all (\<lambda>y. clean_pair (sym_currencyCodePair y)) (exch_symbols e)) exs)"

lemma clean_all [simp]: "clean_name ''all''" "clean_pair ''all''"
  by (simp_all add: clean_name_def clean_pair_def urlCodePair_def)

lemma url_normal_pair:
  "CHR ''-'' \<notin> set p \<Longrightarrow> normalCodePair (Some (urlCodePair p)) = Some p"
  by (simp add: normalCodePair_def urlCodePair_def replace_first_back)

lemma urlCodePair_eq_Nil [simp]: "urlCodePair p = [] \<longleftrightarrow> p = []"
  by (simp add: urlCodePair_def)

lemma split_segments:
  "\<forall>x \<in> set xs. c \<notin> set x \<Longrightarrow> split_on c (concat (map (\<lambda>x. c # x) xs)) = [] # xs"
proof (induction xs)
  case (Cons x xs)
  show ?case
  proof (cases xs)
    case Nil
    with Cons.prems show ?thesis by (simp add: split_on_no_sep)
  next
    case (Cons y ys)
    have "split_on c (x @ c # y @ concat (map (\<lambda>x. c # x) ys))
        = x # split_on c (y @ concat (map (\<lambda>x. c # x) ys))"
      using Cons.prems by (simp add: split_on_append_sep)
    with Cons Cons.IH Cons.prems show ?thesis by simp
  qed
qed simp

lemma segments_inject:
  assumes "concat (map (\<lambda>x. c # x) xs) = concat (map (\<lambda>x. c # x) ys)"
    and "\<forall>x \<in> set xs. c \<notin> set x" and "\<forall>y \<in> set ys. c \<notin> set y"
  shows "xs = (ys :: string list)"
proof -
  have "[] # xs = split_on c (concat (map (\<lambda>x. c # x) xs))"
    by (rule split_segments [OF assms(2), symmetric])
  also have "\<dots> = split_on c (concat (map (\<lambda>x. c # x) ys))"
    by (simp only: assms(1))
  also have "\<dots> = [] # ys" by (rule split_segments [OF assms(3)])
  finally show ?thesis by simp
qed

lemma chosen_exchange_stable:
  assumes "chosen_exchange props exs cur = Inr n"
    and "hp_exchangeName props' = Some n" and "hp_path props' = hp_path props"
  shows "chosen_exchange props' exs cur = Inr n"
  using assms
  by (auto simp: chosen_exchange_def first_exchange_name_def Let_def res_simps
      split: option.splits if_splits dest: at_in_set)

lemma chosen_pair_stable:
  assumes "chosen_pair props ss cur = Inr p"
    and "normalCodePair (hp_urlCurrencyCodePair props') = Some p"
    and "hp_path props' = hp_path props"
  shows "chosen_pair props' ss cur = Inr p"
  using assms
  by (auto simp: chosen_pair_def first_code_pair_def Let_def res_simps
      split: option.splits if_splits dest: at_in_set)

lemma chosen_interval_valid: "chosen_interval props \<in> set validIntervals"
  by (auto simp: chosen_interval_def validIntervals_def split: option.splits)

lemma chosen_interval_stable:
  "hp_interval props' = Some (chosen_interval props) \<Longrightarrow>
     chosen_interval props' = chosen_interval props"
  using chosen_interval_valid [of props]
  by (auto simp: chosen_interval_def [of props'] validIntervals_def)

lemma chosen_interval_clean: "clean_name (chosen_interval props)"
  using chosen_interval_valid [of props]
  by (auto simp: validIntervals_def clean_name_def)

lemma selected_name_cases:
  assumes "exchangeName_of (Some exs) i = Inr n"
  shows "n = ''all'' \<or> (\<exists>e \<in> set exs. exch_name e = n)"
  using assms by (auto simp: exchangeName_of_def split: if_splits option.splits dest: at_in_set)

lemma selected_symbols_subset:
  assumes "symbols_of_exchange (Some exs) i = Inr ss"
  shows "set ss \<subseteq> (\<Union>e \<in> set exs. set (exch_symbols e))"
  using assms removeDuplicates_subset [of sym_currencyCodePair "concat (map exch_symbols exs)"]
  by (auto simp: symbols_of_exchange_def split: if_splits option.splits dest: at_in_set)

lemma selected_pair_cases:
  assumes "getSymbol (Some ss) i = Inr (c, p, y)"
  shows "c = ''all'' \<or> (\<exists>s \<in> set ss. sym_currencyCodePair s = c)"
  using assms
  by (auto simp: getSymbol_def split: if_splits option.splits dest: at_in_set at_in_set [OF sym])

text \<open>The exchange and the pair put into an address are listed ones, or \<open>all\<close>.\<close>

lemma chosen_exchange_valid:
  assumes "chosen_exchange props exs cur = Inr n"
    and "cur = ''all'' \<or> (\<exists>e \<in> set exs. exch_name e = cur)"
  shows "(\<exists>e \<in> set exs. exch_name e = n) \<or> (n = ''all'' \<and> hp_path props = ''/profits'')"
  using assms
  by (auto simp: chosen_exchange_def first_exchange_name_def Let_def res_simps
      split: option.splits if_splits dest: at_in_set)

lemma chosen_pair_valid:
  assumes "chosen_pair props ss cur = Inr p"
    and "cur = ''all'' \<or> (\<exists>s \<in> set ss. sym_currencyCodePair s = cur)"
  shows "(\<exists>s \<in> set ss. sym_currencyCodePair s = p) \<or> (p = ''all'' \<and> hp_path props = ''/profits'')"
  using assms
  by (auto simp: chosen_pair_def first_code_pair_def Let_def res_simps
      split: option.splits if_splits dest: at_in_set)

lemma new_path_shape:
  assumes "new_path props s = Inr np" and "ex_exchanges s = Some exs" and "ex_symbols s = Some ss"
    and "hp_isNeedExchange props" and "hp_isNeedCurrencyCodePair props"
    and "ex_exchangeName s \<noteq> []" and "ex_currencyCodePair s \<noteq> []"
  obtains n p where "chosen_exchange props exs (ex_exchangeName s) = Inr n"
    and "chosen_pair props ss (ex_currencyCodePair s) = Inr p"
    and "np = hp_path props @ interval_segment props @ CHR ''/'' # n @ CHR ''/'' # urlCodePair p"
  using assms by (auto simp: new_path_def exchange_segment_def pair_segment_def res_simps)

lemma new_path_fixed:
  assumes np: "new_path props s = Inr np"
    and st: "ex_exchanges s = Some exs" "ex_symbols s = Some ss"
      "ex_exchangeName s \<noteq> []" "ex_currencyCodePair s \<noteq> []"
    and need: "hp_isNeedExchange props" "hp_isNeedCurrencyCodePair props"
    and clean: "\<And>n. chosen_exchange props exs (ex_exchangeName s) = Inr n \<Longrightarrow> clean_name n"
      "\<And>p. chosen_pair props ss (ex_currencyCodePair s) = Inr p \<Longrightarrow> clean_pair p"
    and router: "router_gives props np props'"
  shows "new_path props' s = Inr np"
proof -
  obtain n p where n: "chosen_exchange props exs (ex_exchangeName s) = Inr n"
    and p: "chosen_pair props ss (ex_currencyCodePair s) = Inr p"
    and np': "np = hp_path props @ interval_segment props @ CHR ''/'' # n @ CHR ''/'' # urlCodePair p"
    using new_path_shape [OF np st(1,2) need st(3,4)] by blast
  let ?given = "(if hp_isNeedInterval props then [chosen_interval props] else []) @ [n, urlCodePair p]"
  let ?read = "[x. Some x \<leftarrow> [hp_interval props', hp_exchangeName props', hp_urlCurrencyCodePair props']]"
  have "concat (map (\<lambda>x. CHR ''/'' # x) ?given) = concat (map (\<lambda>x. CHR ''/'' # x) ?read)"
    using np' router
    by (auto simp: router_gives_def interval_segment_def opt_segment_def split: option.splits)
  moreover have "\<forall>x \<in> set ?given. CHR ''/'' \<notin> set x"
    using clean(1) [OF n] clean(2) [OF p] chosen_interval_clean [of props]
    by (auto simp: clean_name_def clean_pair_def)
  moreover have "\<forall>x \<in> set ?read. CHR ''/'' \<notin> set x"
    using router by (auto simp: router_gives_def param_ok_def split: option.splits)
  ultimately have "?given = ?read" by (rule segments_inject)
  then have params: "hp_exchangeName props' = Some n" "hp_urlCurrencyCodePair props' = Some (urlCodePair p)"
    "hp_isNeedInterval props \<longrightarrow> hp_interval props' = Some (chosen_interval props)"
    using router by (auto simp: router_gives_def split: option.splits if_splits)
  have same: "hp_path props' = hp_path props" "hp_isNeedInterval props' = hp_isNeedInterval props"
    "hp_isNeedExchange props'" "hp_isNeedCurrencyCodePair props'"
    using router need by (simp_all add: router_gives_def)
  have "chosen_exchange props' exs (ex_exchangeName s) = Inr n"
    using chosen_exchange_stable [OF n params(1) same(1)] .
  moreover have "chosen_pair props' ss (ex_currencyCodePair s) = Inr p"
    using chosen_pair_stable [OF p _ same(1)] params(2) clean(2) [OF p]
    by (simp add: url_normal_pair clean_pair_def)
  moreover have "interval_segment props' = interval_segment props"
    using params(3) same(2) chosen_interval_stable [of props' props]
    by (auto simp: interval_segment_def)
  ultimately show ?thesis
    using st same np' by (simp add: new_path_def exchange_segment_def pair_segment_def)
qed

lemma clean_storeD:
  assumes "clean_store s" and "ex_exchanges s = Some exs" and "e \<in> set exs"
  shows "clean_name (exch_name e)" and "y \<in> set (exch_symbols e) \<Longrightarrow> clean_pair (sym_currencyCodePair y)"
  using assms by (auto simp: clean_store_def list_all_iff)

lemma selection_cleanD:
  assumes "selection_ok s" and "clean_store s" and "ex_exchanges s = Some exs"
  obtains ss where "ex_symbols s = Some ss"
    and "ex_exchangeName s = ''all'' \<or> (\<exists>e \<in> set exs. exch_name e = ex_exchangeName s)"
    and "ex_currencyCodePair s = ''all'' \<or> (\<exists>y \<in> set ss. sym_currencyCodePair y = ex_currencyCodePair s)"
    and "\<forall>y \<in> set ss. clean_pair (sym_currencyCodePair y)"
proof -
  from assms obtain ss where ss: "symbols_of_exchange (Some exs) (ex_selectedExchange s) = Inr ss"
    "ex_symbols s = Some ss"
    by (auto simp: selection_ok_def)
  show thesis
  proof (rule that)
    show "ex_symbols s = Some ss" by (rule ss(2))
    show "ex_exchangeName s = ''all'' \<or> (\<exists>e \<in> set exs. exch_name e = ex_exchangeName s)"
      using assms(1,3) by (auto simp: selection_ok_def dest: selected_name_cases)
    show "ex_currencyCodePair s = ''all'' \<or> (\<exists>y \<in> set ss. sym_currencyCodePair y = ex_currencyCodePair s)"
      using assms(1) ss(2) by (auto simp: selection_ok_def dest: selected_pair_cases)
    show "\<forall>y \<in> set ss. clean_pair (sym_currencyCodePair y)"
      using selected_symbols_subset [OF ss(1)] clean_storeD(2) [OF assms(2,3)] by blast
  qed
qed

lemma sync_symbol_stays [simp]: "co_nav (sync_symbol props pending s) = None"
  by (simp add: sync_symbol_def split: sum.split)

lemma sync_selection_stays [simp]: "co_nav (sync_selection props s) = None"
  by (simp add: sync_selection_def Let_def split: sum.split)

lemma checkParameters_nav:
  assumes "co_nav (checkParameters props s) = Some (Push np)"
  shows "co_state (checkParameters props s) = s" and "new_path props s = Inr np"
    and "ex_exchanges s \<noteq> None" and "ex_exchangeName s \<noteq> []" and "ex_currencyPair s \<noteq> []"
  using assms
  by (simp_all add: checkParameters_def pushNewLinkToHistory_def split: if_splits sum.splits)

lemma checkParameters_at_home:
  assumes "new_path props s = Inr (hp_pathname props)"
  shows "co_nav (checkParameters props s) = None"
  using assms by (simp add: checkParameters_def)

text \<open>
  C1: a corrected address is not corrected again. From a consistent selection whose names fit
  into an address, if \<open>checkParameters\<close> navigates to \<open>np\<close>, then the call for the parameters the
  router reads off \<open>np\<close> does not navigate: a page cannot bounce between addresses.
\<close>

theorem checkParameters_no_redirect_loop:
  assumes "selection_ok s" and "clean_store s"
    and "hp_isNeedExchange props" and "hp_isNeedCurrencyCodePair props"
    and nav: "co_nav (checkParameters props s) = Some (Push np)"
    and router: "router_gives props np props'"
  shows "co_nav (checkParameters props' (co_state (checkParameters props s))) = None"
proof -
  note np = checkParameters_nav(2) [OF nav] and loaded = checkParameters_nav(3-5) [OF nav]
  from loaded obtain exs where exs: "ex_exchanges s = Some exs" by blast
  obtain ss where ss: "ex_symbols s = Some ss"
    and cur: "ex_exchangeName s = ''all'' \<or> (\<exists>e \<in> set exs. exch_name e = ex_exchangeName s)"
      "ex_currencyCodePair s = ''all'' \<or> (\<exists>y \<in> set ss. sym_currencyCodePair y = ex_currencyCodePair s)"
    and pairs: "\<forall>y \<in> set ss. clean_pair (sym_currencyCodePair y)"
    using selection_cleanD [OF assms(1,2) exs] .
  have "clean_pair (ex_currencyCodePair s)" using cur(2) pairs by auto
  then have pair: "ex_currencyCodePair s \<noteq> []" by (simp add: clean_pair_def)
  have "new_path props' s = Inr np"
  proof (rule new_path_fixed [OF np exs ss loaded(2) pair assms(3,4) _ _ router])
    show "clean_name n" if "chosen_exchange props exs (ex_exchangeName s) = Inr n" for n
      using chosen_exchange_valid [OF that cur(1)] clean_storeD(1) [OF assms(2) exs] by auto
    show "clean_pair p" if "chosen_pair props ss (ex_currencyCodePair s) = Inr p" for p
      using chosen_pair_valid [OF that cur(2)] pairs by auto
  qed
  moreover have "hp_pathname props' = np" using router by (simp add: router_gives_def)
  ultimately show ?thesis
    by (simp add: checkParameters_nav(1) [OF nav] checkParameters_at_home)
qed

text \<open>A small store for concrete runs: two exchanges, the first one selected.\<close>

definition demo_symbol :: "string \<Rightarrow> string \<Rightarrow> symbol" where
  "demo_symbol a b =
     \<lparr>sym_currencyCodePair = a @ ''/'' @ b, sym_currencyPair = a @ b,
      sym_amountCurrencyCode = a, sym_pricePrecision = 2\<rparr>"

definition demo_exchanges :: "exchange list" where
  "demo_exchanges =
     [\<lparr>exch_name = ''Binance'', exch_symbols = [demo_symbol ''BTC'' ''USDT'', demo_symbol ''ETH'' ''BTC'']\<rparr>,
      \<lparr>exch_name = ''Bitmex'', exch_symbols = [demo_symbol ''XBT'' ''USD'', demo_symbol ''BTC'' ''USDT'']\<rparr>]"

definition demo_store :: ex_state where
  "demo_store = snd (loadExchanges (Some \<lparr>sup_supportedExchanges = demo_exchanges,
     sup_shortStrategyNames = None, sup_longStrategyNames = None\<rparr>) ex_initial)"

definition demo_props :: "string \<Rightarrow> string option \<Rightarrow> string option \<Rightarrow> string option \<Rightarrow> header_props" where
  "demo_props pathname i x p =
     \<lparr>hp_path = ''/liquidity'', hp_isNeedInterval = True, hp_isNeedExchange = True,
      hp_isNeedCurrencyCodePair = True, hp_interval = i, hp_exchangeName = x,
      hp_urlCurrencyCodePair = p, hp_pathname = pathname\<rparr>"

lemma demo_store_ok: "selection_ok demo_store"
proof -
  have "fst (loadExchanges (Some \<lparr>sup_supportedExchanges = demo_exchanges,
     sup_shortStrategyNames = None, sup_longStrategyNames = None\<rparr>) ex_initial) = None"
    by code_simp
  then show ?thesis
    unfolding demo_store_def by (intro loadExchanges_ok) (simp add: prod_eq_iff)
qed

theorem checkParameters_no_redirect_loop_witness:
  "co_nav (checkParameters (demo_props ''/liquidity/year'' (Some ''year'') None None) demo_store)
     = Some (Push ''/liquidity/day/Binance/BTC-USDT'')
   \<and> co_nav (checkParameters
       (demo_props ''/liquidity/day/Binance/BTC-USDT'' (Some ''day'') (Some ''Binance'') (Some ''BTC-USDT''))
       (co_state (checkParameters (demo_props ''/liquidity/year'' (Some ''year'') None None) demo_store)))
     = None"
proof
  show nav: "co_nav (checkParameters (demo_props ''/liquidity/year'' (Some ''year'') None None) demo_store)
     = Some (Push ''/liquidity/day/Binance/BTC-USDT'')"
    by code_simp
  show "co_nav (checkParameters
       (demo_props ''/liquidity/day/Binance/BTC-USDT'' (Some ''day'') (Some ''Binance'') (Some ''BTC-USDT''))
       (co_state (checkParameters (demo_props ''/liquidity/year'' (Some ''year'') None None) demo_store)))
     = None"
    by (rule checkParameters_no_redirect_loop [OF demo_store_ok _ _ _ nav]; code_simp)
qed

end
