(* ===== verification/Js_Order.thy ===== *)
theory Js_Order
  imports Complex_Main Js_Value
begin

text \<open>
  The order of JavaScript numbers: a finite number stands for a real, \<open><\<close> on finite numbers is
  \<open><\<close> on the reals, rounding keeps a bound that is itself exact, and what follows for
  \<^verbatim>\<open>Math.min\<close>, \<^verbatim>\<open>Math.max\<close> and percentages.
\<close>

section \<open>Values\<close>

definition num_val :: "jsnum \<Rightarrow> real" where
  "num_val x = (case x of Fin m e \<Rightarrow> of_int m * 2 powi e | _ \<Rightarrow> 0)"

fun is_fin :: "jsnum \<Rightarrow> bool" where
  "is_fin (Fin _ _) = True"
| "is_fin _ = False"

lemma scale_den_pos [simp]: "0 < b \<Longrightarrow> 0 < scale_den b e"
  by (simp add: scale_den_def)

lemma scale_den_nonzero [simp]: "0 < b \<Longrightarrow> scale_den b e \<noteq> 0"
  by (simp add: scale_den_def)

lemma scale_quotient:
  assumes "0 < b"
  shows "of_int (scale_num b m e) / of_int (scale_den b e) = (of_int m * of_int b powi e :: real)"
proof (cases "0 \<le> e")
  case True
  then show ?thesis by (simp add: scale_num_def scale_den_def power_int_def)
next
  case False
  then show ?thesis
    using assms by (simp add: scale_num_def scale_den_def power_int_def field_simps)
qed

lemma num_val_Fin [simp]: "num_val (Fin m e) = of_int m * 2 powi e"
  by (simp add: num_val_def)

lemma num_less_val: "is_fin a \<Longrightarrow> is_fin b \<Longrightarrow> num_less a b \<longleftrightarrow> num_val a < num_val b"
proof (cases a; cases b; simp)
  fix m e m' e'
  have pos: "0 < (of_int (scale_den 2 e) :: real)" "0 < (of_int (scale_den 2 e') :: real)" by simp_all
  have "of_int m * 2 powi e < (of_int m' * 2 powi e' :: real)
      \<longleftrightarrow> of_int (scale_num 2 m e) / of_int (scale_den 2 e)
          < (of_int (scale_num 2 m' e') / of_int (scale_den 2 e') :: real)"
    using scale_quotient [of 2 m e] scale_quotient [of 2 m' e'] by simp
  also have "\<dots> \<longleftrightarrow> of_int (scale_num 2 m e) * of_int (scale_den 2 e')
          < (of_int (scale_num 2 m' e') * of_int (scale_den 2 e) :: real)"
    using pos by (simp add: field_simps)
  also have "\<dots> \<longleftrightarrow> scale_num 2 m e * scale_den 2 e' < scale_num 2 m' e' * scale_den 2 e"
    by (metis of_int_less_iff of_int_mult)
  finally show "scale_num 2 m e * scale_den 2 e' < scale_num 2 m' e' * scale_den 2 e
      \<longleftrightarrow> of_int m * 2 powi e < (of_int m' * 2 powi e' :: real)" by simp
qed

lemma math_min_fin:
  assumes "is_fin a" and "is_fin b"
  shows "math_min a b \<in> {a, b}" and "num_val (math_min a b) = min (num_val a) (num_val b)"
  using assms num_less_val [of b a] by (cases a; cases b; auto simp: math_min_def)+

lemma math_max_fin:
  assumes "is_fin a" and "is_fin b"
  shows "math_max a b \<in> {a, b}" and "num_val (math_max a b) = max (num_val a) (num_val b)"
  using assms num_less_val [of a b] by (cases a; cases b; auto simp: math_max_def)+

lemma strip2_val: "of_int (fst (strip2 m e)) * 2 powi (snd (strip2 m e)) = (of_int m * 2 powi e :: real)"
proof (induction m e rule: strip2.induct)
  case (1 m e)
  show ?case
  proof (cases "m \<noteq> 0 \<and> even m")
    case True
    then have "of_int (fst (strip2 m e)) * 2 powi (snd (strip2 m e))
        = (of_int (m div 2) * 2 powi (e + 1) :: real)"
      using 1 by (subst (1 2) strip2.simps) simp
    also have "\<dots> = of_int m * 2 powi e"
      using True by (auto simp: power_int_add elim!: evenE)
    finally show ?thesis .
  qed (subst (1 2) strip2.simps, auto)
qed

lemma num_val_mk_fin [simp]: "num_val (mk_fin m e) = of_int m * 2 powi e" "is_fin (mk_fin m e)"
  using strip2_val [of m e] by (auto simp: mk_fin_def split: prod.split)

lemma num_val_of_int [simp]: "num_val (num_of_int n) = of_int n" "is_fin (num_of_int n)"
  by (simp_all add: num_of_int_def)

section \<open>Rounding\<close>

lemma div_even_le:
  assumes "0 < d" and "a \<le> k * d"
  shows "div_even a d \<le> k"
proof -
  have "a div d \<le> (k * d) div d" using assms by (intro zdiv_mono1) simp_all
  then have q: "a div d \<le> k" using assms(1) by simp
  show ?thesis
  proof (cases "a div d = k")
    case True
    have "a = d * k + a mod d" using True by (metis mult_div_mod_eq)
    with assms have "a mod d \<le> 0" by (simp add: mult.commute)
    moreover have "0 \<le> a mod d" using assms(1) by simp
    ultimately have "a mod d = 0" by simp
    with True assms(1) show ?thesis by (simp add: div_even_def Let_def)
  next
    case False
    with q show ?thesis by (auto simp: div_even_def Let_def)
  qed
qed

lemma div_even_nonneg: "0 < d \<Longrightarrow> 0 \<le> a \<Longrightarrow> 0 \<le> div_even a d"
  by (auto simp: div_even_def Let_def pos_imp_zdiv_nonneg_iff intro: add_nonneg_nonneg)

lemma ilog2_bounds:
  "1 \<le> n \<Longrightarrow> 0 \<le> ilog2 n \<and> 2 ^ nat (ilog2 n) \<le> n \<and> n < 2 * 2 ^ nat (ilog2 n)"
proof (induction n rule: ilog2.induct)
  case (1 n)
  show ?case
  proof (cases "n < 2")
    case True
    with 1(2) show ?thesis by (simp add: ilog2.simps)
  next
    case False
    with 1 have IH: "0 \<le> ilog2 (n div 2)" "2 ^ nat (ilog2 (n div 2)) \<le> n div 2"
      "n div 2 < 2 * 2 ^ nat (ilog2 (n div 2))" by simp_all
    have l: "ilog2 n = 1 + ilog2 (n div 2)" using False by (subst ilog2.simps) simp
    have p: "2 ^ nat (ilog2 n) = (2 * 2 ^ nat (ilog2 (n div 2)) :: int)"
      using IH(1) by (simp add: l nat_add_distrib)
    have "2 * 2 ^ nat (ilog2 (n div 2)) \<le> n" "n < 2 * (2 * 2 ^ nat (ilog2 (n div 2)))"
      using IH(2,3) by linarith+
    with IH(1) show ?thesis unfolding p using l by simp
  qed
qed

lemma frac_log2_le:
  assumes "1 \<le> a" and "1 \<le> d" and "a \<le> 2 ^ k * d"
  shows "frac_log2 a d \<le> int k"
proof -
  note A = ilog2_bounds [OF assms(1)] and D = ilog2_bounds [OF assms(2)]
  have "2 ^ nat (ilog2 a) \<le> a" using A by simp
  also have "\<dots> \<le> 2 ^ k * d" by (rule assms(3))
  also have "\<dots> < 2 ^ k * (2 * 2 ^ nat (ilog2 d))" using D by simp
  also have "\<dots> = 2 ^ (k + 1 + nat (ilog2 d))" by (simp add: power_add)
  finally have "nat (ilog2 a) < k + 1 + nat (ilog2 d)"
    by (rule power_less_imp_less_exp [rotated]) simp
  with A D have "ilog2 a - ilog2 d \<le> int k" by linarith
  then show ?thesis by (simp add: frac_log2_def Let_def)
qed

lemma le_less_mult: "q \<le> K * x \<Longrightarrow> 0 < x \<Longrightarrow> K < Y \<Longrightarrow> q < x * Y" for q K x Y :: int
  by (metis le_less_trans mult.commute mult_strict_right_mono)

text \<open>A fraction between zero and an exact integer is rounded to a number in that range.\<close>

lemma round_frac_between:
  assumes "0 \<le> n" and "0 < d" and "n \<le> K * d" and "1 \<le> K" and "K \<le> 2 ^ 52"
  shows "is_fin (round_frac n d)" and "0 \<le> num_val (round_frac n d)"
    and "num_val (round_frac n d) \<le> of_int K"
proof -
  have *: "is_fin (round_frac n d) \<and> 0 \<le> num_val (round_frac n d) \<and> num_val (round_frac n d) \<le> of_int K"
  proof (cases "n = 0")
    case True
    with assms(4) show ?thesis by (simp add: round_frac_def)
  next
    case False
    define e where "e = max (frac_log2 n d - 52) (- 1074)"
    define q where "q = div_even (n * scale_den 2 e) (d * scale_num 2 1 e)"
    have "n \<le> 2 ^ 52 * d"
      using assms mult_right_mono [of K "2 ^ 52" d] by linarith
    then have "frac_log2 n d \<le> int 52" using False assms by (intro frac_log2_le) simp_all
    then have e: "e \<le> 0" by (simp add: e_def)
    then have sc: "scale_num 2 1 e = 1" "scale_den 2 e = 2 ^ nat (- e)"
      by (auto simp: scale_num_def scale_den_def)
    have q: "0 \<le> q" "q \<le> K * 2 ^ nat (- e)"
    proof -
      show "0 \<le> q" using assms by (auto simp: q_def sc intro!: div_even_nonneg)
      show "q \<le> K * 2 ^ nat (- e)"
        unfolding q_def sc using assms(2,3) by (intro div_even_le) (simp_all add: mult_right_mono)
    qed
    have "K < 2 ^ 1024"
      using assms(5) power_strict_increasing [of 52 1024 "2 :: int"] by linarith
    then have "q < 2 ^ nat (- e) * 2 ^ 1024" by (intro le_less_mult [OF q(2)]) simp_all
    moreover have "round_frac n d = (if scale_den 2 e * 2 ^ 1024 \<le> q * scale_num 2 1 e
        then Inf (n < 0) else mk_fin (sgn n * q) e)"
      using False assms(1) unfolding round_frac_def Let_def q_def e_def by (simp only: if_False abs_of_nonneg)
    ultimately have r: "round_frac n d = mk_fin q e"
      using False assms(1) by (simp only: sc sgn_if) simp
    have "of_int q * 2 powi e \<le> (of_int (K * 2 ^ nat (- e)) * 2 powi e :: real)"
      using q(2) by (intro mult_right_mono) (simp_all only: of_int_le_iff, simp)
    also have "\<dots> = of_int K"
      using e by (simp add: power_int_def field_simps)
    finally show ?thesis using q(1) by (simp add: r)
  qed
  then show "is_fin (round_frac n d)" and "0 \<le> num_val (round_frac n d)"
    and "num_val (round_frac n d) \<le> of_int K" by simp_all
qed

section \<open>Percentages\<close>

lemma num_mult_between:
  assumes "is_fin x" and "0 \<le> num_val x" and "num_val x \<le> 1" and "1 \<le> K" and "K \<le> 2 ^ 52"
  shows "is_fin (num_mult x (num_of_int K)) \<and> 0 \<le> num_val (num_mult x (num_of_int K))
    \<and> num_val (num_mult x (num_of_int K)) \<le> of_int K"
proof -
  obtain m e where x: "x = Fin m e" using assms(1) by (cases x) simp_all
  obtain m' e' where K: "num_of_int K = Fin m' e'"
    using num_val_of_int(2) [of K] by (cases "num_of_int K") simp_all
  let ?n = "scale_num 2 m e" and ?d = "scale_den 2 e"
  let ?n' = "scale_num 2 m' e'" and ?d' = "scale_den 2 e'"
  have val: "of_int ?n / of_int ?d = num_val x" using scale_quotient [of 2 m e] by (simp add: x)
  have val': "of_int ?n' / of_int ?d' = (of_int K :: real)"
    using scale_quotient [of 2 m' e'] num_val_of_int(1) [of K] by (simp add: K)
  have d: "0 < ?d" "0 < ?d'" by simp_all
  have prod: "of_int ?n = num_val x * of_int ?d" using val by (simp add: field_simps)
  have "0 \<le> (of_int ?d :: real)" using d(1) by (simp only: of_int_0_le_iff less_imp_le)
  then have "0 \<le> (of_int ?n :: real)" "of_int ?n \<le> (of_int ?d :: real)"
    using assms(2,3) by (simp_all only: prod mult_nonneg_nonneg mult_left_le_one_le)
  then have n: "0 \<le> ?n" "?n \<le> ?d" by (simp_all only: of_int_0_le_iff of_int_le_iff)
  have "(of_int ?n' :: real) = of_int (K * ?d')" using val' d(2) by (simp add: field_simps)
  then have n': "?n' = K * ?d'" by (simp only: of_int_eq_iff)
  have "?n * ?n' \<le> K * (?d * ?d')"
    using n(2) assms(4) d by (simp add: n' mult.assoc mult.left_commute mult_left_mono)
  moreover have "0 \<le> ?n * ?n'"
    unfolding n' using n(1) assms(4) d by (intro mult_nonneg_nonneg) linarith+
  ultimately show ?thesis
    using round_frac_between [of "?n * ?n'" "?d * ?d'" K] assms(4,5) d by (simp add: x K)
qed

text \<open>\<^verbatim>\<open>Math.max(0, Math.min(1, x)) * 100\<close>, which several indicators show.\<close>

definition unit_percent :: "jsnum \<Rightarrow> jsnum" where
  "unit_percent x = num_mult (math_max num_zero (math_min (num_of_int 1) x)) (num_of_int 100)"

lemma clamp_unit:
  "x \<noteq> NaN \<Longrightarrow> is_fin (math_max num_zero (math_min (num_of_int 1) x))
     \<and> 0 \<le> num_val (math_max num_zero (math_min (num_of_int 1) x))
     \<and> num_val (math_max num_zero (math_min (num_of_int 1) x)) \<le> 1"
proof (cases x)
  case (Fin m e)
  have fin: "is_fin x" "is_fin num_zero" by (simp_all add: Fin)
  have "is_fin (math_min (num_of_int 1) x)"
    using math_min_fin(1) [of "num_of_int 1" x] fin by auto
  with fin show ?thesis
    using math_max_fin [of num_zero "math_min (num_of_int 1) x"] math_min_fin(2) [of "num_of_int 1" x]
    by auto
next
  case (Inf b)
  have one: "num_of_int 1 = Fin 1 0" by (simp add: num_of_int_def mk_fin_def strip2.simps)
  have "num_less num_zero (Fin 1 0)" by (simp add: scale_num_def scale_den_def)
  then show ?thesis by (cases b) (simp_all add: Inf one math_min_def math_max_def)
qed simp

lemma unit_percent_bounds:
  assumes "x \<noteq> NaN"
  shows "is_fin (unit_percent x) \<and> 0 \<le> num_val (unit_percent x) \<and> num_val (unit_percent x) \<le> 100"
  using num_mult_between [of "math_max num_zero (math_min (num_of_int 1) x)" 100] clamp_unit [OF assms]
  by (simp add: unit_percent_def)

lemma unit_percent_NaN [simp]: "unit_percent NaN = NaN"
  by (simp add: unit_percent_def math_min_def math_max_def)

lemma math_round_bounds:
  assumes "is_fin x" and "of_int a \<le> num_val x" and "num_val x \<le> of_int b"
  shows "\<exists>n. math_round x = num_of_int n \<and> a \<le> n \<and> n \<le> b"
proof -
  obtain m e where x: "x = Fin m e" using assms(1) by (cases x) simp_all
  let ?n = "scale_num 2 m e" and ?d = "scale_den 2 e"
  have d: "0 < ?d" by simp
  have val: "of_int ?n / of_int ?d = num_val x" using scale_quotient [of 2 m e] by (simp add: x)
  have "(of_int (a * ?d) :: real) \<le> of_int ?n" "(of_int ?n :: real) \<le> of_int (b * ?d)"
    using assms(2,3) d unfolding val [symmetric] by (simp_all add: field_simps)
  then have n: "a * ?d \<le> ?n" "?n \<le> b * ?d" by (simp_all only: of_int_le_iff)
  have "a = (a * (2 * ?d)) div (2 * ?d)" using d by simp
  also have "\<dots> \<le> (2 * ?n + ?d) div (2 * ?d)" using n(1) d by (intro zdiv_mono1) linarith+
  finally have "a \<le> (2 * ?n + ?d) div (2 * ?d)" .
  moreover have "(2 * ?n + ?d) div (2 * ?d) \<le> (?d + b * (2 * ?d)) div (2 * ?d)"
    using n(2) d by (intro zdiv_mono1) linarith+
  moreover have "(?d + b * (2 * ?d)) div (2 * ?d) = b"
    using d by (simp add: div_pos_pos_trivial)
  ultimately show ?thesis by (auto simp: x)
qed

end
