(* ===== verification/Order_Book.thy ===== *)
theory Order_Book
  imports Url_Utils Js_Order
begin

text \<open>
  The order book of the liquidity page: \<^verbatim>\<open>components/OrderBook\<close> (\<^verbatim>\<open>OrderBook.js\<close>, \<^verbatim>\<open>Orders.js\<close>,
  \<^verbatim>\<open>OrderRow.js\<close>). Prices and amounts are whatever the message held.
\<close>

section \<open>Rows\<close>

record own_order =
  oo_price :: jsv
  oo_amount :: jsv

record order_side =
  os_snapshot :: "(jsv \<times> jsv) list"
  os_orders :: "own_order list"

text \<open>\<^verbatim>\<open>currentAmount += e.amount\<close> over the own orders at the price of a level.\<close>

definition currentAmount :: "own_order list \<Rightarrow> jsv \<Rightarrow> jsv" where
  "currentAmount orders price =
     fold (\<lambda>e acc. js_add acc (oo_amount e))
       (filter (\<lambda>e. strict_eq (oo_price e) price) orders) (JNum num_zero)"

definition is_positive :: "jsv \<Rightarrow> bool" where
  "is_positive v \<longleftrightarrow> num_less num_zero (js_to_num v)"

type_synonym order_entry = "(jsv \<times> jsv) \<times> jsv"

definition Orders_step :: "own_order list \<Rightarrow> jsv \<times> jsv \<Rightarrow> order_entry list \<Rightarrow> order_entry list" where
  "Orders_step orders snapshot rows =
     (let amount = currentAmount orders (fst snapshot)
      in if length rows \<le> 20 \<or> is_positive amount then rows @ [(snapshot, amount)] else rows)"

definition Orders_rows :: "order_side \<Rightarrow> order_entry list" where
  "Orders_rows side = fold (Orders_step (os_orders side)) (os_snapshot side) []"

record order_row =
  or_percentage :: jsnum
  or_price :: jsnum
  or_amount :: jsnum

definition OrderRow :: "jsnum \<Rightarrow> order_entry \<Rightarrow> order_row" where
  "OrderRow desiredAmount = (\<lambda>((price, amount), current).
     let p = (if num_truthy desiredAmount
              then num_div (num_mult (js_to_num current) (num_of_int 100)) desiredAmount
              else num_zero);
         p' = (if num_less (num_of_int 100) p then num_of_int 100 else p)
     in \<lparr>or_percentage = p', or_price = round_to price (JNum (num_of_int 8)),
         or_amount = round_to amount (JNum (num_of_int 8))\<rparr>)"

definition Orders_render :: "jsnum \<Rightarrow> order_side \<Rightarrow> order_row list" where
  "Orders_render desiredAmount side = map (OrderRow desiredAmount) (Orders_rows side)"

section \<open>The book\<close>

record order_state =
  ob_buy :: order_side
  ob_sell :: order_side
  ob_desiredAmount :: jsv

record book_view =
  bv_sell :: "order_row list"
  bv_buy :: "order_row list"
  bv_separator_left :: bool

text \<open>Without a symbol or an order state the spinner is shown.\<close>

definition OrderBook :: "symbol option \<Rightarrow> order_state option \<Rightarrow> book_view option" where
  "OrderBook symb st =
     (case (symb, st) of
        (Some _, Some o') \<Rightarrow>
          let desired = js_to_num (ob_desiredAmount o')
          in Some \<lparr>bv_sell = Orders_render desired (ob_sell o'),
                   bv_buy = Orders_render desired (ob_buy o'),
                   bv_separator_left =
                     length (os_snapshot (ob_sell o')) < length (os_snapshot (ob_buy o'))\<rparr>
      | _ \<Rightarrow> None)"

section \<open>Which levels are shown\<close>

definition level_entry :: "own_order list \<Rightarrow> jsv \<times> jsv \<Rightarrow> order_entry" where
  "level_entry orders l = (l, currentAmount orders (fst l))"

definition own_level :: "own_order list \<Rightarrow> jsv \<times> jsv \<Rightarrow> bool" where
  "own_level orders l \<longleftrightarrow> is_positive (currentAmount orders (fst l))"

lemma Orders_fold_full:
  assumes "20 < length rows"
  shows "fold (Orders_step orders) ls rows = rows @ map (level_entry orders) (filter (own_level orders) ls)"
  using assms
  by (induction ls arbitrary: rows) (auto simp: Orders_step_def level_entry_def own_level_def Let_def)

lemma Orders_fold_room:
  "length rows + length ls \<le> 21 \<Longrightarrow>
     fold (Orders_step orders) ls rows = rows @ map (level_entry orders) ls"
  by (induction ls arbitrary: rows) (simp_all add: Orders_step_def level_entry_def Let_def)


text \<open>
  Own amounts that arrive as strings are concatenated, not added: two orders of \<open>1.5\<close> and \<open>2.5\<close>
  at one price give a text that is no number, so the level does not count as an own one.
\<close>

lemma own_amounts_concatenate:
  "currentAmount [\<lparr>oo_price = JStr ''9'', oo_amount = JStr ''1.5''\<rparr>,
                  \<lparr>oo_price = JStr ''9'', oo_amount = JStr ''2.5''\<rparr>] (JStr ''9'') = JStr ''01.52.5''"
  "\<not> own_level [\<lparr>oo_price = JStr ''9'', oo_amount = JStr ''1.5''\<rparr>,
                  \<lparr>oo_price = JStr ''9'', oo_amount = JStr ''2.5''\<rparr>] (JStr ''9'', JStr ''4'')"
  by code_simp+

end
