(* ===== verification/Routing.thy ===== *)
theory Routing
  imports Url_Utils Session
begin

text \<open>
  \<^verbatim>\<open>App.js\<close>: which page and which header an address shows to whom. The two \<^verbatim>\<open>Switch\<close> blocks are
  lists of routes, each present only when its guard on the client type or the role holds. How
  \<^verbatim>\<open>react-router\<close> matches an address against a route is the parameter \<open>m\<close>; what the code
  relies on is \<open>documented_matcher\<close>.
\<close>

section \<open>Roles and client types\<close>

definition clientType_ico :: string where "clientType_ico = ''Ico''"
definition clientType_exchange :: string where "clientType_exchange = ''Exchange''"
definition clientType_signals :: string where "clientType_signals = ''Signals''"
definition clientType_arbitrage :: string where "clientType_arbitrage = ''Arbitrage''"
definition clientRoles_user :: string where "clientRoles_user = ''USER''"
definition clientRoles_admin :: string where "clientRoles_admin = ''ADMIN''"

lemmas constants_defs = clientType_ico_def clientType_exchange_def clientType_signals_def
  clientType_arbitrage_def clientRoles_user_def clientRoles_admin_def

text \<open>\<^verbatim>\<open>role.toUpperCase()\<close>: only a string has the method.\<close>

fun toUpperCase_of :: "jsv \<Rightarrow> string res" where
  "toUpperCase_of (JStr s) = Inr (to_upper s)"
| "toUpperCase_of v = Inl TypeError"

definition App_role_is :: "string \<Rightarrow> session \<Rightarrow> bool res" where
  "App_role_is r s =
     (if truthy (ses_role s) then res_bind (toUpperCase_of (ses_role s)) (\<lambda>u. Inr (u = r))
      else Inr False)"

definition client_is :: "string \<Rightarrow> session \<Rightarrow> bool" where
  "client_is t s \<longleftrightarrow> strict_eq (ses_clientType s) (JStr t)"

section \<open>Routes\<close>

datatype screen =
    Users | Configuration | PostponedFills | Explanation | PLGraph | Volume | Price | Signals
  | Liquidity | Balances | TradeSignals | PL | Arbitrage | Home

record route =
  rt_path :: string
  rt_params :: nat
  rt_screen :: screen

definition route :: "string \<Rightarrow> nat \<Rightarrow> screen \<Rightarrow> route" where
  "route path n scr = \<lparr>rt_path = path, rt_params = n, rt_screen = scr\<rparr>"

text \<open>\<^verbatim>\<open>{cond && <Route/>}\<close>: a \<^verbatim>\<open>Switch\<close> skips a child that is not an element.\<close>

definition guarded :: "bool \<Rightarrow> 'a \<Rightarrow> 'a list" where
  "guarded b x = (if b then [x] else [])"

lemma in_guarded [simp]: "y \<in> set (guarded b x) \<longleftrightarrow> b \<and> y = x"
  by (cases b) (simp_all add: guarded_def)

text \<open>The routes of everyone.\<close>

definition common_routes :: "route list" where
  "common_routes =
     [route ''/rebalancing'' 0 Balances, route ''/trade-signals'' 0 TradeSignals,
      route ''/profits'' 2 PL]"

definition App_routes :: "session \<Rightarrow> route list res" where
  "App_routes s =
     res_bind (App_role_is clientRoles_user s) (\<lambda>isUser.
     res_bind (App_role_is clientRoles_admin s) (\<lambda>isAdmin.
     let isArbitrage = client_is clientType_arbitrage s;
         isIco = client_is clientType_ico s;
         isSignals = client_is clientType_signals s
     in Inr (
       guarded isUser (route ''/users'' 0 Users)
       @ guarded isAdmin (route ''/configuration'' 0 Configuration)
       @ guarded isAdmin (route ''/postponed-fills'' 0 PostponedFills)
       @ guarded isAdmin (route ''/explanation'' 2 Explanation)
       @ guarded isAdmin (route ''/plgraph'' 2 PLGraph)
       @ guarded (\<not> isArbitrage) (route ''/volume'' 3 Volume)
       @ guarded isIco (route ''/price'' 0 Price)
       @ guarded isSignals (route ''/signals'' 2 Signals)
       @ guarded (\<not> isArbitrage) (route ''/liquidity'' 3 Liquidity)
       @ common_routes
       @ guarded isArbitrage (route ''/arbitrage'' 2 Arbitrage)
       @ guarded (\<not> isArbitrage) (route ''/'' 0 Home))))"

definition App_redirect :: "session \<Rightarrow> string" where
  "App_redirect s = (if \<not> client_is clientType_arbitrage s then ''/'' else ''/arbitrage'')"

text \<open>
  The headers: the props each \<^verbatim>\<open>Header\<close> element is given. Props no element gives are the
  false ones.
\<close>

record header_spec =
  hs_path :: string
  hs_params :: nat
  hs_needAll :: bool
  hs_isNeedInterval :: bool
  hs_isNeedExchange :: bool
  hs_isNeedCurrencyCodePair :: bool
  hs_isNeedStrategy :: bool
  hs_needShowStrategies :: bool
  hs_needTimeWrapper :: bool
  hs_hideNow :: bool

definition header :: "string \<Rightarrow> nat \<Rightarrow> bool \<Rightarrow> bool \<Rightarrow> header_spec" where
  "header path n needAll needInterval =
     \<lparr>hs_path = path, hs_params = n, hs_needAll = needAll, hs_isNeedInterval = needInterval,
      hs_isNeedExchange = True, hs_isNeedCurrencyCodePair = True, hs_isNeedStrategy = False,
      hs_needShowStrategies = False, hs_needTimeWrapper = False, hs_hideNow = False\<rparr>"

definition App_headers :: "session \<Rightarrow> header_spec list res" where
  "App_headers s =
     res_bind (App_role_is clientRoles_admin s) (\<lambda>isAdmin.
     let isArbitrage = client_is clientType_arbitrage s;
         isSignals = client_is clientType_signals s
     in Inr (
       guarded (\<not> isArbitrage) (header ''/volume'' 3 False True)
       @ guarded (\<not> isArbitrage) (header ''/liquidity'' 3 False True)
       @ guarded isAdmin (header ''/explanation'' 2 False False)
       @ guarded isAdmin (header ''/plgraph'' 2 False False)
       @ guarded isArbitrage (header ''/arbitrage'' 2 False False)
       @ guarded isSignals (header ''/signals'' 2 False False)
       @ [header ''/profits'' 2 True False]))"

section \<open>What is shown\<close>

text \<open>
  A matcher takes the fixed part of a route, the number of its optional parameters and an
  address, and gives the parameters that are present when the whole address matches.
\<close>

type_synonym matcher = "string \<Rightarrow> nat \<Rightarrow> string \<Rightarrow> string list option"

fun switch :: "matcher \<Rightarrow> route list \<Rightarrow> string \<Rightarrow> (screen \<times> string list) option" where
  "switch m [] p = None"
| "switch m (r # rs) p =
     (case m (rt_path r) (rt_params r) p of
        Some vs \<Rightarrow> Some (rt_screen r, vs)
      | None \<Rightarrow> switch m rs p)"

fun switch_header :: "matcher \<Rightarrow> header_spec list \<Rightarrow> string \<Rightarrow> header_spec option" where
  "switch_header m [] p = None"
| "switch_header m (h # hs) p =
     (case m (hs_path h) (hs_params h) p of
        Some vs \<Rightarrow> Some h
      | None \<Rightarrow> switch_header m hs p)"

text \<open>
  The route \<open>/\<close> shows nothing and sends the browser to another address, which loads the page
  anew; the element after all the routes replaces the address within the page.
\<close>

datatype content = Show screen "string list" | RedirectTo string | Leave string

definition App_content :: "matcher \<Rightarrow> session \<Rightarrow> string \<Rightarrow> content res" where
  "App_content m s p =
     res_bind (App_routes s) (\<lambda>rs.
       Inr (case switch m rs p of
              Some (Home, vs) \<Rightarrow> Leave ''/liquidity/now/''
            | Some (scr, vs) \<Rightarrow> Show scr vs
            | None \<Rightarrow> RedirectTo (App_redirect s)))"

definition App_header :: "matcher \<Rightarrow> session \<Rightarrow> string \<Rightarrow> header_spec option res" where
  "App_header m s p = res_bind (App_headers s) (\<lambda>hs. Inr (switch_header m hs p))"

section \<open>The component\<close>

record app =
  app_isAuthorized :: bool
  app_role :: jsv

text \<open>The constructor restores the session and registers the listener \<open>i\<close>.\<close>

definition App_new :: "(jsv \<Rightarrow> jsv res) \<Rightarrow> nat \<Rightarrow> session \<Rightarrow> (js_error option \<times> session) \<times> app" where
  "App_new decode i s =
     (case loadToken decode s of
        (Some e, s1) \<Rightarrow> ((Some e, s1), \<lparr>app_isAuthorized = False, app_role = JStr ''''\<rparr>)
      | (None, s1) \<Rightarrow>
          ((None, s1\<lparr>ses_listners := ses_listners s1 @ [i]\<rparr>),
           \<lparr>app_isAuthorized = ses_isAuthorized s1, app_role = JStr ''''\<rparr>))"

definition App_listner :: "session \<Rightarrow> app \<Rightarrow> app" where
  "App_listner s a = \<lparr>app_isAuthorized = ses_isAuthorized s, app_role = ses_role s\<rparr>"

datatype rendering = Authentication | Main "header_spec option" content

definition App_render :: "matcher \<Rightarrow> session \<Rightarrow> string \<Rightarrow> app \<Rightarrow> rendering res" where
  "App_render m s p a =
     res_bind (App_role_is clientRoles_user s) (\<lambda>_.
     res_bind (App_role_is clientRoles_admin s) (\<lambda>_.
       if app_isAuthorized a then
         res_bind (App_header m s p) (\<lambda>h.
         res_bind (App_content m s p) (\<lambda>c. Inr (Main h c)))
       else Inr Authentication))"

section \<open>What the code relies on of the router\<close>

definition address :: "string \<Rightarrow> string list \<Rightarrow> string" where
  "address path vs = path @ concat (map (\<lambda>v. CHR ''/'' # v) vs)"

definition segment_ok :: "string \<Rightarrow> bool" where
  "segment_ok v \<longleftrightarrow> v \<noteq> [] \<and> set v \<inter> {CHR ''/'', CHR ''%'', CHR ''?'', CHR ''#''} = {}"

definition plain_path :: "string \<Rightarrow> bool" where
  "plain_path path \<longleftrightarrow>
     (case path of
        [] \<Rightarrow> False
      | c # w \<Rightarrow> c = CHR ''/'' \<and> w \<noteq> []
          \<and> list_all (\<lambda>x. x \<noteq> CHR ''/'' \<and> lower_char x = x) w)"

text \<open>
  A route with optional parameters matches its fixed part followed by values, with or without a
  slash at the end; whatever matches is of that form up to the case of letters. The route \<open>/\<close>
  matches the address \<open>/\<close>.
\<close>

definition documented_matcher :: "matcher \<Rightarrow> bool" where
  "documented_matcher m \<longleftrightarrow>
     (\<forall>path n vs. plain_path path \<and> length vs \<le> n \<and> list_all segment_ok vs \<longrightarrow>
        m path n (address path vs) = Some vs \<and> m path n (address path vs @ ''/'') = Some vs)
     \<and> m ''/'' 0 ''/'' = Some []
     \<and> (\<forall>path n p vs. (plain_path path \<or> (path = ''/'' \<and> n = 0)) \<and> p \<noteq> [] \<and> m path n p = Some vs \<longrightarrow>
          length vs \<le> n \<and> list_all clean_name vs
          \<and> (to_lower p = to_lower (address path vs)
             \<or> (path \<noteq> ''/'' \<and> to_lower p = to_lower (address path vs) @ ''/'')))"

lemma matcher_hit:
  assumes "documented_matcher m" and "plain_path path" and "length vs \<le> n"
    and "list_all segment_ok vs"
  shows "m path n (address path vs) = Some vs" and "m path n (address path vs @ ''/'') = Some vs"
  using assms by (simp_all add: documented_matcher_def)

lemma matcher_root: "documented_matcher m \<Longrightarrow> m ''/'' 0 ''/'' = Some []"
  by (simp add: documented_matcher_def)

text \<open>The first segment of an address decides which route can match.\<close>

definition root_segment :: "string \<Rightarrow> string" where
  "root_segment p = takeWhile (\<lambda>c. c \<noteq> CHR ''/'') (tl p)"

lemma lower_slash [simp]: "lower_char c = CHR ''/'' \<longleftrightarrow> c = CHR ''/''"
proof -
  have "lower_char c = CHR ''/'' \<Longrightarrow> c = CHR ''/''"
  proof (cases "of_char c \<in> {65..90 :: nat}")
    case True
    assume "lower_char c = CHR ''/''"
    with True have "char_of (of_char c + 32 :: nat) = CHR ''/''" by (simp add: lower_char_def)
    then have "of_char (char_of (of_char c + 32 :: nat)) = (47 :: nat)" by simp
    with True have "of_char c + 32 = (47 :: nat)" by simp
    with True show ?thesis by simp
  qed (auto simp: lower_char_def split: if_splits)
  moreover have "lower_char (CHR ''/'') = CHR ''/''" by (simp add: lower_char_def)
  ultimately show ?thesis by blast
qed

lemma lower_char_slash [simp]: "lower_char (CHR ''/'') = CHR ''/''"
  by simp

lemma root_segment_lower: "root_segment (to_lower p) = to_lower (root_segment p)"
  by (cases p) (simp_all add: root_segment_def to_lower_def takeWhile_map o_def)

lemma to_lower_plain: "plain_path path \<Longrightarrow> to_lower path = path"
  by (cases path) (auto simp: plain_path_def to_lower_def list_all_iff intro!: map_idI)

lemma root_segment_address:
  assumes "plain_path path"
  shows "root_segment (address path vs) = tl path"
    and "root_segment (address path vs @ ''/'') = tl path"
  using assms
  by (cases vs; auto simp: plain_path_def root_segment_def address_def list_all_iff
      split: list.splits)+

lemma matcher_segment:
  assumes "documented_matcher m" and path: "plain_path path \<or> (path = ''/'' \<and> n = 0)"
    and "p \<noteq> []" and "m path n p = Some vs"
  shows "to_lower (root_segment p) = tl path"
proof -
  from assms have len: "length vs \<le> n" and p: "to_lower p = to_lower (address path vs)
      \<or> (path \<noteq> ''/'' \<and> to_lower p = to_lower (address path vs) @ ''/'')"
    unfolding documented_matcher_def by blast+
  from path show ?thesis
  proof
    assume plain: "plain_path path"
    have "to_lower p = to_lower (address path vs) \<or> to_lower p = to_lower (address path vs @ ''/'')"
      using p by (auto simp: to_lower_def)
    then have "root_segment (to_lower p) = to_lower (tl path)"
      by (elim disjE)
        (simp_all only: root_segment_lower root_segment_address [OF plain])
    moreover have "to_lower (tl path) = tl path"
      using to_lower_plain [OF plain] by (simp add: to_lower_def map_tl)
    ultimately show ?thesis by (simp add: root_segment_lower)
  next
    assume "path = ''/'' \<and> n = 0"
    with p len have "root_segment (to_lower p) = []"
      by (simp add: address_def to_lower_def root_segment_def)
    with \<open>path = ''/'' \<and> n = 0\<close> show ?thesis by (simp add: root_segment_lower)
  qed
qed

section \<open>The two switches\<close>

definition route_ok :: "string \<times> nat \<Rightarrow> bool" where
  "route_ok r \<longleftrightarrow> plain_path (fst r) \<or> r = (''/'', 0)"

lemma match_unique:
  assumes "documented_matcher m" and "p \<noteq> []"
    and "route_ok (path, n)" and "route_ok (path', n')"
    and "m path n p = Some vs" and "m path' n' p = Some vs'"
  shows "path = path'"
proof -
  have hd: "path = CHR ''/'' # tl path" if "route_ok (path, n)" for path n
    using that by (auto simp: route_ok_def plain_path_def split: list.splits)
  have "tl path = tl path'"
    using matcher_segment [OF assms(1) _ assms(2,5)] matcher_segment [OF assms(1) _ assms(2,6)]
      assms(3,4)
    by (auto simp: route_ok_def)
  with hd [OF assms(3)] hd [OF assms(4)] show ?thesis by metis
qed

lemma switch_in:
  "switch m rs p = Some (scr, vs) \<Longrightarrow>
     \<exists>r \<in> set rs. m (rt_path r) (rt_params r) p = Some vs \<and> rt_screen r = scr"
  by (induction rs) (auto split: option.splits)

lemma switch_None:
  "switch m rs p = None \<longleftrightarrow> (\<forall>r \<in> set rs. m (rt_path r) (rt_params r) p = None)"
  by (induction rs) (auto split: option.splits)

lemma switch_unique:
  assumes "documented_matcher m" and "p \<noteq> []"
    and "\<forall>r \<in> set rs. route_ok (rt_path r, rt_params r)" and "distinct (map rt_path rs)"
    and "r \<in> set rs" and "m (rt_path r) (rt_params r) p = Some vs"
  shows "switch m rs p = Some (rt_screen r, vs)"
  using assms(3-6)
proof (induction rs)
  case (Cons q qs)
  show ?case
  proof (cases "m (rt_path q) (rt_params q) p")
    case None
    with Cons show ?thesis by auto
  next
    case (Some us)
    then have "rt_path q = rt_path r"
      using match_unique [OF assms(1,2) _ _ Some Cons.prems(4)] Cons.prems(1,3) by auto
    with Cons.prems(2,3) have "q = r" by auto
    with Some Cons.prems(4) show ?thesis by simp
  qed
qed simp

lemma switch_header_in:
  "switch_header m hs p = Some h \<Longrightarrow>
     h \<in> set hs \<and> m (hs_path h) (hs_params h) p \<noteq> None"
  by (induction hs) (auto split: option.splits)

lemma switch_header_None:
  "switch_header m hs p = None \<longleftrightarrow> (\<forall>h \<in> set hs. m (hs_path h) (hs_params h) p = None)"
  by (induction hs) (auto split: option.splits)

section \<open>Who sees what\<close>

text \<open>The role of a session that can be shown: a string, or nothing.\<close>

definition role_readable :: "session \<Rightarrow> bool" where
  "role_readable s \<longleftrightarrow> is_string (ses_role s) \<or> \<not> truthy (ses_role s)"

definition has_role :: "string \<Rightarrow> session \<Rightarrow> bool" where
  "has_role r s =
     (case ses_role s of JStr x \<Rightarrow> x \<noteq> [] \<and> to_upper x = r | _ \<Rightarrow> False)"

lemma App_role_is_readable:
  "role_readable s \<Longrightarrow> App_role_is r s = Inr (has_role r s)"
  by (cases "ses_role s") (auto simp: App_role_is_def role_readable_def has_role_def)

lemma App_role_is_unreadable:
  "\<not> role_readable s \<Longrightarrow> App_role_is r s = Inl TypeError"
  by (cases "ses_role s") (auto simp: App_role_is_def role_readable_def)

text \<open>The pages of a session, and where each is found.\<close>

fun screen_allowed :: "session \<Rightarrow> screen \<Rightarrow> bool" where
  "screen_allowed s Users = has_role clientRoles_user s"
| "screen_allowed s Configuration = has_role clientRoles_admin s"
| "screen_allowed s PostponedFills = has_role clientRoles_admin s"
| "screen_allowed s Explanation = has_role clientRoles_admin s"
| "screen_allowed s PLGraph = has_role clientRoles_admin s"
| "screen_allowed s Volume = (\<not> client_is clientType_arbitrage s)"
| "screen_allowed s Price = client_is clientType_ico s"
| "screen_allowed s Signals = client_is clientType_signals s"
| "screen_allowed s Liquidity = (\<not> client_is clientType_arbitrage s)"
| "screen_allowed s Balances = True"
| "screen_allowed s TradeSignals = True"
| "screen_allowed s PL = True"
| "screen_allowed s Arbitrage = client_is clientType_arbitrage s"
| "screen_allowed s Home = (\<not> client_is clientType_arbitrage s)"

fun screen_route :: "screen \<Rightarrow> string \<times> nat" where
  "screen_route Users = (''/users'', 0)"
| "screen_route Configuration = (''/configuration'', 0)"
| "screen_route PostponedFills = (''/postponed-fills'', 0)"
| "screen_route Explanation = (''/explanation'', 2)"
| "screen_route PLGraph = (''/plgraph'', 2)"
| "screen_route Volume = (''/volume'', 3)"
| "screen_route Price = (''/price'', 0)"
| "screen_route Signals = (''/signals'', 2)"
| "screen_route Liquidity = (''/liquidity'', 3)"
| "screen_route Balances = (''/rebalancing'', 0)"
| "screen_route TradeSignals = (''/trade-signals'', 0)"
| "screen_route PL = (''/profits'', 2)"
| "screen_route Arbitrage = (''/arbitrage'', 2)"
| "screen_route Home = (''/'', 0)"

lemma lower_char_ascii: "of_char c \<notin> {65..90 :: nat} \<Longrightarrow> lower_char c = c"
  by (auto simp: lower_char_def)

lemma screen_route_ok: "route_ok (screen_route scr)"
  by (cases scr; simp add: route_ok_def plain_path_def lower_char_ascii)

lemma screen_route_inj: "fst (screen_route a) = fst (screen_route b) \<Longrightarrow> a = b"
  by (cases a; cases b; simp)

lemma screen_match_unique:
  assumes "documented_matcher m" and "p \<noteq> []"
    and "m (fst (screen_route a)) (snd (screen_route a)) p \<noteq> None"
    and "m (fst (screen_route b)) (snd (screen_route b)) p \<noteq> None"
  shows "a = b"
proof -
  from assms(3,4) obtain vs vs' where "m (fst (screen_route a)) (snd (screen_route a)) p = Some vs"
    "m (fst (screen_route b)) (snd (screen_route b)) p = Some vs'" by blast
  from match_unique [OF assms(1,2) _ _ this] screen_route_ok screen_route_inj show ?thesis by simp
qed

text \<open>The routes of a session are its pages, in the order of the source.\<close>

definition screens :: "screen list" where
  "screens = [Users, Configuration, PostponedFills, Explanation, PLGraph, Volume, Price, Signals,
     Liquidity, Balances, TradeSignals, PL, Arbitrage, Home]"

definition route_of :: "screen \<Rightarrow> route" where
  "route_of scr = route (fst (screen_route scr)) (snd (screen_route scr)) scr"

lemma route_of_sel [simp]:
  "rt_screen (route_of scr) = scr"
  "rt_path (route_of scr) = fst (screen_route scr)"
  "rt_params (route_of scr) = snd (screen_route scr)"
  by (simp_all add: route_of_def route_def)

lemma map_filter_guarded:
  "map f (filter P (x # xs)) = guarded (P x) (f x) @ map f (filter P xs)"
  by (simp add: guarded_def)

lemma guarded_True [simp]: "guarded True x = [x]"
  by (simp add: guarded_def)

lemma screens_all: "scr \<in> set screens" "distinct screens"
  by (cases scr; simp add: screens_def) (simp add: screens_def)

lemma App_routes_readable:
  assumes "role_readable s"
  shows "App_routes s = Inr (map route_of (filter (screen_allowed s) screens))"
  using assms unfolding screens_def map_filter_guarded
  by (simp add: App_routes_def common_routes_def App_role_is_readable route_of_def Let_def)

lemma App_routes_unreadable: "\<not> role_readable s \<Longrightarrow> App_routes s = Inl TypeError"
  by (simp add: App_routes_def App_role_is_unreadable)

text \<open>The first switch shows a page exactly when the page is the session's and its route matches.\<close>

lemma switch_pages:
  assumes "documented_matcher m" and "p \<noteq> []"
  shows "switch m (map route_of (filter (screen_allowed s) screens)) p = Some (scr, vs) \<longleftrightarrow>
    screen_allowed s scr \<and> m (fst (screen_route scr)) (snd (screen_route scr)) p = Some vs"
    (is "switch m ?rs p = _ \<longleftrightarrow> ?R")
proof
  assume "switch m ?rs p = Some (scr, vs)"
  then show ?R by (auto dest!: switch_in)
next
  assume R: ?R
  have "distinct (map rt_path ?rs)"
    using screens_all(2) screen_route_inj by (auto simp: distinct_map inj_on_def)
  moreover have "\<forall>r \<in> set ?rs. route_ok (rt_path r, rt_params r)"
    using screen_route_ok by auto
  moreover have "route_of scr \<in> set ?rs" using R screens_all(1) by simp
  ultimately have "switch m ?rs p = Some (rt_screen (route_of scr), vs)"
    using R by (intro switch_unique [OF assms]) simp_all
  then show "switch m ?rs p = Some (scr, vs)" by simp
qed

lemma App_content_show:
  assumes "documented_matcher m" and "p \<noteq> []" and "role_readable s"
  shows "App_content m s p = Inr (Show scr vs) \<longleftrightarrow>
    scr \<noteq> Home \<and> screen_allowed s scr
    \<and> m (fst (screen_route scr)) (snd (screen_route scr)) p = Some vs"
proof -
  have "App_content m s p = Inr (Show scr vs) \<longleftrightarrow>
      scr \<noteq> Home \<and> switch m (map route_of (filter (screen_allowed s) screens)) p = Some (scr, vs)"
    by (auto simp: App_content_def App_routes_readable [OF assms(3)] split: option.splits screen.splits)
  with switch_pages [OF assms(1,2)] show ?thesis by simp
qed

text \<open>A matcher as documented, for concrete runs: segments compared without regard to case.\<close>

definition demo_match :: matcher where
  "demo_match path n p =
     (if path = ''/'' then (if p = ''/'' then Some [] else None)
      else
        (let segs = tl (split_on CHR ''/'' p);
             vs = (if segs \<noteq> [] \<and> last segs = [] then butlast segs else segs)
         in if hd (split_on CHR ''/'' p) = [] \<and> vs \<noteq> []
               \<and> to_lower (hd vs) = to_lower (tl path)
               \<and> length (tl vs) \<le> n \<and> list_all clean_name (tl vs)
            then Some (tl vs) else None))"

lemma address_segments:
  "plain_path path \<Longrightarrow> address path vs = concat (map (\<lambda>v. CHR ''/'' # v) (tl path # vs))"
  by (auto simp: plain_path_def address_def split: list.splits)

lemma split_address:
  assumes "plain_path path" and "list_all segment_ok vs"
  shows "split_on CHR ''/'' (address path vs) = [] # tl path # vs"
    and "split_on CHR ''/'' (address path vs @ ''/'') = [] # tl path # vs @ [[]]"
proof -
  have clean: "\<forall>x \<in> set (tl path # vs). CHR ''/'' \<notin> set x"
    using assms by (auto simp: plain_path_def segment_ok_def list_all_iff split: list.splits)
  show "split_on CHR ''/'' (address path vs) = [] # tl path # vs"
    unfolding address_segments [OF assms(1)] by (rule split_segments [OF clean])
  have "address path vs @ ''/'' = concat (map (\<lambda>v. CHR ''/'' # v) (tl path # vs @ [[]]))"
    by (simp add: address_segments [OF assms(1)])
  then show "split_on CHR ''/'' (address path vs @ ''/'') = [] # tl path # vs @ [[]]"
    using split_segments [of "tl path # vs @ [[]]" "CHR ''/''"] clean by simp
qed

lemma segments_of_split:
  assumes "split_on c p = [] # segs" and "segs \<noteq> []"
  shows "p = concat (map (\<lambda>v. c # v) segs)"
proof -
  have join: "join_with [c] ([] # xs) = concat (map (\<lambda>v. c # v) xs)" if "xs \<noteq> []" for xs
    using that
  proof (induction xs)
    case (Cons x xs)
    then show ?case by (cases xs) (simp_all add: join_with_Cons)
  qed simp
  from join_split_on [of c p] assms join show ?thesis by simp
qed

lemma demo_match_sound:
  assumes "plain_path path" and "demo_match path n p = Some vs"
  shows "length vs \<le> n" and "list_all clean_name vs"
    and "to_lower p = to_lower (address path vs) \<or> to_lower p = to_lower (address path vs) @ ''/''"
proof -
  obtain x segs where split: "split_on CHR ''/'' p = x # segs"
    by (metis split_on_nonempty list.exhaust)
  define us where "us = (if segs \<noteq> [] \<and> last segs = [] then butlast segs else segs)"
  have *: "x = []" "us \<noteq> []" "to_lower (hd us) = to_lower (tl path)" "vs = tl us"
      "length vs \<le> n" "list_all clean_name vs"
    using assms by (auto simp: demo_match_def split plain_path_def Let_def us_def split: if_splits)
  then show "length vs \<le> n" and "list_all clean_name vs" by simp_all
  have segs: "p = concat (map (\<lambda>v. CHR ''/'' # v) segs)"
    using split * by (intro segments_of_split) (auto simp: us_def)
  have "segs = us \<or> segs = us @ [[]]"
    by (metis append_butlast_last_id us_def)
  then have "p = concat (map (\<lambda>v. CHR ''/'' # v) us)
      \<or> p = concat (map (\<lambda>v. CHR ''/'' # v) us) @ ''/''"
    using segs by (elim disjE) simp_all
  moreover have "us = hd us # vs" using * by simp
  ultimately have "p = CHR ''/'' # hd us @ concat (map (\<lambda>v. CHR ''/'' # v) vs)
      \<or> p = CHR ''/'' # hd us @ concat (map (\<lambda>v. CHR ''/'' # v) vs) @ ''/''"
    by (metis append_Cons append_assoc concat.simps(2) list.simps(9))
  then show "to_lower p = to_lower (address path vs) \<or> to_lower p = to_lower (address path vs) @ ''/''"
    using *(3) by (auto simp: address_segments [OF assms(1)] to_lower_def)
qed

lemma demo_match_hit:
  assumes "plain_path path" and "length vs \<le> n" and "list_all segment_ok vs"
  shows "demo_match path n (address path vs) = Some vs"
    and "demo_match path n (address path vs @ ''/'') = Some vs"
proof -
  have "list_all clean_name vs" "vs \<noteq> [] \<Longrightarrow> last vs \<noteq> []"
    using assms(3) by (auto simp: list_all_iff segment_ok_def clean_name_def)
  moreover have "path \<noteq> ''/''" "tl path \<noteq> []"
    using assms(1) by (auto simp: plain_path_def split: list.splits)
  ultimately show "demo_match path n (address path vs) = Some vs"
    and "demo_match path n (address path vs @ ''/'') = Some vs"
    using assms(2) by (simp_all add: demo_match_def split_address [OF assms(1,3)])
qed

lemma demo_match_documented: "documented_matcher demo_match"
proof -
  have sound: "length vs \<le> n \<and> list_all clean_name vs
      \<and> (to_lower p = to_lower (address path vs)
         \<or> path \<noteq> ''/'' \<and> to_lower p = to_lower (address path vs) @ ''/'')"
    if "plain_path path \<or> (path = ''/'' \<and> n = 0)" "demo_match path n p = Some vs" for path n p vs
    using that(1)
  proof
    assume "plain_path path"
    moreover from this have "path \<noteq> ''/''" by (auto simp: plain_path_def)
    ultimately show ?thesis using demo_match_sound [OF _ that(2)] by blast
  next
    assume "path = ''/'' \<and> n = 0"
    with that(2) show ?thesis by (simp add: demo_match_def address_def split: if_splits)
  qed
  have root: "demo_match ''/'' 0 ''/'' = Some []" by (simp add: demo_match_def)
  show ?thesis
    unfolding documented_matcher_def
    by (intro conjI allI impI; (elim conjE)?)
      (simp add: demo_match_hit, simp add: demo_match_hit, rule root, (simp add: sound)+)
qed

section \<open>Properties of the routes\<close>


definition demo_session :: "string \<Rightarrow> string \<Rightarrow> session" where
  "demo_session role client =
     (page_load Map.empty ''/'')\<lparr>ses_role := JStr role, ses_clientType := JStr client,
        ses_isAuthorized := True\<rparr>"

lemma demo_readable [simp]: "role_readable (demo_session r c)"
  by (simp add: role_readable_def demo_session_def)


text \<open>The header that belongs to a page, and to what a page switch decides.\<close>

fun header_of :: "screen \<Rightarrow> header_spec option" where
  "header_of Volume = Some (header ''/volume'' 3 False True)"
| "header_of Liquidity = Some (header ''/liquidity'' 3 False True)"
| "header_of Explanation = Some (header ''/explanation'' 2 False False)"
| "header_of PLGraph = Some (header ''/plgraph'' 2 False False)"
| "header_of Arbitrage = Some (header ''/arbitrage'' 2 False False)"
| "header_of Signals = Some (header ''/signals'' 2 False False)"
| "header_of PL = Some (header ''/profits'' 2 True False)"
| "header_of _ = None"

fun content_header :: "content \<Rightarrow> header_spec option" where
  "content_header (Show scr vs) = header_of scr"
| "content_header _ = None"

lemma header_sel [simp]:
  "hs_path (header path n a i) = path" "hs_params (header path n a i) = n"
  by (simp_all add: header_def)

lemma header_of_route:
  "header_of scr = Some h \<Longrightarrow> (hs_path h, hs_params h) = screen_route scr"
  by (cases scr) auto

definition header_screens :: "screen list" where
  "header_screens = [Volume, Liquidity, Explanation, PLGraph, Arbitrage, Signals, PL]"

lemma header_screens_iff: "scr \<in> set header_screens \<longleftrightarrow> header_of scr \<noteq> None"
  by (cases scr) (simp_all add: header_screens_def)

lemma App_headers_readable:
  assumes "role_readable s"
  shows "App_headers s = Inr (map (the \<circ> header_of) (filter (screen_allowed s) header_screens))"
  using assms unfolding header_screens_def map_filter_guarded
  by (simp add: App_headers_def App_role_is_readable Let_def)

lemma App_header_readable:
  assumes "documented_matcher m" and "p \<noteq> []" and "role_readable s"
  shows "App_header m s p = Inr (Some h) \<longleftrightarrow>
    (\<exists>scr. screen_allowed s scr \<and> header_of scr = Some h
       \<and> m (fst (screen_route scr)) (snd (screen_route scr)) p \<noteq> None)"
proof -
  let ?hs = "map (the \<circ> header_of) (filter (screen_allowed s) header_screens)"
  have mem: "h \<in> set ?hs \<longleftrightarrow> (\<exists>scr. screen_allowed s scr \<and> header_of scr = Some h)" for h
    using header_screens_iff by (force simp: image_iff)
  have eq: "App_header m s p = Inr (Some h) \<longleftrightarrow> switch_header m ?hs p = Some h"
    by (simp add: App_header_def App_headers_readable [OF assms(3)])
  show ?thesis
  proof
    assume "App_header m s p = Inr (Some h)"
    then have "h \<in> set ?hs" "m (hs_path h) (hs_params h) p \<noteq> None"
      unfolding eq by (auto dest: switch_header_in simp del: set_map)
    then show "\<exists>scr. screen_allowed s scr \<and> header_of scr = Some h
       \<and> m (fst (screen_route scr)) (snd (screen_route scr)) p \<noteq> None"
      unfolding mem using header_of_route by (metis fst_conv snd_conv)
  next
    assume "\<exists>scr. screen_allowed s scr \<and> header_of scr = Some h
       \<and> m (fst (screen_route scr)) (snd (screen_route scr)) p \<noteq> None"
    then obtain scr where scr: "screen_allowed s scr" "header_of scr = Some h"
      "m (fst (screen_route scr)) (snd (screen_route scr)) p \<noteq> None" by blast
    then have "h \<in> set ?hs" "m (hs_path h) (hs_params h) p \<noteq> None"
      using mem header_of_route [OF scr(2)] by (metis, metis fst_conv snd_conv)
    then obtain h' where h': "switch_header m ?hs p = Some h'"
      using switch_header_None [of m ?hs p] by (cases "switch_header m ?hs p") auto
    then have "h' \<in> set ?hs" "m (hs_path h') (hs_params h') p \<noteq> None"
      by (auto dest: switch_header_in simp del: set_map)
    then obtain scr' where scr': "header_of scr' = Some h'"
      "m (fst (screen_route scr')) (snd (screen_route scr')) p \<noteq> None"
      unfolding mem using header_of_route by (metis fst_conv snd_conv)
    have "scr' = scr" by (rule screen_match_unique [OF assms(1,2) scr'(2) scr(3)])
    with scr(2) scr'(1) have "h' = h" by simp
    with h' show "App_header m s p = Inr (Some h)" unfolding eq by simp
  qed
qed

text \<open>
  C16: the header fits the page. The header switch and the page switch are two lists with their
  own guards, and they agree: a page that works on an exchange and a pair is shown under the
  header with its path, every other page and every redirect under none.
\<close>

theorem header_fits_page:
  assumes "documented_matcher m" and "p \<noteq> []" and "role_readable s"
    and "App_content m s p = Inr c"
  shows "App_header m s p = Inr (content_header c)"
proof -
  obtain oh where oh: "App_header m s p = Inr oh"
    by (simp add: App_header_def App_headers_readable [OF assms(3)])
  note page = App_content_show [OF assms(1-3)] and hdr = App_header_readable [OF assms(1-3)]
  have "oh = Some h \<longleftrightarrow> content_header c = Some h" for h
  proof -
    have "oh = Some h \<longleftrightarrow> (\<exists>scr vs. c = Show scr vs \<and> header_of scr = Some h)"
      using hdr [of h] page assms(4) oh header_of.simps(14) by fastforce
    then show ?thesis by (cases c) auto
  qed
  then show ?thesis using oh by (metis option.exhaust)
qed

theorem header_fits_page_witness:
  "App_header demo_match (demo_session ''admin'' ''Exchange'') ''/plgraph/Binance''
      = Inr (Some (header ''/plgraph'' 2 False False))
   \<and> App_header demo_match (demo_session ''user'' ''Exchange'') ''/plgraph/Binance'' = Inr None"
proof
  have "App_content demo_match (demo_session ''admin'' ''Exchange'') ''/plgraph/Binance''
      = Inr (Show PLGraph [''Binance''])" by code_simp
  from header_fits_page [OF demo_match_documented _ demo_readable this]
  show "App_header demo_match (demo_session ''admin'' ''Exchange'') ''/plgraph/Binance''
      = Inr (Some (header ''/plgraph'' 2 False False))" by simp
  have "App_content demo_match (demo_session ''user'' ''Exchange'') ''/plgraph/Binance''
      = Inr (RedirectTo ''/'')" by code_simp
  from header_fits_page [OF demo_match_documented _ demo_readable this]
  show "App_header demo_match (demo_session ''user'' ''Exchange'') ''/plgraph/Binance'' = Inr None"
    by simp
qed

text \<open>
  Following an address: a redirect within the page, or the reload that \<open>/\<close> causes, lead on to
  the next address. The reload restores role and client type from the storage.
\<close>

fun visit :: "matcher \<Rightarrow> session \<Rightarrow> nat \<Rightarrow> string \<Rightarrow> (screen \<times> string list) option" where
  "visit m s 0 p = None"
| "visit m s (Suc k) p =
     (case App_content m s p of
        Inl e \<Rightarrow> None
      | Inr (Show scr vs) \<Rightarrow> Some (scr, vs)
      | Inr (RedirectTo q) \<Rightarrow> visit m s k q
      | Inr (Leave q) \<Rightarrow> visit m s k q)"

lemma visit_show:
  "App_content m s p = Inr (Show scr vs) \<Longrightarrow> visit m s (Suc k) p = Some (scr, vs)"
  by simp

lemma App_content_cases:
  assumes "documented_matcher m" and "p \<noteq> []" and "role_readable s"
  shows "(\<exists>scr vs. App_content m s p = Inr (Show scr vs))
    \<or> (\<not> client_is clientType_arbitrage s \<and> App_content m s p = Inr (Leave ''/liquidity/now/''))
    \<or> App_content m s p = Inr (RedirectTo (App_redirect s))"
proof -
  have "screen_allowed s Home" if "switch m (map route_of (filter (screen_allowed s) screens)) p = Some (Home, vs)" for vs
    using that switch_pages [OF assms(1,2)] by blast
  then show ?thesis
    by (auto simp: App_content_def App_routes_readable [OF assms(3)] split: option.splits screen.splits)
qed

lemma landing_pages:
  assumes "documented_matcher m" and "role_readable s"
  shows "\<not> client_is clientType_arbitrage s \<Longrightarrow>
      App_content m s ''/liquidity/now/'' = Inr (Show Liquidity [''now''])"
    and "\<not> client_is clientType_arbitrage s \<Longrightarrow>
      App_content m s ''/'' = Inr (Leave ''/liquidity/now/'')"
    and "client_is clientType_arbitrage s \<Longrightarrow>
      App_content m s ''/arbitrage'' = Inr (Show Arbitrage [])"
proof -
  have plain: "plain_path (fst (screen_route Liquidity))" "plain_path (fst (screen_route Arbitrage))"
    by (simp_all add: plain_path_def lower_char_ascii)
  show "App_content m s ''/liquidity/now/'' = Inr (Show Liquidity [''now''])"
    if "\<not> client_is clientType_arbitrage s"
    using that matcher_hit(2) [OF assms(1) plain(1), of "[''now'']" 3]
    by (subst App_content_show [OF assms(1) _ assms(2)]) (simp_all add: address_def segment_ok_def)
  show "App_content m s ''/arbitrage'' = Inr (Show Arbitrage [])"
    if "client_is clientType_arbitrage s"
    using that matcher_hit(1) [OF assms(1) plain(2), of "[]" 2]
    by (subst App_content_show [OF assms(1) _ assms(2)]) (simp_all add: address_def)
  show "App_content m s ''/'' = Inr (Leave ''/liquidity/now/'')"
    if "\<not> client_is clientType_arbitrage s"
    using that matcher_root [OF assms(1)] switch_pages [OF assms(1), of "''/''" s Home "[]"]
    by (simp add: App_content_def App_routes_readable [OF assms(2)])
qed

text \<open>
  C15: every address leads to a page, after at most two moves: an address no route of the session
  takes is redirected to \<open>/\<close> and on to the liquidity page, or for an arbitrage client to its
  own page. There is no circle of redirects and the page reached is one the session may see.
\<close>

theorem every_address_settles:
  assumes "documented_matcher m" and "p \<noteq> []" and "role_readable s"
  shows "\<exists>scr vs. visit m s 3 p = Some (scr, vs) \<and> screen_allowed s scr
    \<and> (App_content m s p = Inr (Show scr vs)
       \<or> (scr, vs) = (if client_is clientType_arbitrage s then (Arbitrage, []) else (Liquidity, [''now''])))"
proof -
  note land = landing_pages [OF assms(1,3)]
  consider (page) scr vs where "App_content m s p = Inr (Show scr vs)"
    | (leave) "\<not> client_is clientType_arbitrage s" "App_content m s p = Inr (Leave ''/liquidity/now/'')"
    | (redirect) "App_content m s p = Inr (RedirectTo (App_redirect s))"
    using App_content_cases [OF assms] by blast
  then show ?thesis
  proof cases
    case page
    then have "screen_allowed s scr" using App_content_show [OF assms] by blast
    with page show ?thesis by (auto simp: numeral_3_eq_3)
  next
    case leave
    with land(1) show ?thesis by (simp add: numeral_3_eq_3)
  next
    case redirect
    with land show ?thesis
      by (cases "client_is clientType_arbitrage s") (simp_all add: numeral_3_eq_3 App_redirect_def)
  qed
qed

theorem every_address_settles_witness:
  "visit demo_match (demo_session ''user'' ''Exchange'') 3 ''/configuration'' = Some (Liquidity, [''now''])"
proof -
  have "App_content demo_match (demo_session ''user'' ''Exchange'') ''/configuration'' = Inr (RedirectTo ''/'')"
    and "\<not> client_is clientType_arbitrage (demo_session ''user'' ''Exchange'')"
    by code_simp+
  with every_address_settles [OF demo_match_documented, of "''/configuration''" "demo_session ''user'' ''Exchange''"]
  show ?thesis by auto
qed

end
