(* ===== verification/Polling.thy ===== *)
theory Polling
  imports Session
begin

text \<open>
  The retry loop of \<^verbatim>\<open>cryptolpaxios.js\<close>: \<^verbatim>\<open>getResponse\<close> asks until the server sends data, with a
  flag per request name in \<^verbatim>\<open>allStartedRequests\<close> that \<^verbatim>\<open>stopTryingGetResponses\<close> clears when the
  page changes. Calls run concurrently and share the flag of their name, so the loop is modelled
  as events on a list of calls: a call is waiting for the server, sleeping, or finished.
\<close>

section \<open>Calls and flags\<close>

datatype phase = Awaiting | Sleeping | Returned jsv | Threw js_error

record call =
  call_name :: string
  call_request :: string
  call_phase :: phase

record polling =
  allStartedRequests :: "string \<rightharpoonup> bool"
  calls :: "call list"
  sent :: "(string \<times> string) list"

definition polling_start :: polling where
  "polling_start = \<lparr>allStartedRequests = Map.empty, calls = [], sent = []\<rparr>"

definition notStopedRequests :: "string list" where
  "notStopedRequests = [''supportedExchanges'', ''users'', ''roles'', ''clientDomain'', ''clientType'']"

definition stopTryingGetResponses :: "polling \<Rightarrow> polling" where
  "stopTryingGetResponses p = p\<lparr>allStartedRequests := (\<lambda>key.
     (case allStartedRequests p key of
        None \<Rightarrow> None
      | Some b \<Rightarrow> if key \<in> set notStopedRequests then Some b else Some False))\<rparr>"

definition set_phase :: "nat \<Rightarrow> phase \<Rightarrow> polling \<Rightarrow> polling" where
  "set_phase i ph p = p\<lparr>calls := (calls p)[i := (calls p ! i)\<lparr>call_phase := ph\<rparr>]\<rparr>"

text \<open>The call sets its flag and enters the loop, which sends the first request.\<close>

definition getResponse :: "string \<Rightarrow> string \<Rightarrow> polling \<Rightarrow> polling" where
  "getResponse requestName request p =
     p\<lparr>allStartedRequests := (allStartedRequests p)(requestName \<mapsto> True),
       calls := calls p @ [\<lparr>call_name = requestName, call_request = request, call_phase = Awaiting\<rparr>],
       sent := sent p @ [(requestName, request)]\<rparr>"

text \<open>The body of the loop after the answer: return the data, or sleep for five seconds.\<close>

definition getResponse_answer :: "nat \<Rightarrow> jsv \<Rightarrow> polling \<Rightarrow> polling" where
  "getResponse_answer i d p =
     (if truthy d
      then set_phase i (Returned d)
             (p\<lparr>allStartedRequests := (allStartedRequests p)(call_name (calls p ! i) \<mapsto> False)\<rparr>)
      else set_phase i Sleeping p)"

text \<open>The head of the loop after the sleep: ask again while the flag is set, else fall out.\<close>

definition getResponse_wake :: "nat \<Rightarrow> polling \<Rightarrow> polling" where
  "getResponse_wake i p =
     (let c = calls p ! i
      in if allStartedRequests p (call_name c) = Some True
         then (set_phase i Awaiting p)\<lparr>sent := sent p @ [(call_name c, call_request c)]\<rparr>
         else set_phase i (Returned JUndef) p)"

datatype poll_event =
    Start string string | Answer nat jsv | Reject nat js_error | Wake nat | Stop

text \<open>An event for a call that is not in the phase it needs does not occur.\<close>

fun poll :: "poll_event \<Rightarrow> polling \<Rightarrow> polling" where
  "poll (Start name request) p = getResponse name request p"
| "poll (Answer i d) p =
     (if i < length (calls p) \<and> call_phase (calls p ! i) = Awaiting then getResponse_answer i d p else p)"
| "poll (Reject i e) p =
     (if i < length (calls p) \<and> call_phase (calls p ! i) = Awaiting then set_phase i (Threw e) p else p)"
| "poll (Wake i) p =
     (if i < length (calls p) \<and> call_phase (calls p ! i) = Sleeping then getResponse_wake i p else p)"
| "poll Stop p = stopTryingGetResponses p"

definition poll_all :: "poll_event list \<Rightarrow> polling \<Rightarrow> polling" where
  "poll_all es p = fold poll es p"

lemma poll_all_simps [simp]:
  "poll_all [] p = p" "poll_all (e # es) p = poll_all es (poll e p)"
  "poll_all (es @ fs) p = poll_all fs (poll_all es p)"
  by (simp_all add: poll_all_def)

lemma set_phase_simps [simp]:
  "allStartedRequests (set_phase i ph p) = allStartedRequests p"
  "sent (set_phase i ph p) = sent p"
  "calls (set_phase i ph p) = (calls p)[i := (calls p ! i)\<lparr>call_phase := ph\<rparr>]"
  by (simp_all add: set_phase_def)

lemma stop_simps [simp]:
  "calls (stopTryingGetResponses p) = calls p" "sent (stopTryingGetResponses p) = sent p"
  "name \<in> set notStopedRequests \<Longrightarrow>
     allStartedRequests (stopTryingGetResponses p) name = allStartedRequests p name"
  "name \<notin> set notStopedRequests \<Longrightarrow>
     allStartedRequests (stopTryingGetResponses p) name \<noteq> Some True"
  by (auto simp: stopTryingGetResponses_def split: option.split)

section \<open>A protected request is not given up\<close>

definition has_data :: "string \<Rightarrow> call \<Rightarrow> bool" where
  "has_data name c \<longleftrightarrow> call_name c = name \<and> (\<exists>d. call_phase c = Returned d \<and> truthy d)"

definition gave_up :: "string \<Rightarrow> call \<Rightarrow> bool" where
  "gave_up name c \<longleftrightarrow> call_name c = name \<and> (\<exists>d. call_phase c = Returned d \<and> \<not> truthy d)"

definition started :: "string \<Rightarrow> polling \<Rightarrow> bool" where
  "started name p \<longleftrightarrow> (\<exists>c \<in> set (calls p). call_name c = name)"

definition protected_ok :: "string \<Rightarrow> polling \<Rightarrow> bool" where
  "protected_ok name p \<longleftrightarrow>
     (started name p \<and> allStartedRequests p name \<noteq> Some True \<longrightarrow> (\<exists>c \<in> set (calls p). has_data name c))
     \<and> ((\<exists>c \<in> set (calls p). gave_up name c) \<longrightarrow> (\<exists>c \<in> set (calls p). has_data name c))"

lemma names_set_phase:
  "i < length (calls p) \<Longrightarrow> map call_name (calls (set_phase i ph p)) = map call_name (calls p)"
  by (simp add: map_update list_update_same_conv)

lemma started_iff: "started name p \<longleftrightarrow> name \<in> set (map call_name (calls p))"
  by (auto simp: started_def)

lemma set_phase_started [simp]:
  "i < length (calls p) \<Longrightarrow> started name (set_phase i ph p) \<longleftrightarrow> started name p"
  by (simp only: started_iff names_set_phase)

lemma set_phase_same:
  assumes "call_phase (calls p ! i) = ph"
  shows "set_phase i ph p = p"
proof -
  have "(calls p ! i)\<lparr>call_phase := ph\<rparr> = calls p ! i" using assms by (cases "calls p ! i") simp
  then show ?thesis by (cases p) (simp add: set_phase_def)
qed

lemma set_phase_again [simp]:
  "i < length (calls p) \<Longrightarrow> set_phase i ph (set_phase i ph' p) = set_phase i ph p"
  by (simp add: set_phase_def)

lemma has_data_set_phase:
  assumes "\<exists>c \<in> set (calls p). has_data name c" and "i < length (calls p)"
    and "call_phase (calls p ! i) \<in> {Awaiting, Sleeping}"
  shows "\<exists>c \<in> set (calls (set_phase i ph p)). has_data name c"
proof -
  obtain j where j: "j < length (calls p)" "has_data name (calls p ! j)"
    using assms(1) by (metis in_set_conv_nth)
  with assms(3) have "j \<noteq> i" by (auto simp: has_data_def)
  with j have "calls p ! j \<in> set (calls (set_phase i ph p))"
    by (metis length_list_update nth_list_update_neq nth_mem set_phase_simps(3))
  with j show ?thesis by blast
qed

lemma gave_up_set_phase:
  assumes "c \<in> set (calls (set_phase i ph p))" and "gave_up name c" and "i < length (calls p)"
  shows "(\<exists>c \<in> set (calls p). gave_up name c)
    \<or> (call_name (calls p ! i) = name \<and> (\<exists>d. ph = Returned d \<and> \<not> truthy d))"
  using assms set_update_subset_insert [of "calls p" i "(calls p ! i)\<lparr>call_phase := ph\<rparr>"]
  by (auto simp: gave_up_def)

lemma protected_set_phase:
  assumes "protected_ok name p" and "i < length (calls p)"
    and "call_phase (calls p ! i) \<in> {Awaiting, Sleeping}"
    and "\<And>d. ph = Returned d \<Longrightarrow> \<not> truthy d \<Longrightarrow> call_name (calls p ! i) = name \<Longrightarrow>
      \<exists>c \<in> set (calls p). has_data name c"
  shows "protected_ok name (set_phase i ph p)"
  unfolding protected_ok_def
proof (intro conjI impI)
  assume "started name (set_phase i ph p) \<and> allStartedRequests (set_phase i ph p) name \<noteq> Some True"
  with assms show "\<exists>c \<in> set (calls (set_phase i ph p)). has_data name c"
    by (intro has_data_set_phase) (auto simp: protected_ok_def)
next
  assume "\<exists>c \<in> set (calls (set_phase i ph p)). gave_up name c"
  with assms have "\<exists>c \<in> set (calls p). has_data name c"
    unfolding protected_ok_def by (metis gave_up_set_phase)
  with assms show "\<exists>c \<in> set (calls (set_phase i ph p)). has_data name c"
    by (intro has_data_set_phase)
qed

lemma call_in_started: "i < length (calls p) \<Longrightarrow> started (call_name (calls p ! i)) p"
  by (auto simp: started_def)

lemma protected_answer:
  assumes "protected_ok name p" and "i < length (calls p)" and "call_phase (calls p ! i) = Awaiting"
  shows "protected_ok name (getResponse_answer i d p)"
proof (cases "truthy d")
  case True
  let ?q = "p\<lparr>allStartedRequests := (allStartedRequests p)(call_name (calls p ! i) \<mapsto> False)\<rparr>"
  show ?thesis
  proof (cases "call_name (calls p ! i) = name")
    case name: True
    have "(calls p ! i)\<lparr>call_phase := Returned d\<rparr> \<in> set (calls (set_phase i (Returned d) ?q))"
      using assms(2) by (simp add: set_update_memI)
    moreover have "has_data name ((calls p ! i)\<lparr>call_phase := Returned d\<rparr>)"
      using True name by (simp add: has_data_def)
    ultimately show ?thesis
      using True by (auto simp: getResponse_answer_def protected_ok_def simp del: set_phase_simps(3))
  next
    case False
    with assms(1) have "protected_ok name ?q" by (auto simp: protected_ok_def started_def)
    then have "protected_ok name (set_phase i (Returned d) ?q)"
      using assms True by (intro protected_set_phase) auto
    with True show ?thesis by (simp add: getResponse_answer_def)
  qed
next
  case False
  have "protected_ok name (set_phase i Sleeping p)"
    using assms by (intro protected_set_phase) auto
  with False show ?thesis by (simp add: getResponse_answer_def)
qed

lemma protected_wake:
  assumes "protected_ok name p" and "i < length (calls p)" and "call_phase (calls p ! i) = Sleeping"
  shows "protected_ok name (getResponse_wake i p)"
proof -
  have "protected_ok name ((set_phase i Awaiting p)\<lparr>sent := x\<rparr>)" for x
    using protected_set_phase [OF assms(1,2), of Awaiting] assms(3)
    by (simp add: protected_ok_def started_def)
  moreover have "protected_ok name (set_phase i (Returned JUndef) p)"
    if "allStartedRequests p (call_name (calls p ! i)) \<noteq> Some True"
    using that assms call_in_started [OF assms(2)]
    by (intro protected_set_phase) (auto simp: protected_ok_def)
  ultimately show ?thesis by (simp add: getResponse_wake_def Let_def)
qed

lemma protected_poll:
  assumes "name \<in> set notStopedRequests" and "protected_ok name p"
  shows "protected_ok name (poll e p)"
proof (cases e)
  case (Start n r)
  with assms show ?thesis
    by (auto simp: getResponse_def protected_ok_def started_def gave_up_def)
next
  case Stop
  with assms show ?thesis by (auto simp: protected_ok_def started_def)
qed (use assms in \<open>auto simp: protected_answer protected_wake intro: protected_set_phase\<close>)

interpretation protected_calls:
  invariant_machine "\<lambda>p. p = polling_start" "\<lambda>p q. \<exists>e. q = poll e p"
    "\<lambda>p. \<forall>name \<in> set notStopedRequests. protected_ok name p"
proof unfold_locales
  show "\<forall>name \<in> set notStopedRequests. protected_ok name p" if "p = polling_start" for p
    using that by (simp add: polling_start_def protected_ok_def started_def)
qed (auto intro: protected_poll)

lemma poll_all_reach: "(\<lambda>p q. \<exists>e. q = poll e p)\<^sup>*\<^sup>* p (poll_all es p)"
proof (induction es arbitrary: p)
  case (Cons e es)
  have "(\<lambda>p q. \<exists>e. q = poll e p) p (poll e p)" by blast
  then show ?case using Cons [of "poll e p"] by (simp add: converse_rtranclp_into_rtranclp)
qed simp

text \<open>
  C9: a request the code never stops is only given up for a sibling's sake. In any run, if a call
  for one of \<^verbatim>\<open>notStopedRequests\<close> returned \<open>undefined\<close>, another call of the same name returned
  data, so a page waiting for the exchanges, users, roles, domain or client type is not starved
  by a change of page.
\<close>

theorem protected_request_not_given_up:
  assumes "name \<in> set notStopedRequests"
    and "c \<in> set (calls (poll_all es polling_start))" and "gave_up name c"
  shows "\<exists>c' \<in> set (calls (poll_all es polling_start)). has_data name c'"
  using protected_calls.inv_reach [OF refl poll_all_reach] assms by (auto simp: protected_ok_def)

definition demo_polls :: "poll_event list" where
  "demo_polls =
     [Start ''roles'' ''users/roles'', Start ''roles'' ''users/roles'', Answer 0 JNull,
      Stop, Answer 1 (JArr []), Wake 0]"

theorem protected_request_not_given_up_witness:
  "call_phase (calls (poll_all demo_polls polling_start) ! 0) = Returned JUndef
   \<and> (\<exists>c \<in> set (calls (poll_all demo_polls polling_start)). has_data ''roles'' c)"
proof
  show returned: "call_phase (calls (poll_all demo_polls polling_start) ! 0) = Returned JUndef"
    by code_simp
  show "\<exists>c \<in> set (calls (poll_all demo_polls polling_start)). has_data ''roles'' c"
  proof (rule protected_request_not_given_up)
    show "''roles'' \<in> set notStopedRequests" by code_simp
    show "calls (poll_all demo_polls polling_start) ! 0 \<in> set (calls (poll_all demo_polls polling_start))"
      by (rule nth_mem) code_simp
    show "gave_up ''roles'' (calls (poll_all demo_polls polling_start) ! 0)"
      using returned by (simp add: gave_up_def) code_simp
  qed
qed

section \<open>Stopping\<close>

fun starts :: "string \<Rightarrow> poll_event \<Rightarrow> bool" where
  "starts name (Start n r) = (n = name)"
| "starts name _ = False"

definition sent_by :: "string \<Rightarrow> polling \<Rightarrow> (string \<times> string) list" where
  "sent_by name p = filter (\<lambda>(n, r). n = name) (sent p)"

lemma stopped_poll:
  assumes "allStartedRequests p name \<noteq> Some True" and "\<not> starts name e"
  shows "allStartedRequests (poll e p) name \<noteq> Some True \<and> sent_by name (poll e p) = sent_by name p"
  using assms
  by (cases e)
    (auto simp: getResponse_def getResponse_answer_def getResponse_wake_def sent_by_def Let_def
      stopTryingGetResponses_def split: option.split)

lemma stopped_poll_all:
  assumes "allStartedRequests p name \<noteq> Some True" and "\<forall>e \<in> set es. \<not> starts name e"
  shows "allStartedRequests (poll_all es p) name \<noteq> Some True
    \<and> sent_by name (poll_all es p) = sent_by name p"
  using assms
proof (induction es arbitrary: p)
  case (Cons e es)
  with stopped_poll [of p name e] show ?case by simp
qed simp

text \<open>
  C20: stopping stops. After \<^verbatim>\<open>stopTryingGetResponses\<close>, whatever answers and timers arrive, no
  further request goes out under a name outside \<^verbatim>\<open>notStopedRequests\<close> until a new call of that
  name is made.
\<close>

theorem stopped_name_sends_nothing:
  assumes "name \<notin> set notStopedRequests" and "\<forall>e \<in> set es. \<not> starts name e"
  shows "sent_by name (poll_all es (stopTryingGetResponses p)) = sent_by name p"
  using stopped_poll_all [OF stop_simps(4) [OF assms(1)] assms(2), of p]
  by (simp add: sent_by_def)

theorem stopped_name_sends_nothing_witness:
  "sent_by ''config'' (poll_all [Wake 0, Answer 0 JNull, Wake 0]
      (stopTryingGetResponses (poll_all [Start ''config'' ''configuration'', Answer 0 JNull] polling_start)))
    = [(''config'', ''configuration'')]"
proof -
  have "sent_by ''config'' (poll_all [Wake 0, Answer 0 JNull, Wake 0]
      (stopTryingGetResponses (poll_all [Start ''config'' ''configuration'', Answer 0 JNull] polling_start)))
    = sent_by ''config'' (poll_all [Start ''config'' ''configuration'', Answer 0 JNull] polling_start)"
    by (rule stopped_name_sends_nothing) (simp_all add: notStopedRequests_def)
  also have "\<dots> = [(''config'', ''configuration'')]" by code_simp
  finally show ?thesis .
qed

section \<open>The loop returns\<close>

definition quiet_rounds :: "nat \<Rightarrow> jsv list \<Rightarrow> poll_event list" where
  "quiet_rounds i ds = concat (map (\<lambda>d. [Answer i d, Wake i]) ds)"

lemma quiet_rounds_run:
  assumes "i < length (calls p)" and "call_phase (calls p ! i) = Awaiting"
    and "allStartedRequests p (call_name (calls p ! i)) = Some True"
    and "\<forall>d \<in> set ds. \<not> truthy d"
  shows "poll_all (quiet_rounds i ds) p
    = p\<lparr>sent := sent p @ replicate (length ds) (call_name (calls p ! i), call_request (calls p ! i))\<rparr>"
  using assms
proof (induction ds arbitrary: p)
  case (Cons d ds)
  let ?r = "(call_name (calls p ! i), call_request (calls p ! i))"
  let ?p = "p\<lparr>sent := sent p @ [?r]\<rparr>"
  have "set_phase i Awaiting p = p" using Cons.prems by (intro set_phase_same) simp
  then have "poll (Wake i) (poll (Answer i d) p) = ?p"
    using Cons.prems by (simp add: getResponse_answer_def getResponse_wake_def Let_def)
  moreover have "poll_all (quiet_rounds i ds) ?p
      = ?p\<lparr>sent := sent ?p @ replicate (length ds) (call_name (calls ?p ! i), call_request (calls ?p ! i))\<rparr>"
    using Cons.prems by (intro Cons.IH) simp_all
  ultimately show ?case by (simp add: quiet_rounds_def del: poll.simps)
qed (simp add: quiet_rounds_def)

text \<open>
  C19: the loop ends with the first data. However many empty answers come first, a call that is
  not stopped returns the first non-empty one, having sent the same request once per answer.
\<close>

theorem getResponse_returns_first_data:
  assumes "\<forall>d \<in> set ds. \<not> truthy d" and "truthy d"
    and "p = poll_all (Start name request # quiet_rounds (length (calls p0)) ds
                @ [Answer (length (calls p0)) d]) p0"
  shows "call_phase (calls p ! length (calls p0)) = Returned d
    \<and> sent p = sent p0 @ replicate (Suc (length ds)) (name, request)
    \<and> allStartedRequests p name = Some False"
proof -
  let ?i = "length (calls p0)" and ?q = "getResponse name request p0"
  have "poll_all (quiet_rounds ?i ds) ?q = ?q\<lparr>sent := sent ?q @ replicate (length ds) (name, request)\<rparr>"
    using quiet_rounds_run [of ?i ?q ds] assms(1) by (simp add: getResponse_def)
  with assms(2,3) show ?thesis by (simp add: getResponse_def getResponse_answer_def)
qed

theorem getResponse_returns_first_data_witness:
  "call_phase (calls (poll_all [Start ''roles'' ''users/roles'', Answer 0 JNull, Wake 0, Answer 0 (JStr ''x'')]
      polling_start) ! 0) = Returned (JStr ''x'')"
  using getResponse_returns_first_data
    [of "[JNull]" "JStr ''x''" _ "''roles''" "''users/roles''" polling_start, OF _ _ refl]
  by (simp add: quiet_rounds_def polling_start_def)

section \<open>Names\<close>

text \<open>The named requests, in the order of the class.\<close>

definition named_requests ::
  "string \<Rightarrow> string \<Rightarrow> string \<Rightarrow> string \<Rightarrow> (string \<times> http_request) list" where
  "named_requests x p i m =
     [getConfig, getPostponedFills, getSignals x p, getExplanations x p, getPLGraph x p,
      getSupportedExchanges, getBalances, getAllBalances, getVolumeIndicators x p i,
      getLiquidityIndicators x p i, getUsers m, getRoles, getClientType, getClientDomain]"

text \<open>
  No two kinds of request share a flag, and every name that is never stopped is the name of
  a request, so stopping or answering one kind of request cannot end another kind's loop.
\<close>

theorem request_names_distinct:
  "distinct (map fst (named_requests x p i m))
   \<and> set notStopedRequests \<subset> set (map fst (named_requests x p i m))"
proof -
  have "map fst (named_requests x p i m)
      = [''config'', ''postponedFills'', ''signals'', ''explanations'', ''plGraph'',
         ''supportedExchanges'', ''balance'', ''allBalances'', ''volumeIndicators'',
         ''liquidityIndicators'', ''users'', ''roles'', ''clientType'', ''clientDomain'']"
    by (simp add: named_requests_def request_defs)
  then show ?thesis by (simp only:) code_simp
qed

end
