(* ===== verification/Data_Stores.thy ===== *)
theory Data_Stores
  imports Polling Exchange_Store
begin

text \<open>
  The state containers that load their data over HTTP (\<^verbatim>\<open>unstatedContainers\<close>), and the pages that
  drive them. An operation is cut where it waits for the server: its first half records the
  request, its second half runs with the answer, when the state may have moved on. An answer is
  the value \<^verbatim>\<open>getResponse\<close> resolves to, which is \<open>undefined\<close> after a stop, or a rejection.
\<close>

section \<open>Requests in flight\<close>

definition drop_nth :: "nat \<Rightarrow> 'a list \<Rightarrow> 'a list" where
  "drop_nth i xs = take i xs @ drop (Suc i) xs"

lemma set_drop_nth: "set (drop_nth i xs) \<subseteq> set xs"
  by (auto simp: drop_nth_def dest: in_set_takeD in_set_dropD)

section \<open>\<^verbatim>\<open>ExplanationContainer.js\<close>\<close>

record exp_state =
  exp_loading :: bool
  exp_explanations :: jsv
  exp_exchange :: string
  exp_currencyCodePair :: string

definition exp_initial :: exp_state where
  "exp_initial = \<lparr>exp_loading = False, exp_explanations = JNull, exp_exchange = '''', exp_currencyCodePair = ''''\<rparr>"

record exp_store =
  exp_st :: exp_state
  exp_inflight :: "(string \<times> string) list"

definition updateExplanations :: "string \<Rightarrow> string \<Rightarrow> exp_store \<Rightarrow> exp_store" where
  "updateExplanations exchange currencyCodePair s =
     \<lparr>exp_st = \<lparr>exp_loading = True, exp_explanations = JNull, exp_exchange = exchange,
        exp_currencyCodePair = currencyCodePair\<rparr>,
      exp_inflight = exp_inflight s @ [(exchange, currencyCodePair)]\<rparr>"

definition explanations_result :: "jsv \<Rightarrow> exp_state \<Rightarrow> exp_state res" where
  "explanations_result result st =
     res_bind (get_prop result ''exchangeName'') (\<lambda>x.
       if \<not> strict_eq x (JStr (exp_exchange st)) then Inr st
       else res_bind (get_prop result ''currencyCodePair'') (\<lambda>c.
         if \<not> strict_eq c (JStr (exp_currencyCodePair st)) then Inr st
         else res_bind (get_prop result ''explanations'') (\<lambda>e.
           Inr (st\<lparr>exp_loading := False, exp_explanations := e\<rparr>))))"

text \<open>The answer to the \<open>i\<close>-th request; a rejection or a throw changes nothing.\<close>

definition explanations_answer :: "nat \<Rightarrow> jsv res \<Rightarrow> exp_store \<Rightarrow> exp_store" where
  "explanations_answer i r s =
     \<lparr>exp_st = (case res_bind r (\<lambda>v. explanations_result v (exp_st s)) of Inl _ \<Rightarrow> exp_st s | Inr st \<Rightarrow> st),
      exp_inflight = drop_nth i (exp_inflight s)\<rparr>"

text \<open>\<^verbatim>\<open>containers/Explanation/index.js\<close>: the page asks when the selection changed.\<close>

definition Explanation_update :: "ex_state \<Rightarrow> exp_store \<Rightarrow> exp_store" where
  "Explanation_update ex s =
     (if truthy_str (ex_exchangeName ex) \<and> truthy_str (ex_currencyCodePair ex)
         \<and> (ex_exchangeName ex \<noteq> exp_exchange (exp_st s)
             \<or> ex_currencyCodePair ex \<noteq> exp_currencyCodePair (exp_st s))
      then updateExplanations (ex_exchangeName ex) (ex_currencyCodePair ex) s else s)"

text \<open>
  The server answers a request with the names it was asked for and the explanations it has for
  them; the stopped and the rejected answers are possible too.
\<close>

definition explanation_reply :: "(string \<Rightarrow> string \<Rightarrow> jsv) \<Rightarrow> string \<times> string \<Rightarrow> jsv" where
  "explanation_reply content = (\<lambda>(x, c).
     JObj [(''exchangeName'', JStr x), (''currencyCodePair'', JStr c), (''explanations'', content x c)])"

inductive exp_step :: "(string \<Rightarrow> string \<Rightarrow> jsv) \<Rightarrow> exp_store \<Rightarrow> exp_store \<Rightarrow> bool" for content where
  ask: "exp_step content s (Explanation_update ex s)"
| reply: "i < length (exp_inflight s) \<Longrightarrow>
    r \<in> {Inr (explanation_reply content (exp_inflight s ! i)), Inr JUndef, Inl e} \<Longrightarrow>
    exp_step content s (explanations_answer i r s)"

inductive_cases exp_stepE: "exp_step content s t"

definition exp_start :: "exp_store \<Rightarrow> bool" where
  "exp_start s \<longleftrightarrow> s = \<lparr>exp_st = exp_initial, exp_inflight = []\<rparr>"

definition exp_fresh :: "(string \<Rightarrow> string \<Rightarrow> jsv) \<Rightarrow> exp_state \<Rightarrow> bool" where
  "exp_fresh content st \<longleftrightarrow>
     exp_explanations st = JNull \<or> exp_explanations st = content (exp_exchange st) (exp_currencyCodePair st)"

lemma explanations_result_reply:
  "explanations_result (explanation_reply content (x, c)) st =
     Inr (if x = exp_exchange st \<and> c = exp_currencyCodePair st
          then st\<lparr>exp_loading := False, exp_explanations := content x c\<rparr> else st)"
  by (auto simp: explanations_result_def explanation_reply_def)

lemma exp_step_fresh:
  assumes "exp_fresh content (exp_st s)" and "exp_step content s t"
  shows "exp_fresh content (exp_st t)"
  using assms(2)
proof (cases rule: exp_step.cases)
  case (ask ex)
  with assms(1) show ?thesis by (simp add: Explanation_update_def updateExplanations_def exp_fresh_def)
next
  case (reply i r e)
  obtain x c where xc: "exp_inflight s ! i = (x, c)" by (cases "exp_inflight s ! i")
  have lost: "exp_st (explanations_answer i (Inr JUndef) s) = exp_st s"
    "exp_st (explanations_answer i (Inl e) s) = exp_st s"
    by (simp_all add: explanations_answer_def explanations_result_def)
  have "exp_fresh content (exp_st (explanations_answer i (Inr (explanation_reply content (x, c))) s))"
    using assms(1) by (simp add: explanations_answer_def explanations_result_reply exp_fresh_def)
  with lost reply assms(1) xc show ?thesis by auto
qed

interpretation explanation_store: invariant_machine exp_start "exp_step content"
    "\<lambda>s. exp_fresh content (exp_st s)" for content
proof
  show "exp_fresh content (exp_st s)" if "exp_start s" for s
    using that by (simp add: exp_start_def exp_initial_def exp_fresh_def)
qed (rule exp_step_fresh)

section \<open>\<^verbatim>\<open>PLGraphContainer.js\<close>\<close>

record plg_state =
  plg_loading :: bool
  plg_data :: jsv
  plg_exchangeName :: "string option"
  plg_currencyCodePair :: "string option"

definition plg_initial :: plg_state where
  "plg_initial = \<lparr>plg_loading = False, plg_data = JNull, plg_exchangeName = None, plg_currencyCodePair = None\<rparr>"

record plg_store =
  plg_st :: plg_state
  plg_inflight :: "(string \<times> string) list"

definition loadData :: "string \<Rightarrow> string \<Rightarrow> plg_store \<Rightarrow> plg_store" where
  "loadData exchangeName currencyCodePair s =
     (if plg_loading (plg_st s) then s
      else \<lparr>plg_st = (plg_st s)\<lparr>plg_loading := True\<rparr>,
            plg_inflight = plg_inflight s @ [(exchangeName, currencyCodePair)]\<rparr>)"

definition loadData_answer :: "nat \<Rightarrow> jsv res \<Rightarrow> plg_store \<Rightarrow> plg_store" where
  "loadData_answer i r s =
     (case plg_inflight s ! i of (x, c) \<Rightarrow>
        \<lparr>plg_st = (case r of
             Inl _ \<Rightarrow> plg_st s
           | Inr d \<Rightarrow> \<lparr>plg_loading = False, plg_data = d, plg_exchangeName = Some x, plg_currencyCodePair = Some c\<rparr>),
         plg_inflight = drop_nth i (plg_inflight s)\<rparr>)"

definition PLGraph_update :: "ex_state \<Rightarrow> plg_store \<Rightarrow> plg_store" where
  "PLGraph_update ex s =
     (if Some (ex_exchangeName ex) \<noteq> plg_exchangeName (plg_st s)
         \<or> Some (ex_currencyCodePair ex) \<noteq> plg_currencyCodePair (plg_st s)
      then loadData (ex_exchangeName ex) (ex_currencyCodePair ex) s else s)"

inductive plg_step :: "(string \<Rightarrow> string \<Rightarrow> jsv) \<Rightarrow> plg_store \<Rightarrow> plg_store \<Rightarrow> bool" for content where
  ask: "plg_step content s (PLGraph_update ex s)"
| reply: "i < length (plg_inflight s) \<Longrightarrow>
    r \<in> {Inr (content (fst (plg_inflight s ! i)) (snd (plg_inflight s ! i))), Inl e} \<Longrightarrow>
    plg_step content s (loadData_answer i r s)"

definition plg_start :: "plg_store \<Rightarrow> bool" where
  "plg_start s \<longleftrightarrow> s = \<lparr>plg_st = plg_initial, plg_inflight = []\<rparr>"

text \<open>At most one request, and the data is the server's for the names stored with it.\<close>

definition plg_ok :: "(string \<Rightarrow> string \<Rightarrow> jsv) \<Rightarrow> plg_store \<Rightarrow> bool" where
  "plg_ok content s \<longleftrightarrow>
     length (plg_inflight s) \<le> (if plg_loading (plg_st s) then 1 else 0)
     \<and> (plg_data (plg_st s) = JNull
        \<or> (\<exists>x c. plg_exchangeName (plg_st s) = Some x \<and> plg_currencyCodePair (plg_st s) = Some c
              \<and> plg_data (plg_st s) = content x c))"

lemma plg_step_ok:
  assumes "plg_ok content s" and "plg_step content s t"
  shows "plg_ok content t"
  using assms(2)
proof (cases rule: plg_step.cases)
  case (ask ex)
  with assms(1) show ?thesis
    by (auto simp: PLGraph_update_def loadData_def plg_ok_def split: if_splits)
next
  case (reply i r e)
  obtain x c where xc: "plg_inflight s ! i = (x, c)" by (cases "plg_inflight s ! i")
  have "plg_inflight s = [(x, c)]"
    using assms(1) reply(2) xc by (cases "plg_inflight s") (auto simp: plg_ok_def split: if_splits)
  with reply assms(1) xc show ?thesis
    by (auto simp: loadData_answer_def plg_ok_def drop_nth_def split: if_splits)
qed

interpretation plgraph_store: invariant_machine plg_start "plg_step content" "plg_ok content" for content
proof
  show "plg_ok content s" if "plg_start s" for s
    using that by (simp add: plg_start_def plg_initial_def plg_ok_def)
qed (rule plg_step_ok)

section \<open>\<^verbatim>\<open>SignalsContainer.js\<close>\<close>

record sig_state =
  sig_loading :: bool
  sig_signals :: jsv
  sig_exchangeName :: string
  sig_currencyPair :: string

definition sig_initial :: sig_state where
  "sig_initial = \<lparr>sig_loading = True, sig_signals = JNull, sig_exchangeName = '''', sig_currencyPair = ''''\<rparr>"

record sig_store =
  sig_st :: sig_state
  sig_inflight :: "(string \<times> string) list"

definition updateSignals :: "string \<Rightarrow> string \<Rightarrow> sig_store \<Rightarrow> sig_store" where
  "updateSignals exchangeName currencyPair s =
     \<lparr>sig_st = \<lparr>sig_loading = True, sig_signals = JNull, sig_exchangeName = exchangeName,
        sig_currencyPair = currencyPair\<rparr>,
      sig_inflight = sig_inflight s @ [(exchangeName, currencyPair)]\<rparr>"

definition signals_answer :: "nat \<Rightarrow> jsv res \<Rightarrow> sig_store \<Rightarrow> sig_store" where
  "signals_answer i r s =
     \<lparr>sig_st = (case r of Inl _ \<Rightarrow> sig_st s | Inr d \<Rightarrow> (sig_st s)\<lparr>sig_loading := False, sig_signals := d\<rparr>),
      sig_inflight = drop_nth i (sig_inflight s)\<rparr>"

definition clearState :: "sig_store \<Rightarrow> sig_store" where
  "clearState s =
     s\<lparr>sig_st := \<lparr>sig_loading = True, sig_signals = JNull, sig_exchangeName = '''', sig_currencyPair = ''''\<rparr>\<rparr>"

definition Signals_update :: "ex_state \<Rightarrow> sig_store \<Rightarrow> sig_store" where
  "Signals_update ex s =
     (if truthy_str (ex_exchangeName ex) \<and> truthy_str (ex_currencyPair ex) \<and> \<not> sig_loading (sig_st s)
         \<and> (sig_exchangeName (sig_st s) \<noteq> ex_exchangeName ex \<or> sig_currencyPair (sig_st s) \<noteq> ex_currencyPair ex)
      then updateSignals (ex_exchangeName ex) (ex_currencyPair ex) s else s)"

text \<open>The page: \<^verbatim>\<open>componentDidMount\<close> and \<^verbatim>\<open>componentDidUpdate\<close>, answers, \<^verbatim>\<open>componentWillUnmount\<close>.\<close>

inductive sig_step :: "sig_store \<Rightarrow> sig_store \<Rightarrow> bool" where
  ask: "sig_step s (Signals_update ex s)"
| reply: "i < length (sig_inflight s) \<Longrightarrow> sig_step s (signals_answer i r s)"
| leave: "sig_step s (clearState s)"

definition sig_start :: "sig_store \<Rightarrow> bool" where
  "sig_start s \<longleftrightarrow> s = \<lparr>sig_st = sig_initial, sig_inflight = []\<rparr>"

definition sig_stuck :: "sig_store \<Rightarrow> bool" where
  "sig_stuck s \<longleftrightarrow> sig_loading (sig_st s) \<and> sig_inflight s = []"

interpretation signals_store: invariant_machine sig_start sig_step sig_stuck
proof
  show "sig_stuck t" if "sig_stuck s" "sig_step s t" for s t
    using that(2,1)
    by (cases rule: sig_step.cases)
      (auto simp: sig_stuck_def Signals_update_def clearState_def)
qed (simp add: sig_start_def sig_initial_def sig_stuck_def)

section \<open>\<^verbatim>\<open>ConfigurationContainer.js\<close>\<close>

record cfg_state =
  cfg_loading :: bool
  cfg_config :: jsv
  cfg_savingConfig :: bool
  cfg_isValid :: jsv
  cfg_errorMessage :: jsv

definition cfg_initial :: cfg_state where
  "cfg_initial = \<lparr>cfg_loading = False, cfg_config = JNull, cfg_savingConfig = False,
     cfg_isValid = JBool True, cfg_errorMessage = JStr ''''\<rparr>"

definition js_or :: "jsv \<Rightarrow> jsv \<Rightarrow> jsv" where
  "js_or a b = (if truthy a then a else b)"

text \<open>\<^verbatim>\<open>v.k = x\<close> in strict code: only objects take it (extra properties of arrays are not modelled).\<close>

fun set_prop :: "string \<Rightarrow> jsv \<Rightarrow> jsv \<Rightarrow> jsv res" where
  "set_prop k x (JObj ps) = Inr (JObj (AList.update k x ps))"
| "set_prop k x (JArr _) = Inl OutOfModel"
| "set_prop k x _ = Inl TypeError"

definition loadConfig :: "cfg_state \<Rightarrow> cfg_state" where
  "loadConfig s = s\<lparr>cfg_loading := True\<rparr>"

text \<open>The answer to \<^verbatim>\<open>getConfig\<close>: the new state and the text whose validation is requested next.\<close>

definition loadConfig_answer :: "jsv res \<Rightarrow> cfg_state \<Rightarrow> (js_error + jsv) \<times> cfg_state" where
  "loadConfig_answer r s =
     (case res_bind r (\<lambda>config.
             res_bind (get_prop config ''config'') (\<lambda>c.
             res_bind (set_prop ''config'' (js_or c (JStr '''')) config) (\<lambda>config'.
               Inr (js_or c (JStr ''''), config')))) of
        Inl e \<Rightarrow> (Inl e, s)
      | Inr (c, config') \<Rightarrow> (Inr c, s\<lparr>cfg_loading := False, cfg_config := config'\<rparr>))"

definition validateConfig_answer :: "jsv res \<Rightarrow> cfg_state \<Rightarrow> js_error option \<times> cfg_state" where
  "validateConfig_answer r s =
     (case res_bind r (\<lambda>d. res_bind (get_prop d ''valid'') (\<lambda>v.
             res_bind (get_prop d ''error'') (\<lambda>e. Inr (v, js_or e (JStr ''''))))) of
        Inl e \<Rightarrow> (Some e, s)
      | Inr (v, e) \<Rightarrow> (None, s\<lparr>cfg_isValid := v, cfg_errorMessage := e\<rparr>))"

definition saveConfig_start :: "cfg_state \<Rightarrow> cfg_state" where
  "saveConfig_start s = s\<lparr>cfg_savingConfig := True\<rparr>"

definition saveConfig_answer :: "jsv res \<Rightarrow> cfg_state \<Rightarrow> string \<times> cfg_state" where
  "saveConfig_answer r s =
     (case r of Inr _ \<Rightarrow> ''Saved!'' | Inl _ \<Rightarrow> ''Something wrong!'', s\<lparr>cfg_savingConfig := False\<rparr>)"

text \<open>\<^verbatim>\<open>containers/Configuration/index.js\<close>: the editor, or the spinner.\<close>

definition Configuration_shows_editor :: "cfg_state \<Rightarrow> bool" where
  "Configuration_shows_editor s \<longleftrightarrow> \<not> cfg_loading s \<and> truthy (cfg_config s)"

section \<open>\<^verbatim>\<open>UserListContainer.js\<close>\<close>

record user =
  user_id :: string
  user_role :: string
  user_rest :: jsv

record users_state =
  usr_users :: "user list"
  usr_roles :: jsv
  usr_loading :: bool

definition usr_initial :: users_state where
  "usr_initial = \<lparr>usr_users = [], usr_roles = JArr [], usr_loading = False\<rparr>"

definition loadUserList :: "users_state \<Rightarrow> users_state" where
  "loadUserList s = s\<lparr>usr_loading := True\<rparr>"

definition loadUserList_answer :: "jsv res \<Rightarrow> user list res \<Rightarrow> users_state \<Rightarrow> users_state" where
  "loadUserList_answer role usr s =
     (case (role, usr) of
        (Inr r, Inr u) \<Rightarrow> \<lparr>usr_users = u, usr_roles = r, usr_loading = False\<rparr>
      | _ \<Rightarrow> s)"

text \<open>An unknown id reads \<^verbatim>\<open>users[-1]\<close>, and setting the role of \<open>undefined\<close> throws.\<close>

definition updateUserRole :: "string \<Rightarrow> string \<Rightarrow> users_state \<Rightarrow> users_state res" where
  "updateUserRole userId v s =
     (let users = usr_users s;
          userIdx = find_index (\<lambda>u. user_id u = userId) users
      in case at users userIdx of
           None \<Rightarrow> Inl TypeError
         | Some u \<Rightarrow>
             Inr (s\<lparr>usr_users := take (nat userIdx) users @ [u\<lparr>user_role := v\<rparr>]
                      @ drop (nat (userIdx + 1)) users\<rparr>))"

section \<open>\<^verbatim>\<open>PostponedFillsContainer.js\<close>\<close>

record ppf_state =
  ppf_loading :: bool
  ppf_postponedFills :: jsv
  ppf_modalData :: jsv

definition ppf_initial :: ppf_state where
  "ppf_initial = \<lparr>ppf_loading = False, ppf_postponedFills = JNull, ppf_modalData = JNull\<rparr>"

definition ppf_load :: "ppf_state \<Rightarrow> ppf_state" where
  "ppf_load s = s\<lparr>ppf_loading := True\<rparr>"

definition ppf_load_answer :: "jsv res \<Rightarrow> ppf_state \<Rightarrow> ppf_state" where
  "ppf_load_answer r s =
     (case r of Inl _ \<Rightarrow> s | Inr d \<Rightarrow> s\<lparr>ppf_loading := False, ppf_postponedFills := d\<rparr>)"

definition showModal :: "jsv \<Rightarrow> ppf_state \<Rightarrow> ppf_state" where
  "showModal data s =
     (if \<not> truthy data \<and> \<not> truthy (ppf_modalData s) then s else s\<lparr>ppf_modalData := data\<rparr>)"

section \<open>\<^verbatim>\<open>LiquidityContainer.js\<close> and \<^verbatim>\<open>VolumeContainer.js\<close>\<close>

record liq_state =
  liq_currencyCodePair :: string
  liq_currencyPair :: string
  liq_exchangeName :: string
  liq_interval :: string
  liq_preprocessedOrderBook :: jsv
  liq_liquidityIndicators :: jsv

definition liq_initial :: liq_state where
  "liq_initial = \<lparr>liq_currencyCodePair = '''', liq_currencyPair = '''', liq_exchangeName = '''',
     liq_interval = '''', liq_preprocessedOrderBook = JNull, liq_liquidityIndicators = JNull\<rparr>"

text \<open>The selection, and the request that follows it when there is one.\<close>

definition updateSelection ::
  "string \<Rightarrow> string \<Rightarrow> string \<Rightarrow> string \<Rightarrow> liq_state \<Rightarrow> (string \<times> http_request) option \<times> liq_state" where
  "updateSelection exchangeName currencyPair currencyCodePair interval s =
     (if interval \<noteq> ''now'' \<and> truthy_str exchangeName \<and> truthy_str currencyPair
      then Some (getLiquidityIndicators exchangeName currencyPair interval) else None,
      \<lparr>liq_currencyCodePair = currencyCodePair, liq_currencyPair = currencyPair,
       liq_exchangeName = exchangeName, liq_interval = interval,
       liq_preprocessedOrderBook = JNull, liq_liquidityIndicators = JNull\<rparr>)"

definition updateSelection_answer :: "jsv res \<Rightarrow> liq_state \<Rightarrow> js_error option \<times> liq_state" where
  "updateSelection_answer r s =
     (case res_bind r (\<lambda>d. res_bind (get_prop d ''preprocessedOrderBook'') (\<lambda>p.
             res_bind (get_prop d ''liquidityIndicators'') (\<lambda>i. Inr (p, i)))) of
        Inl e \<Rightarrow> (Some e, s)
      | Inr (p, i) \<Rightarrow> (None, s\<lparr>liq_preprocessedOrderBook := p, liq_liquidityIndicators := i\<rparr>))"

definition liq_clearData :: "liq_state \<Rightarrow> liq_state" where
  "liq_clearData s = \<lparr>liq_currencyCodePair = '''', liq_currencyPair = '''', liq_exchangeName = '''',
     liq_interval = '''', liq_preprocessedOrderBook = JNull, liq_liquidityIndicators = JNull\<rparr>"

record vol_state =
  vol_interval :: string
  vol_exchangeName :: string
  vol_currencyPair :: string
  vol_volumeIndicators :: jsv

definition vol_initial :: vol_state where
  "vol_initial = \<lparr>vol_interval = '''', vol_exchangeName = '''', vol_currencyPair = '''', vol_volumeIndicators = JNull\<rparr>"

definition vol_updateVolume ::
  "string \<Rightarrow> string \<Rightarrow> string \<Rightarrow> vol_state \<Rightarrow> (string \<times> http_request) option \<times> vol_state" where
  "vol_updateVolume currencyPair exchangeName interval s =
     (if truthy_str exchangeName \<and> truthy_str currencyPair \<and> interval \<noteq> ''now''
      then Some (getVolumeIndicators exchangeName currencyPair interval) else None,
      \<lparr>vol_interval = interval, vol_exchangeName = exchangeName, vol_currencyPair = currencyPair,
       vol_volumeIndicators = JNull\<rparr>)"

definition vol_updateVolume_answer :: "jsv res \<Rightarrow> vol_state \<Rightarrow> vol_state" where
  "vol_updateVolume_answer r s = (case r of Inl _ \<Rightarrow> s | Inr d \<Rightarrow> s\<lparr>vol_volumeIndicators := d\<rparr>)"

definition vol_clearData :: "vol_state \<Rightarrow> vol_state" where
  "vol_clearData s = \<lparr>vol_interval = '''', vol_exchangeName = '''', vol_currencyPair = '''', vol_volumeIndicators = JNull\<rparr>"

text \<open>
  \<^verbatim>\<open>containers/Liquidity/index.js\<close> and \<^verbatim>\<open>containers/Volume/index.js\<close>: the calls that would select are
  commented out, so \<^verbatim>\<open>update\<close> does nothing in either branch; only leaving the page acts.
\<close>

definition Liquidity_update :: "ex_state \<Rightarrow> liq_state \<Rightarrow> liq_state" where
  "Liquidity_update ex s =
     (if ex_interval ex \<noteq> liq_interval s \<or> ex_exchangeName ex \<noteq> liq_exchangeName s
         \<or> ex_currencyCodePair ex \<noteq> liq_currencyCodePair s then s else s)"

definition Volume_update :: "ex_state \<Rightarrow> vol_state \<Rightarrow> vol_state" where
  "Volume_update ex s =
     (if ex_exchangeName ex \<noteq> vol_exchangeName s \<or> ex_currencyPair ex \<noteq> vol_currencyPair s
         \<or> ex_interval ex \<noteq> vol_interval s then s else s)"

datatype history_view = NowView | ChartView bool | SpinnerView

definition Liquidity_render :: "ex_state \<Rightarrow> liq_state \<Rightarrow> history_view" where
  "Liquidity_render ex s =
     (if ex_interval ex = ''now'' then NowView
      else if truthy_str (liq_currencyPair s) \<and> truthy_str (liq_exchangeName s)
      then ChartView (\<not> truthy (liq_liquidityIndicators s) \<or> \<not> truthy (liq_preprocessedOrderBook s))
      else SpinnerView)"

definition Volume_render :: "ex_state \<Rightarrow> vol_state \<Rightarrow> history_view" where
  "Volume_render ex s =
     (if ex_interval ex = ''now'' then NowView
      else if truthy_str (vol_currencyPair s) \<and> truthy_str (vol_exchangeName s)
      then ChartView (\<not> truthy (vol_volumeIndicators s)) else SpinnerView)"

section \<open>\<^verbatim>\<open>AppContainer.js\<close>\<close>

record app_state =
  app_isAuthorized :: bool
  app_clientDomain :: jsv

definition AppContainer_new :: "(jsv \<Rightarrow> jsv res) \<Rightarrow> session \<Rightarrow> (js_error option \<times> session) \<times> app_state" where
  "AppContainer_new decode ses =
     (let (e, ses1) = loadToken decode ses
      in ((e, ses1), \<lparr>app_isAuthorized = ses_isAuthorized ses1, app_clientDomain = JUndef\<rparr>))"

definition getClientDomain_answer :: "jsv res \<Rightarrow> app_state \<Rightarrow> app_state" where
  "getClientDomain_answer r s =
     (case res_bind r (\<lambda>d. get_prop d ''content'') of Inl _ \<Rightarrow> s | Inr c \<Rightarrow> s\<lparr>app_clientDomain := c\<rparr>)"

section \<open>Properties\<close>

text \<open>
  C22: explanations are never shown for the wrong pair. Against a server that answers with the names
  it was asked for, whatever the order of answers, stops and failures, the explanations in the
  store are absent or those of the exchange and pair the store is on.
\<close>

theorem explanations_match_selection:
  assumes "exp_start s" and "(exp_step content)\<^sup>*\<^sup>* s t"
  shows "exp_explanations (exp_st t) = JNull
    \<or> exp_explanations (exp_st t) = content (exp_exchange (exp_st t)) (exp_currencyCodePair (exp_st t))"
  using explanation_store.inv_reach [OF assms] by (simp add: exp_fresh_def)

definition demo_selection :: "string \<Rightarrow> string \<Rightarrow> ex_state" where
  "demo_selection x c = ex_initial\<lparr>ex_exchangeName := x, ex_currencyCodePair := c, ex_currencyPair := c\<rparr>"

definition demo_explained :: exp_store where
  "demo_explained =
     Explanation_update (demo_selection ''B'' ''Y/Z'')
       (Explanation_update (demo_selection ''A'' ''X/Y'') \<lparr>exp_st = exp_initial, exp_inflight = []\<rparr>)"

theorem explanations_match_selection_witness:
  "exp_exchange (exp_st (explanations_answer 0
      (Inr (explanation_reply (\<lambda>x c. JStr x) (exp_inflight demo_explained ! 0))) demo_explained)) = ''B''
   \<and> exp_explanations (exp_st (explanations_answer 0
      (Inr (explanation_reply (\<lambda>x c. JStr x) (exp_inflight demo_explained ! 0))) demo_explained))
     \<in> {JNull, JStr ''B''}"
proof -
  let ?c = "\<lambda>x c :: string. JStr x"
  let ?s0 = "\<lparr>exp_st = exp_initial, exp_inflight = []\<rparr>"
  let ?t = "explanations_answer 0 (Inr (explanation_reply ?c (exp_inflight demo_explained ! 0))) demo_explained"
  have "(exp_step ?c)\<^sup>*\<^sup>* ?s0 demo_explained"
    unfolding demo_explained_def
    by (rule rtranclp.rtrancl_into_rtrancl [OF r_into_rtranclp]) (rule exp_step.ask)+
  moreover have "exp_step ?c demo_explained ?t"
    by (rule exp_step.reply) (code_simp, simp)
  ultimately have "(exp_step ?c)\<^sup>*\<^sup>* ?s0 ?t" by (rule rtranclp.rtrancl_into_rtrancl)
  from explanations_match_selection [OF _ this] have "exp_explanations (exp_st ?t) = JNull
      \<or> exp_explanations (exp_st ?t) = JStr (exp_exchange (exp_st ?t))"
    by (simp add: exp_start_def)
  moreover have "exp_exchange (exp_st ?t) = ''B''" by code_simp
  ultimately show ?thesis by auto
qed

text \<open>
  The profit graph is loaded one request at a time, and its data is always what the server has
  for the exchange and pair recorded beside it, so a change of selection during a load cannot
  mislabel the data.
\<close>

theorem plgraph_single_flight:
  assumes "plg_start s" and "(plg_step content)\<^sup>*\<^sup>* s t"
  shows "length (plg_inflight t) \<le> 1
    \<and> (plg_data (plg_st t) = JNull
       \<or> (\<exists>x c. plg_exchangeName (plg_st t) = Some x \<and> plg_currencyCodePair (plg_st t) = Some c
             \<and> plg_data (plg_st t) = content x c))"
  using plgraph_store.inv_reach [OF assms] by (auto simp: plg_ok_def split: if_splits)

text \<open>
  The signals page never loads. The store starts, and is left, with \<^verbatim>\<open>loading\<close> set, and the page
  asks only while it is not set: in every reachable state it is still loading and nothing was
  requested.
\<close>

theorem signals_page_never_loads:
  assumes "sig_start s" and "sig_step\<^sup>*\<^sup>* s t"
  shows "sig_loading (sig_st t) \<and> sig_inflight t = [] \<and> Signals_update ex t = t"
  using signals_store.inv_reach [OF assms] by (simp add: sig_stuck_def Signals_update_def)

lemma updateUserRole_found:
  assumes "find_index (\<lambda>u. user_id u = userId) (usr_users s) = int k" and "k < length (usr_users s)"
  shows "updateUserRole userId v s
    = Inr (s\<lparr>usr_users := (usr_users s)[k := (usr_users s ! k)\<lparr>user_role := v\<rparr>]\<rparr>)"
proof -
  have "nat (int k + 1) = Suc k" by simp
  then show ?thesis using assms by (simp add: updateUserRole_def Let_def upd_conv_take_nth_drop)
qed

text \<open>
  Changing a role. If the id is in the list, exactly the first user with that id gets the role
  and every other entry stays in its place; if it is not, the handler throws.
\<close>

theorem updateUserRole_changes_one:
  "case updateUserRole userId v s of
     Inl e \<Rightarrow> e = TypeError \<and> userId \<notin> user_id ` set (usr_users s)
   | Inr t \<Rightarrow> \<exists>k < length (usr_users s). user_id (usr_users s ! k) = userId
       \<and> userId \<notin> user_id ` set (take k (usr_users s))
       \<and> t = s\<lparr>usr_users := (usr_users s)[k := (usr_users s ! k)\<lparr>user_role := v\<rparr>]\<rparr>"
proof (cases rule: find_index_cases [of "\<lambda>u. user_id u = userId" "usr_users s"])
  case absent
  then show ?thesis by (auto simp: updateUserRole_def)
next
  case (found k)
  have "userId \<notin> user_id ` set (take k (usr_users s))"
    using found(4) by (fastforce simp: in_set_conv_nth)
  with found updateUserRole_found [of userId s k v] show ?thesis by auto
qed

text \<open>
  Saving ends and loading may not. Whatever the server answers, a save ends with the saving flag
  cleared and one message; a load whose request fails, or is stopped, leaves the loading flag set,
  so the page keeps its spinner.
\<close>

theorem configuration_save_and_load:
  "\<not> cfg_savingConfig (snd (saveConfig_answer r (saveConfig_start s)))
   \<and> \<not> Configuration_shows_editor (snd (loadConfig_answer (Inl e) (loadConfig s)))
   \<and> \<not> Configuration_shows_editor (snd (loadConfig_answer (Inr JUndef) (loadConfig s)))
   \<and> Configuration_shows_editor (snd (loadConfig_answer (Inr (JObj ps)) (loadConfig s)))"
  by (simp add: saveConfig_answer_def loadConfig_answer_def loadConfig_def Configuration_shows_editor_def)

text \<open>
  Outside the interval \<open>now\<close> the liquidity and volume pages show only the spinner: the calls that
  would select are commented out, so from the initial store, through any number of updates, the
  names the chart needs stay empty.
\<close>

theorem history_pages_stay_on_spinner:
  assumes "ex_interval ex \<noteq> ''now''"
  shows "Liquidity_render ex (fold Liquidity_update exs liq_initial) = SpinnerView
    \<and> Liquidity_render ex (fold Liquidity_update exs (liq_clearData l)) = SpinnerView
    \<and> Volume_render ex (fold Volume_update exs vol_initial) = SpinnerView
    \<and> Volume_render ex (fold Volume_update exs (vol_clearData w)) = SpinnerView"
proof -
  have "fold Liquidity_update exs x = x" for x
    by (induction exs arbitrary: x) (simp_all add: Liquidity_update_def)
  moreover have "fold Volume_update exs x = x" for x
    by (induction exs arbitrary: x) (simp_all add: Volume_update_def)
  ultimately show ?thesis
    using assms
    by (simp add: Liquidity_render_def Volume_render_def liq_initial_def liq_clearData_def
        vol_initial_def vol_clearData_def)
qed

end
