(* ===== verification/Navigation.thy ===== *)
theory Navigation
  imports Routing Data_Stores
begin

text \<open>
  The navigation bar: \<^verbatim>\<open>components/Navbar/Navigation.js\<close> (which links a session gets and which of
  them move into the menu behind \<open>More\<close>), \<^verbatim>\<open>MoreLink.js\<close>, \<^verbatim>\<open>Userimagetext.js\<close> and the slide
  panel of \<^verbatim>\<open>containers/Navbar/index.js\<close>.
\<close>

section \<open>Links\<close>

datatype nav_item =
    NavArbitrage | NavDashboard | NavLiquidity | NavVolume | NavPL | NavBalances | NavSignals
  | NavPrice | NavUsers | NavConfigurations | NavExplanation | NavPLGraph | NavTradeSignals
  | NavPostponedFills

record nav_link =
  nl_exact :: bool
  nl_to :: string
  nl_text :: string

definition getNavLink :: "bool \<Rightarrow> string \<Rightarrow> string \<Rightarrow> nav_link" where
  "getNavLink ex path innerText = \<lparr>nl_exact = ex, nl_to = path, nl_text = innerText\<rparr>"

text \<open>The end of a link to the exchange and the pair that are selected.\<close>

definition selection_path :: "string \<Rightarrow> string \<Rightarrow> string" where
  "selection_path exchangeName currencyCodePair =
     ''/'' @ exchangeName @ ''/'' @ urlCodePair currencyCodePair"

fun nav_item_link :: "string \<Rightarrow> string \<Rightarrow> nav_item \<Rightarrow> nav_link" where
  "nav_item_link x c NavArbitrage = getNavLink True (''/arbitrage'' @ selection_path x c) ''Arbitrage''"
| "nav_item_link x c NavDashboard = getNavLink True ''/'' ''Dashboard''"
| "nav_item_link x c NavLiquidity = getNavLink False (''/liquidity/now'' @ selection_path x c) ''Liquidity''"
| "nav_item_link x c NavVolume = getNavLink False (''/volume/now'' @ selection_path x c) ''Volume''"
| "nav_item_link x c NavPL = getNavLink True (''/profits'' @ selection_path x c) ''Profit Loss''"
| "nav_item_link x c NavBalances = getNavLink True ''/rebalancing'' ''Balances''"
| "nav_item_link x c NavSignals = getNavLink True (''/signals'' @ selection_path x c) ''Signals''"
| "nav_item_link x c NavPrice = getNavLink True ''/price'' ''Price''"
| "nav_item_link x c NavUsers = getNavLink True ''/users'' ''Users''"
| "nav_item_link x c NavConfigurations = getNavLink True ''/configuration'' ''Configuration''"
| "nav_item_link x c NavExplanation = getNavLink True ''/explanation'' ''Explanation''"
| "nav_item_link x c NavPLGraph = getNavLink True (''/plgraph'' @ selection_path x c) ''ProfitLoss Graph''"
| "nav_item_link x c NavTradeSignals = getNavLink True ''/trade-signals'' ''Trade Signals''"
| "nav_item_link x c NavPostponedFills = getNavLink True ''/postponed-fills'' ''Postponed Fills''"

text \<open>
  A click in the menu behind \<open>More\<close> also pushes the address itself; every click closes the
  slide panel.
\<close>

definition navlink_click :: "bool \<Rightarrow> string \<Rightarrow> nav_link \<Rightarrow> nav option" where
  "navlink_click isDropdown pathname l =
     (if isDropdown then Some (pushNewLinkToHistory pathname (nl_to l)) else None)"

section \<open>The menu of a session\<close>

definition role_equals :: "string \<Rightarrow> session \<Rightarrow> bool res" where
  "role_equals r s = res_bind (toUpperCase_of (ses_role s)) (\<lambda>u. Inr (u = r))"

definition Navigation_elements :: "session \<Rightarrow> nav_item list res" where
  "Navigation_elements s =
     (let e1 = (if client_is clientType_arbitrage s then [NavArbitrage] else [NavLiquidity]);
          e2 = e1 @ [NavBalances];
          e3 = e2 @ guarded (client_is clientType_signals s) NavSignals;
          e4 = e3 @ guarded (client_is clientType_ico s) NavPrice
      in res_bind (role_equals clientRoles_user s) (\<lambda>isUser.
         res_bind (role_equals clientRoles_admin s) (\<lambda>isAdmin.
           Inr (e4 @ guarded isUser NavUsers
                   @ (if isAdmin then [NavConfigurations, NavExplanation] else [])))))"

text \<open>\<^verbatim>\<open>while (navElements.length >= 5) navDropdown.push(navElements.pop())\<close>\<close>

function pop_extra :: "'a list \<Rightarrow> 'a list \<Rightarrow> 'a list \<times> 'a list" where
  "pop_extra els dropped =
     (if 5 \<le> length els then pop_extra (butlast els) (dropped @ [last els]) else (els, dropped))"
  by auto
termination by (relation "measure (\<lambda>(els, _). length els)") auto

declare pop_extra.simps [simp del]

definition Navigation_split :: "'a list \<Rightarrow> 'a list \<times> 'a list" where
  "Navigation_split els =
     (case (if 5 < length els then pop_extra els [] else (els, [])) of
        (bar, dropped) \<Rightarrow> (bar, rev dropped))"

record navigation =
  nv_isAuthorized :: bool
  nv_role :: jsv

datatype nav_view = NavView "nav_link list" "nav_link list"

definition Navigation_render :: "string \<Rightarrow> string \<Rightarrow> session \<Rightarrow> navigation \<Rightarrow> nav_view res" where
  "Navigation_render x c s nv =
     (if nv_isAuthorized nv then
        res_bind (Navigation_elements s) (\<lambda>els.
          case Navigation_split els of
            (bar, rest) \<Rightarrow> Inr (NavView (map (nav_item_link x c) bar) (map (nav_item_link x c) rest)))
      else Inr (NavView [getNavLink True ''/login'' ''Login'', getNavLink True ''/register'' ''Register''] []))"

section \<open>Listeners\<close>

definition Navigation_new :: "nat \<Rightarrow> session \<Rightarrow> navigation \<times> session" where
  "Navigation_new i s =
     (\<lparr>nv_isAuthorized = ses_isAuthorized s, nv_role = ses_role s\<rparr>,
      s\<lparr>ses_listners := ses_listners s @ [i]\<rparr>)"

definition updateIsAuthorized :: "session \<Rightarrow> navigation \<Rightarrow> navigation" where
  "updateIsAuthorized s nv = \<lparr>nv_isAuthorized = ses_isAuthorized s, nv_role = ses_role s\<rparr>"

text \<open>
  \<^verbatim>\<open>xs.splice(xs.indexOf(x), 1)\<close>: when \<open>x\<close> is not there the index is \<open>-1\<close> and the last element
  goes instead.
\<close>

definition splice_out :: "'a \<Rightarrow> 'a list \<Rightarrow> 'a list" where
  "splice_out x xs =
     (let i = find_index (\<lambda>y. y = x) xs
      in if i = - 1 then butlast xs else drop_nth (nat i) xs)"

definition Navigation_willUnmount :: "nat \<Rightarrow> session \<Rightarrow> session" where
  "Navigation_willUnmount i s = s\<lparr>ses_listners := splice_out i (ses_listners s)\<rparr>"

text \<open>The name and the logout entry: it reads a field of the decoded token.\<close>

definition Userimagetext_new :: "nat \<Rightarrow> session \<Rightarrow> jsv \<times> session" where
  "Userimagetext_new i s = (ses_userInfo s, s\<lparr>ses_listners := ses_listners s @ [i]\<rparr>)"

definition updateUserInfo :: "session \<Rightarrow> jsv" where
  "updateUserInfo s = ses_userInfo s"

definition Userimagetext_willUnmount :: "nat \<Rightarrow> session \<Rightarrow> session" where
  "Userimagetext_willUnmount i s = s\<lparr>ses_listners := splice_out i (ses_listners s)\<rparr>"

definition Userimagetext_render :: "bool \<Rightarrow> jsv \<Rightarrow> jsv res" where
  "Userimagetext_render isSlidePanel userInfo =
     (if isSlidePanel then Inr (JStr ''Log Out'') else get_prop userInfo ''username'')"

section \<open>The slide panel\<close>

definition Navbar_onClick :: "bool \<Rightarrow> bool" where
  "Navbar_onClick open_panel = (\<not> open_panel)"

definition Navbar_onClickClose :: "bool \<Rightarrow> bool" where
  "Navbar_onClickClose open_panel = False"

section \<open>Lemmas\<close>

lemma pop_extra_append:
  "fst (pop_extra els d) @ rev (snd (pop_extra els d)) = els @ rev d"
proof (induction els d rule: pop_extra.induct)
  case (1 els d)
  show ?case
  proof (cases "5 \<le> length els")
    case True
    then have "els \<noteq> []" by auto
    then show ?thesis using 1 [OF True] True by (subst (1 2) pop_extra.simps) simp
  qed (simp add: pop_extra.simps)
qed

lemma pop_extra_length:
  "length (fst (pop_extra els d)) = (if 5 \<le> length els then 4 else length els)"
proof (induction els d rule: pop_extra.induct)
  case (1 els d)
  then show ?case by (subst pop_extra.simps) auto
qed

lemma Navigation_split_append: "fst (Navigation_split els) @ snd (Navigation_split els) = els"
  using pop_extra_append [of els "[]"] by (auto simp: Navigation_split_def split: prod.splits)

lemma Navigation_split_length:
  "length (fst (Navigation_split els)) = (if 5 < length els then 4 else length els)"
  using pop_extra_length [of els "[]"] by (auto simp: Navigation_split_def split: prod.splits)

lemma find_index_from_append:
  "\<forall>x \<in> set xs. \<not> P x \<Longrightarrow> P y \<Longrightarrow> find_index_from i P (xs @ y # ys) = int (i + length xs)"
  by (induction xs arbitrary: i) auto

text \<open>A component that unmounts leaves the listeners of the others as they are.\<close>

lemma splice_out_own:
  assumes "i \<notin> set xs"
  shows "splice_out i (xs @ i # ys) = xs @ ys"
proof -
  have "find_index (\<lambda>y. y = i) (xs @ i # ys) = int (length xs)"
    using find_index_from_append [of xs "\<lambda>y. y = i" i 0 ys] assms by (auto simp: find_index_def)
  then show ?thesis by (simp add: splice_out_def drop_nth_def)
qed

lemma Navigation_mount_unmount:
  assumes "i \<notin> set (ses_listners s)"
  shows "Navigation_willUnmount i (snd (Navigation_new i s)) = s"
    and "Userimagetext_willUnmount i (snd (Userimagetext_new i s)) = s"
  using splice_out_own [OF assms, of "[]"]
  by (simp_all add: Navigation_willUnmount_def Navigation_new_def Userimagetext_willUnmount_def
      Userimagetext_new_def)

lemma role_equals_string:
  "ses_role s = JStr r \<Longrightarrow> role_equals x s = Inr (to_upper r = x)"
  by (simp add: role_equals_def)

lemma Navigation_elements_string:
  "Navigation_elements s = Inr els \<Longrightarrow> is_string (ses_role s)"
  by (cases "ses_role s") (simp_all add: Navigation_elements_def role_equals_def Let_def)

text \<open>The page each link is for, and the parameters it carries.\<close>

fun nav_target :: "string \<Rightarrow> string \<Rightarrow> nav_item \<Rightarrow> screen \<times> string list" where
  "nav_target x c NavArbitrage = (Arbitrage, [x, urlCodePair c])"
| "nav_target x c NavDashboard = (Home, [])"
| "nav_target x c NavLiquidity = (Liquidity, [''now'', x, urlCodePair c])"
| "nav_target x c NavVolume = (Volume, [''now'', x, urlCodePair c])"
| "nav_target x c NavPL = (PL, [x, urlCodePair c])"
| "nav_target x c NavBalances = (Balances, [])"
| "nav_target x c NavSignals = (Signals, [x, urlCodePair c])"
| "nav_target x c NavPrice = (Price, [])"
| "nav_target x c NavUsers = (Users, [])"
| "nav_target x c NavConfigurations = (Configuration, [])"
| "nav_target x c NavExplanation = (Explanation, [])"
| "nav_target x c NavPLGraph = (PLGraph, [x, urlCodePair c])"
| "nav_target x c NavTradeSignals = (TradeSignals, [])"
| "nav_target x c NavPostponedFills = (PostponedFills, [])"

lemma nav_link_address:
  "nl_to (nav_item_link x c it)
     = address (fst (screen_route (fst (nav_target x c it)))) (snd (nav_target x c it))"
  by (cases it) (simp_all add: getNavLink_def selection_path_def address_def)

lemma nav_target_fits:
  assumes "segment_ok x" and "segment_ok (urlCodePair c)"
  shows "length (snd (nav_target x c it)) \<le> snd (screen_route (fst (nav_target x c it)))"
    and "list_all segment_ok (snd (nav_target x c it))"
  using assms by (cases it; simp add: segment_ok_def)+

lemma Navigation_elements_allowed:
  assumes "Navigation_elements s = Inr els" and "it \<in> set els"
  shows "screen_allowed s (fst (nav_target x c it))" and "fst (nav_target x c it) \<noteq> Home"
proof -
  from Navigation_elements_string [OF assms(1)] obtain r where r: "ses_role s = JStr r"
    by (cases "ses_role s") auto
  have role: "has_role q s \<longleftrightarrow> to_upper r = q" if "q \<noteq> []" for q
    using that r by (auto simp: has_role_def to_upper_def)
  have els: "it \<in> set (if client_is clientType_arbitrage s then [NavArbitrage] else [NavLiquidity])
      \<or> it = NavBalances \<or> client_is clientType_signals s \<and> it = NavSignals
      \<or> client_is clientType_ico s \<and> it = NavPrice
      \<or> has_role clientRoles_user s \<and> it = NavUsers
      \<or> has_role clientRoles_admin s \<and> it \<in> {NavConfigurations, NavExplanation}"
    using assms role [of clientRoles_user] role [of clientRoles_admin]
    by (cases "to_upper r = clientRoles_admin")
      (auto simp: Navigation_elements_def role_equals_string [OF r] Let_def constants_defs)
  then show "screen_allowed s (fst (nav_target x c it))" and "fst (nav_target x c it) \<noteq> Home"
    by (cases "client_is clientType_arbitrage s"; auto)+
qed

section \<open>Properties\<close>



lemma Navigation_elements_bounded:
  assumes "Navigation_elements s = Inr items"
  shows "distinct items \<and> length items \<le> 5"
proof -
  from Navigation_elements_string [OF assms] obtain r where r: "ses_role s = JStr r"
    by (cases "ses_role s") auto
  with assms show ?thesis
    by (auto simp: Navigation_elements_def role_equals_string [OF r] Let_def constants_defs guarded_def
        client_is_def)
qed

text \<open>
  C34: the bar has room for its entries. Splitting loses and reorders nothing and leaves at most
  five entries in the bar, the one for \<open>More\<close> included. No session has more than five links, so
  the menu behind \<open>More\<close> is never shown, and no link is offered twice. A session whose role is
  not a string gets no bar: it throws, even for the empty role that the routes accept.
\<close>

theorem navigation_bar_bounded:
  "fst (Navigation_split els) @ snd (Navigation_split els) = els
   \<and> length (fst (Navigation_split els)) + (if snd (Navigation_split els) = [] then 0 else 1) \<le> 5
   \<and> (case Navigation_elements s of
        Inl e \<Rightarrow> e = TypeError \<and> \<not> is_string (ses_role s)
      | Inr items \<Rightarrow> is_string (ses_role s) \<and> distinct items \<and> Navigation_split items = (items, []))"
proof (intro conjI)
  show split: "fst (Navigation_split els) @ snd (Navigation_split els) = els"
    by (rule Navigation_split_append)
  have "length els = length (fst (Navigation_split els)) + length (snd (Navigation_split els))"
    by (metis length_append split)
  then show "length (fst (Navigation_split els)) + (if snd (Navigation_split els) = [] then 0 else 1) \<le> 5"
    using Navigation_split_length [of els] by (auto split: if_splits)
  show "case Navigation_elements s of
        Inl e \<Rightarrow> e = TypeError \<and> \<not> is_string (ses_role s)
      | Inr items \<Rightarrow> is_string (ses_role s) \<and> distinct items \<and> Navigation_split items = (items, [])"
  proof (cases "Navigation_elements s")
    case (Inl e)
    then show ?thesis
      by (cases "ses_role s") (simp_all add: Navigation_elements_def role_equals_def Let_def)
  next
    case (Inr items)
    with Navigation_elements_bounded [OF Inr] Navigation_elements_string [OF Inr] show ?thesis
      by (simp add: Navigation_split_def)
  qed
qed

end
