(* ===== verification/Header_Links.thy ===== *)
theory Header_Links
  imports Routing
begin

text \<open>
  The header above a page: the drop-downs of \<^verbatim>\<open>components/Header\<close> (\<^verbatim>\<open>Exchanges.js\<close>,
  \<^verbatim>\<open>Symbols.js\<close>, \<^verbatim>\<open>Strategies.js\<close>, \<^verbatim>\<open>Timewrapper.js\<close>), whose entries are addresses, and
  \<^verbatim>\<open>containers/Header/index.js\<close>, which calls \<^verbatim>\<open>checkParameters\<close> after every update. Choosing an
  entry changes the address only; the selection follows from the address.
\<close>

section \<open>Drop-downs\<close>

definition header_path :: "header_spec \<Rightarrow> string \<Rightarrow> string \<Rightarrow> string \<Rightarrow> string" where
  "header_path h interval exchangeName codePair =
     hs_path h
     @ (if hs_isNeedInterval h then ''/'' @ interval else [])
     @ (if hs_isNeedExchange h then ''/'' @ exchangeName else [])
     @ (if hs_isNeedCurrencyCodePair h then ''/'' @ urlCodePair codePair else [])"

text \<open>The addresses of the entries, in the order shown.\<close>

definition Exchanges_links :: "header_spec \<Rightarrow> ex_state \<Rightarrow> string list" where
  "Exchanges_links h s =
     (case ex_exchanges s of
        None \<Rightarrow> []
      | Some exs \<Rightarrow>
          guarded (hs_needAll h) (hs_path h @ ''/all/'' @ urlCodePair (ex_currencyCodePair s))
          @ map (\<lambda>e. header_path h (ex_interval s) (exch_name e) (ex_currencyCodePair s)) exs)"

definition Exchanges_value :: "ex_state \<Rightarrow> string" where
  "Exchanges_value s =
     (if ex_exchangeName s = ''all'' then ''All exchanges'' else ex_exchangeName s)"

definition Symbols_links :: "header_spec \<Rightarrow> ex_state \<Rightarrow> string list" where
  "Symbols_links h s =
     (case ex_symbols s of
        None \<Rightarrow> []
      | Some ss \<Rightarrow>
          if ss = [] then []
          else
            guarded (hs_needAll h) (hs_path h @ ''/'' @ ex_exchangeName s @ ''/all'')
            @ map (\<lambda>y. header_path h (ex_interval s) (ex_exchangeName s) (sym_currencyCodePair y)) ss)"

definition Symbols_value :: "ex_state \<Rightarrow> string" where
  "Symbols_value s =
     (if ex_currencyCodePair s = ''all'' then ''All symbols'' else ex_currencyCodePair s)"

definition Strategies_links :: "header_spec \<Rightarrow> ex_state \<Rightarrow> string list" where
  "Strategies_links h s =
     (case ex_shortStrategyNames s of
        None \<Rightarrow> []
      | Some names \<Rightarrow>
          (hs_path h @ ''/'' @ ex_exchangeName s @ ''/'' @ urlCodePair (ex_currencyCodePair s) @ ''/all'')
          # map (\<lambda>n. hs_path h
               @ (if hs_isNeedExchange h then ''/'' @ ex_exchangeName s else [])
               @ (if hs_isNeedCurrencyCodePair h then ''/'' @ urlCodePair (ex_currencyCodePair s) else [])
               @ (if hs_isNeedStrategy h then ''/'' @ n else [])) names)"

definition Strategies_value :: "ex_state \<Rightarrow> string option" where
  "Strategies_value s =
     (if ex_strategyName s = Some ''All'' then Some ''All strategies'' else ex_strategyName s)"

record time_item =
  ti_to :: string
  ti_text :: string
  ti_active :: bool

definition Timewrapper_items ::
  "string \<Rightarrow> bool \<Rightarrow> string \<Rightarrow> string \<Rightarrow> string \<Rightarrow> time_item list" where
  "Timewrapper_items path hideNow interval exchangeName currencyPair =
     (let selectedInterval = (if hideNow \<and> interval = ''now'' then ''day'' else interval);
          link = (\<lambda>i. path @ ''/'' @ i @ ''/'' @ exchangeName @ ''/'' @ currencyPair)
      in map (\<lambda>(i, t). \<lparr>ti_to = link i, ti_text = t, ti_active = (i = selectedInterval)\<rparr>)
           [(''month'', ''Month''), (''week'', ''Week''), (''day'', ''Day'')]
         @ guarded (\<not> hideNow)
             \<lparr>ti_to = link ''now'', ti_text = ''Now'', ti_active = (interval = ''now'')\<rparr>)"

text \<open>Which drop-downs the header shows.\<close>

record header_view =
  hv_exchanges :: "string list"
  hv_symbols :: "string list"
  hv_strategies :: "string list option"
  hv_times :: "time_item list option"

definition Header_render :: "header_spec \<Rightarrow> ex_state \<Rightarrow> header_view" where
  "Header_render h s =
     \<lparr>hv_exchanges = Exchanges_links h s, hv_symbols = Symbols_links h s,
      hv_strategies = (if hs_needShowStrategies h then Some (Strategies_links h s) else None),
      hv_times = (if hs_needTimeWrapper h
        then Some (Timewrapper_items (hs_path h) (hs_hideNow h) (ex_interval s) (ex_exchangeName s)
               (ex_currencyPair s))
        else None)\<rparr>"

section \<open>The update after a change\<close>

text \<open>
  The parameters of the header's own route: \<^verbatim>\<open>/:interval?/:exchangeName?/:urlCurrencyCodePair?\<close>
  or without the interval.
\<close>

definition header_match :: "header_spec \<Rightarrow> string list \<Rightarrow> string \<Rightarrow> header_props" where
  "header_match h vs p =
     (let off = (if hs_params h = 3 then 1 else 0 :: int)
      in \<lparr>hp_path = hs_path h, hp_isNeedInterval = hs_isNeedInterval h,
          hp_isNeedExchange = hs_isNeedExchange h,
          hp_isNeedCurrencyCodePair = hs_isNeedCurrencyCodePair h,
          hp_interval = (if hs_params h = 3 then at vs 0 else None),
          hp_exchangeName = at vs off, hp_urlCurrencyCodePair = at vs (off + 1),
          hp_pathname = p\<rparr>)"

definition Header_update :: "matcher \<Rightarrow> header_spec \<Rightarrow> string \<Rightarrow> ex_state \<Rightarrow> check_outcome option" where
  "Header_update m h p s =
     map_option (\<lambda>vs. checkParameters (header_match h vs p) s) (m (hs_path h) (hs_params h) p)"

section \<open>Choosing an entry\<close>

text \<open>What the headers of \<^verbatim>\<open>App.js\<close> have in common.\<close>

lemma header_of_std:
  assumes "header_of scr = Some h"
  shows "plain_path (hs_path h)" and "hs_isNeedExchange h" and "hs_isNeedCurrencyCodePair h"
    and "hs_params h = (if hs_isNeedInterval h then 3 else 2)"
  using assms by (cases scr; auto simp: header_def plain_path_def lower_char_ascii)+

definition header_values :: "header_spec \<Rightarrow> string \<Rightarrow> string \<Rightarrow> string \<Rightarrow> string list" where
  "header_values h i x c = (if hs_isNeedInterval h then [i] else []) @ [x, urlCodePair c]"

text \<open>Names of the store that survive an address.\<close>

definition pair_ok :: "string \<Rightarrow> bool" where
  "pair_ok c \<longleftrightarrow> segment_ok (urlCodePair c) \<and> CHR ''-'' \<notin> set c"

lemma validIntervals_ok: "i \<in> set validIntervals \<Longrightarrow> segment_ok i"
  by (auto simp: validIntervals_def segment_ok_def)

lemma Header_update_at:
  assumes "documented_matcher m" and "header_of scr = Some h"
    and "i \<in> set validIntervals" and "segment_ok x" and "pair_ok c"
  shows "Header_update m h (header_path h i x c) s
    = Some (checkParameters (header_match h (header_values h i x c) (header_path h i x c)) s)"
proof -
  note std = header_of_std [OF assms(2)]
  have "header_path h i x c = address (hs_path h) (header_values h i x c)"
    using std by (simp add: header_path_def header_values_def address_def)
  moreover have "length (header_values h i x c) \<le> hs_params h"
    "list_all segment_ok (header_values h i x c)"
    using assms std by (auto simp: header_values_def pair_ok_def validIntervals_ok)
  ultimately show ?thesis
    using matcher_hit(1) [OF assms(1) std(1)] by (simp add: Header_update_def)
qed

lemma header_match_sel:
  assumes "header_of scr = Some h"
  shows "hp_path (header_match h (header_values h i x c) p) = hs_path h"
    "hp_isNeedInterval (header_match h (header_values h i x c) p) = hs_isNeedInterval h"
    "hp_isNeedExchange (header_match h (header_values h i x c) p)"
    "hp_isNeedCurrencyCodePair (header_match h (header_values h i x c) p)"
    "hp_interval (header_match h (header_values h i x c) p)
       = (if hs_isNeedInterval h then Some i else None)"
    "hp_exchangeName (header_match h (header_values h i x c) p) = Some x"
    "hp_urlCurrencyCodePair (header_match h (header_values h i x c) p) = Some (urlCodePair c)"
    "hp_pathname (header_match h (header_values h i x c) p) = p"
  using header_of_std [OF assms]
  by (auto simp: header_match_def header_values_def at_def Let_def)

text \<open>
  An address with a listed exchange and a pair that is listed, or is the one selected, is not
  corrected: what remains is to move the selection.
\<close>

lemma checkParameters_moves:
  assumes "header_of scr = Some h" and "i \<in> set validIntervals" and "pair_ok c"
    and "ex_exchanges s = Some exs" and "ex_symbols s = Some ss"
    and "ex_exchangeName s \<noteq> []" and "ex_currencyPair s \<noteq> []" and "ex_currencyCodePair s \<noteq> []"
    and x: "x \<in> exch_name ` set exs" "x \<noteq> ''all''" "x \<noteq> []"
    and c: "c \<in> sym_currencyCodePair ` set ss \<or> c = ex_currencyCodePair s" "c \<noteq> ''all''"
  shows "checkParameters (header_match h (header_values h i x c) (header_path h i x c)) s
    = sync_selection (header_match h (header_values h i x c) (header_path h i x c)) s"
proof -
  let ?P = "header_match h (header_values h i x c) (header_path h i x c)"
  note P = header_match_sel [OF assms(1), of i x c "header_path h i x c"]
  have c0: "normalCodePair (hp_urlCurrencyCodePair ?P) = Some c" "c \<noteq> []"
    using assms(3) by (auto simp: P(7) url_normal_pair pair_ok_def segment_ok_def)
  have "exs \<noteq> []" using x(1) by auto
  then obtain e0 where e0: "first_exchange_name exs = Inr e0"
    by (cases exs) (simp_all add: first_exchange_name_def)
  have "chosen_exchange ?P exs (ex_exchangeName s) = Inr x"
    using x e0 by (auto simp: chosen_exchange_def P Let_def)
  moreover have "chosen_pair ?P ss (ex_currencyCodePair s) = Inr c"
  proof (cases "ex_currencyCodePair s = c")
    case True
    with c(2) c0 show ?thesis by (simp add: chosen_pair_def)
  next
    case False
    with c(1) have "c \<in> sym_currencyCodePair ` set ss" by auto
    moreover from this obtain p0 where "first_code_pair ss = Inr p0"
      by (cases ss) (simp_all add: first_code_pair_def)
    ultimately show ?thesis using False c0 by (auto simp: chosen_pair_def Let_def)
  qed
  moreover have "interval_segment ?P = (if hs_isNeedInterval h then ''/'' @ i else [])"
    using assms(2) validIntervals_ok [OF assms(2)]
    by (simp add: interval_segment_def chosen_interval_def P segment_ok_def)
  ultimately have "new_path ?P s = Inr (hs_path h @ (if hs_isNeedInterval h then ''/'' @ i else [])
      @ (''/'' @ x) @ (''/'' @ urlCodePair c))"
    using assms(4-8) by (simp add: new_path_def exchange_segment_def pair_segment_def P(1-4))
  also have "\<dots> = Inr (header_path h i x c)"
    using header_of_std [OF assms(1)] by (simp add: header_path_def)
  finally have "new_path ?P s = Inr (header_path h i x c)" .
  with assms(4,6,7) show ?thesis by (simp add: checkParameters_def P(8))
qed

lemma filter_zip_unique:
  assumes "distinct (map f xs)" and "k < length xs"
  shows "filter (\<lambda>(x, i). f x = f (xs ! k)) (zip xs [a..<a + length xs]) = [(xs ! k, a + k)]"
  using assms
proof (induction xs arbitrary: k a)
  case (Cons y ys)
  have up: "[a..<a + length (y # ys)] = a # [Suc a..<Suc a + length ys]"
    using upt_conv_Cons [of a "a + length (y # ys)"] by simp
  show ?case
  proof (cases k)
    case 0
    have "filter (\<lambda>(x, i). f x = f y) (zip ys [Suc a..<Suc a + length ys]) = []"
      using Cons.prems(1) by (auto simp: filter_empty_conv) (metis imageI set_zip_leftD)
    with 0 show ?thesis unfolding up by simp
  next
    case (Suc j)
    with Cons.prems have "f y \<noteq> f (ys ! j)" "j < length ys" by auto
    with Suc Cons.IH [of j "Suc a"] Cons.prems show ?thesis unfolding up by simp
  qed
qed simp

lemma exchange_patches_at:
  assumes "ex_exchanges s = Some exs" and "k < length exs" and "distinct (map exch_name exs)"
    and "hp_exchangeName props = Some (exch_name (exs ! k))"
    and "ex_exchangeName s \<noteq> exch_name (exs ! k)"
  shows "exchange_patches props s = inr_values [updateSelectedExchange_patch (int k) s]"
proof -
  have "filter (\<lambda>(ex, i). Some (exch_name ex) = hp_exchangeName props
      \<and> Some (ex_exchangeName s) \<noteq> hp_exchangeName props) (zip exs [0..<length exs]) = [(exs ! k, k)]"
    using filter_zip_unique [OF assms(3,2), of 0] assms(4,5) by simp
  with assms(1) show ?thesis by (simp add: exchange_patches_def)
qed

lemma symbol_patches_at:
  assumes "ex_symbols s = Some ss" and "j < length ss" and "distinct (map sym_currencyCodePair ss)"
    and "normalCodePair (hp_urlCurrencyCodePair props) = Some (sym_currencyCodePair (ss ! j))"
    and "ex_currencyCodePair s \<noteq> sym_currencyCodePair (ss ! j)"
  shows "symbol_patches props s = inr_values [updateSelectedSymbol_patch (int j) s]"
proof -
  have "filter (\<lambda>(sym, i). Some (sym_currencyCodePair sym) = normalCodePair (hp_urlCurrencyCodePair props)
      \<and> Some (ex_currencyCodePair s) \<noteq> normalCodePair (hp_urlCurrencyCodePair props))
      (zip ss [0..<length ss]) = [(ss ! j, j)]"
    using filter_zip_unique [OF assms(3,2), of 0] assms(4,5) by simp
  with assms(1) show ?thesis by (simp add: symbol_patches_def Let_def)
qed

lemma exchange_patches_same:
  "hp_exchangeName props = Some (ex_exchangeName s) \<Longrightarrow> exchange_patches props s = []"
  by (simp add: exchange_patches_def inr_values_def split: option.split)

lemma symbol_patches_same:
  "normalCodePair (hp_urlCurrencyCodePair props) = Some (ex_currencyCodePair s) \<Longrightarrow>
     symbol_patches props s = []"
  by (simp add: symbol_patches_def inr_values_def split: option.split)

lemma inr_values_single [simp]: "inr_values [Inr p] = [p]" "inr_values [Inl e] = []"
  by (simp_all add: inr_values_def)

lemma sync_selection_plain:
  assumes "header_of scr = Some h" and "pair_ok c" and "x \<noteq> ''all''" and "c \<noteq> ''all''"
  shows "sync_selection (header_match h (header_values h (ex_interval s) x c) p) s
    = \<lparr>co_error = None, co_nav = None,
       co_state = fold (\<lambda>p. p)
         (exchange_patches (header_match h (header_values h (ex_interval s) x c) p) s
          @ symbol_patches (header_match h (header_values h (ex_interval s) x c) p) s) s\<rparr>"
  using assms
  by (simp add: sync_selection_def sync_interval_def sync_symbol_def Let_def
      header_match_sel [OF assms(1)] url_normal_pair pair_ok_def)

text \<open>A store whose selection can be written into an address and read back.\<close>

definition store_ready :: "ex_state \<Rightarrow> bool" where
  "store_ready s \<longleftrightarrow>
     selection_ok s \<and> ex_interval s \<in> set validIntervals
     \<and> ex_currencyPair s \<noteq> [] \<and> ex_currencyCodePair s \<noteq> ''all'' \<and> pair_ok (ex_currencyCodePair s)
     \<and> ex_exchangeName s \<noteq> []
     \<and> (case ex_exchanges s of
          None \<Rightarrow> False
        | Some exs \<Rightarrow> distinct (map exch_name exs)
            \<and> list_all (\<lambda>e. segment_ok (exch_name e) \<and> exch_name e \<noteq> ''all'' \<and> exch_symbols e \<noteq> []
                \<and> distinct (map sym_currencyCodePair (exch_symbols e))
                \<and> list_all (\<lambda>y. pair_ok (sym_currencyCodePair y) \<and> sym_currencyCodePair y \<noteq> ''all'')
                    (exch_symbols e)) exs)"

lemma store_readyD:
  assumes "store_ready s" and exs: "ex_exchanges s = Some exs"
  obtains ss where "ex_symbols s = Some ss"
    and "distinct (map exch_name exs)" and "ex_currencyCodePair s \<noteq> []"
    and "\<forall>e \<in> set exs. segment_ok (exch_name e) \<and> exch_name e \<noteq> ''all'' \<and> exch_symbols e \<noteq> []"
    and "\<forall>y \<in> set ss. pair_ok (sym_currencyCodePair y) \<and> sym_currencyCodePair y \<noteq> ''all''"
proof -
  from assms exs obtain ss where ss: "ex_symbols s = Some ss"
    "symbols_of_exchange (Some exs) (ex_selectedExchange s) = Inr ss"
    by (auto simp: store_ready_def selection_ok_def)
  show thesis
  proof (rule that [OF ss(1)])
    show "distinct (map exch_name exs)" "ex_currencyCodePair s \<noteq> []"
      using assms exs by (auto simp: store_ready_def pair_ok_def segment_ok_def)
    show "\<forall>e \<in> set exs. segment_ok (exch_name e) \<and> exch_name e \<noteq> ''all'' \<and> exch_symbols e \<noteq> []"
      using assms exs by (auto simp: store_ready_def list_all_iff)
    show "\<forall>y \<in> set ss. pair_ok (sym_currencyCodePair y) \<and> sym_currencyCodePair y \<noteq> ''all''"
      using selected_symbols_subset [OF ss(2)] assms exs
      by (auto simp: store_ready_def list_all_iff)
  qed
qed

text \<open>
  Choosing an exchange works. Every entry of the drop-down is an address that the header's
  route takes and \<open>checkParameters\<close> leaves alone; the update after it selects that exchange,
  with a consistent selection.
\<close>

theorem choosing_exchange_selects_it:
  assumes "documented_matcher m" and "header_of scr = Some h" and "store_ready s"
    and "ex_exchanges s = Some exs" and "k < length exs"
  shows "\<exists>c. header_path h (ex_interval s) (exch_name (exs ! k)) (ex_currencyCodePair s)
        \<in> set (Exchanges_links h s)
    \<and> Header_update m h (header_path h (ex_interval s) (exch_name (exs ! k)) (ex_currencyCodePair s)) s = Some c
    \<and> co_error c = None \<and> co_nav c = None \<and> selection_ok (co_state c)
    \<and> ex_exchangeName (co_state c) = exch_name (exs ! k)"
proof -
  let ?x = "exch_name (exs ! k)" and ?i = "ex_interval s" and ?c = "ex_currencyCodePair s"
  let ?p = "header_path h ?i ?x ?c"
  let ?P = "header_match h (header_values h ?i ?x ?c) ?p"
  obtain ss where ss: "ex_symbols s = Some ss"
    and names: "distinct (map exch_name exs)" and ne: "?c \<noteq> []"
    and ex: "\<forall>e \<in> set exs. segment_ok (exch_name e) \<and> exch_name e \<noteq> ''all'' \<and> exch_symbols e \<noteq> []"
    by (rule store_readyD [OF assms(3,4)])
  have sel: "selection_ok s" and iv: "?i \<in> set validIntervals" and cp: "ex_currencyPair s \<noteq> []"
    and c: "?c \<noteq> ''all''" "pair_ok ?c" and xn: "ex_exchangeName s \<noteq> []"
    using assms(3) by (auto simp: store_ready_def)
  have x: "segment_ok ?x" "?x \<noteq> ''all''" "exch_symbols (exs ! k) \<noteq> []" "?x \<in> exch_name ` set exs"
    using bspec [OF ex, of "exs ! k"] assms(5) by auto
  then have "?x \<noteq> []" by (simp add: segment_ok_def)
  have upd: "Header_update m h ?p s = Some (sync_selection ?P s)"
    using Header_update_at [OF assms(1,2) iv x(1) c(2)]
      checkParameters_moves [OF assms(2) iv c(2) assms(4) ss xn cp ne x(4,2) \<open>?x \<noteq> []\<close> _ c(1)]
    by simp
  have "symbol_patches ?P s = []"
    using c(2) by (intro symbol_patches_same)
      (simp add: header_match_sel [OF assms(2)] url_normal_pair pair_ok_def)
  then have sync: "sync_selection ?P s = \<lparr>co_error = None, co_nav = None,
      co_state = fold (\<lambda>p. p) (exchange_patches ?P s) s\<rparr>"
    by (simp add: sync_selection_plain [OF assms(2) c(2) x(2) c(1)])
  have "selection_ok (fold (\<lambda>p. p) (exchange_patches ?P s) s)
      \<and> ex_exchangeName (fold (\<lambda>p. p) (exchange_patches ?P s) s) = ?x"
  proof (cases "ex_exchangeName s = ?x")
    case True
    then have "exchange_patches ?P s = []"
      by (intro exchange_patches_same) (simp add: header_match_sel [OF assms(2)])
    with True sel show ?thesis by simp
  next
    case False
    from updateSelectedExchange_total [OF assms(4), of "int k"] x(3) assms(5)
    obtain q where q: "updateSelectedExchange_patch (int k) s = Inr q"
      by (auto simp: updateSelectedExchange_def res_simps)
    then have "exchange_patches ?P s = [q]"
      using exchange_patches_at [OF assms(4,5) names _ False, of ?P]
      by (simp add: header_match_sel [OF assms(2)])
    moreover have "selection_ok (q s)"
      using q by (intro updateSelectedExchange_ok [of "int k" s]) (simp add: updateSelectedExchange_def)
    moreover have "ex_exchangeName (q s) = ?x"
      using q assms(4,5) by (auto simp: ex_op_defs res_simps Let_def split: prod.splits option.splits if_splits)
    ultimately show ?thesis by simp
  qed
  moreover have "?p \<in> set (Exchanges_links h s)"
    using assms(4,5) by (auto simp: Exchanges_links_def)
  ultimately show ?thesis using upd sync by simp
qed

lemma demo_store_ready: "store_ready demo_store"
proof -
  have "ex_interval demo_store = ''now''" "ex_currencyPair demo_store = ''BTCUSDT''"
    "ex_currencyCodePair demo_store = ''BTC/USDT''" "ex_exchangeName demo_store = ''Binance''"
    "ex_exchanges demo_store = Some demo_exchanges"
    by code_simp+
  then show ?thesis
    using demo_store_ok
    by (auto simp: store_ready_def demo_exchanges_def demo_symbol_def validIntervals_def pair_ok_def
        segment_ok_def urlCodePair_def)
qed

theorem choosing_exchange_selects_it_witness:
  "\<exists>c. Header_update demo_match (header ''/liquidity'' 3 False True) ''/liquidity/now/Bitmex/BTC-USDT'' demo_store
      = Some c \<and> ex_exchangeName (co_state c) = ''Bitmex''"
proof -
  have st: "ex_exchanges demo_store = Some demo_exchanges"
    "header_path (header ''/liquidity'' 3 False True) (ex_interval demo_store)
       (exch_name (demo_exchanges ! 1)) (ex_currencyCodePair demo_store) = ''/liquidity/now/Bitmex/BTC-USDT''"
    "1 < length demo_exchanges" "exch_name (demo_exchanges ! 1) = ''Bitmex''"
    by code_simp+
  from choosing_exchange_selects_it [OF demo_match_documented header_of.simps(2) demo_store_ready st(1,3)]
  show ?thesis unfolding st(2) by (metis st(4))
qed



end
