(* ===== verification/Indicators_View.thy ===== *)
theory Indicators_View
  imports Url_Utils Js_Order
begin

text \<open>
  The indicators: the box of \<^verbatim>\<open>components/Indicator/Indicator.js\<close> and the numbers put into it by
  the \<^verbatim>\<open>Indicators.js\<close> of the liquidity, volume and price pages.
\<close>

section \<open>The box\<close>

record indicator =
  in_data :: jsv
  in_percentage :: jsv
  in_prefix :: jsv
  in_postfix :: jsv
  in_isColored :: bool
  in_title :: string
  in_tooltip :: string

definition indicator :: "jsv \<Rightarrow> jsv \<Rightarrow> jsv \<Rightarrow> string \<Rightarrow> indicator" where
  "indicator d percentage postfix title =
     \<lparr>in_data = d, in_percentage = percentage, in_prefix = JUndef, in_postfix = postfix,
      in_isColored = False, in_title = title, in_tooltip = []\<rparr>"

definition above_zero :: "jsv \<Rightarrow> bool" where
  "above_zero v = num_less num_zero (js_to_num v)"

definition getIndicatorText :: "indicator \<Rightarrow> string" where
  "getIndicatorText i =
     (if in_data i = JNull \<or> in_data i = JUndef then ''--''
      else
        (if truthy (in_prefix i) then js_to_string (in_prefix i) else [])
        @ (if in_isColored i \<and> above_zero (in_data i) then ''+ '' else [])
        @ js_to_string (in_data i)
        @ (if truthy (in_postfix i) then '' '' @ js_to_string (in_postfix i) else []))"

definition indicator_color :: "indicator \<Rightarrow> string" where
  "indicator_color i =
     (if in_isColored i then (if above_zero (in_data i) then ''green-text'' else ''red-text'') else [])"

text \<open>The line under the text: its label, and its width in percent.\<close>

definition indicator_line :: "indicator \<Rightarrow> (string \<times> string) option" where
  "indicator_line i =
     (if in_percentage i = JUndef then None
      else Some (js_to_string (in_percentage i) @ ''%'',
        js_to_string (if num_less (num_of_int 100) (js_to_num (in_percentage i))
          then JNum (num_of_int 100) else in_percentage i) @ ''%''))"

section \<open>\<^verbatim>\<open>LiquidityNow/Indicators.js\<close>\<close>

definition round_jsv :: "jsv \<Rightarrow> int \<Rightarrow> jsv" where
  "round_jsv v n = JNum (round_to v (JNum (num_of_int n)))"

definition round_or :: "string \<Rightarrow> jsv \<Rightarrow> int \<Rightarrow> jsv" where
  "round_or dash v n = (if truthy v then round_jsv v n else JStr dash)"

text \<open>The dash for the total volume is a hyphen and an en dash, written in UTF-8.\<close>

definition long_dash :: string where
  "long_dash = [CHR ''-'', CHR 0xE2, CHR 0x80, CHR 0x93]"

record now_data =
  nd_spread :: jsv
  nd_totalVolume :: jsv
  nd_totalBid :: jsv
  nd_totalAsk :: jsv
  nd_volumePct :: jsv
  nd_bidPct :: jsv
  nd_askPct :: jsv
  nd_symbol :: jsv

definition no_data :: now_data where
  "no_data = \<lparr>nd_spread = JUndef, nd_totalVolume = JUndef, nd_totalBid = JUndef, nd_totalAsk = JUndef,
     nd_volumePct = JUndef, nd_bidPct = JUndef, nd_askPct = JUndef, nd_symbol = JUndef\<rparr>"

definition read_indicators :: "jsv \<Rightarrow> now_data \<Rightarrow> now_data res" where
  "read_indicators ind d =
     (if truthy ind then
        res_bind (get_prop ind ''volumePct'') (\<lambda>vp. res_bind (get_prop ind ''bidPct'') (\<lambda>bp.
        res_bind (get_prop ind ''askPct'') (\<lambda>ap. res_bind (get_prop ind ''spread'') (\<lambda>sp.
        res_bind (get_prop ind ''totalVolume'') (\<lambda>tv. res_bind (get_prop ind ''totalBid'') (\<lambda>tb.
        res_bind (get_prop ind ''totalAsk'') (\<lambda>ta.
          Inr (d\<lparr>nd_volumePct := round_jsv vp 0, nd_bidPct := round_jsv bp 0,
                 nd_askPct := round_jsv ap 0, nd_spread := round_or ''--'' sp 1,
                 nd_totalVolume := round_or long_dash tv 3, nd_totalBid := round_or ''--'' tb 3,
                 nd_totalAsk := round_or ''--'' ta 3\<rparr>))))))))
      else Inr d)"

definition indicators_data :: "jsv \<Rightarrow> symbol option \<Rightarrow> now_data res" where
  "indicators_data orderState symb =
     (if orderState = JNull then Inr no_data
      else res_bind (get_prop orderState ''indicators'') (\<lambda>ind.
        res_bind (read_indicators ind no_data) (\<lambda>d.
          Inr (d\<lparr>nd_symbol := JStr (case symb of Some y \<Rightarrow> sym_amountCurrencyCode y | None \<Rightarrow> [])\<rparr>))))"

text \<open>\<^verbatim>\<open>data.volumePct || 0\<close>\<close>

definition or_zero :: "jsv \<Rightarrow> jsv" where
  "or_zero v = (if truthy v then v else JNum num_zero)"

definition volume_indicators :: "now_data \<Rightarrow> indicator list" where
  "volume_indicators d =
     [indicator (nd_spread d) JUndef (JStr ''%'') ''Spread'',
      indicator (nd_totalVolume d) (or_zero (nd_volumePct d)) (nd_symbol d) ''Total Volume'',
      indicator (nd_totalAsk d) (or_zero (nd_askPct d)) (nd_symbol d) ''Asks Volume'',
      indicator (nd_totalBid d) (or_zero (nd_bidPct d)) (nd_symbol d) ''Bids Volume'']"

text \<open>
  One indicator per currency: filled, reserved and limit. The filled amount is the position, or
  its negation for the other currency of the pair.
\<close>

definition fmtBalance :: "jsv \<Rightarrow> string" where
  "fmtBalance v = num_to_string (round_to v (JNum (num_of_int 3)))"

definition filled_amount :: "jsv \<Rightarrow> jsv \<Rightarrow> (jsv \<times> string \<times> string) res" where
  "filled_amount cur currencyCode =
     res_bind (get_prop cur ''amountCurrencyCode'') (\<lambda>amountCode.
     res_bind (get_prop cur ''position'') (\<lambda>positionData.
       if truthy positionData then
         res_bind (get_prop positionData ''position'') (\<lambda>p.
           if p = JUndef then Inr (JNum num_zero, [], [])
           else if strict_eq amountCode currencyCode
           then Inr (p, ''F: '' @ fmtBalance p @ '' / '', ''Filled / '')
           else Inr (JNum (num_neg (js_to_num p)), [], []))
       else Inr (JNum num_zero, [], [])))"

definition balance_indicator :: "jsv \<Rightarrow> jsv \<Rightarrow> indicator res" where
  "balance_indicator cur ind =
     res_bind (get_prop ind ''currencyCode'') (\<lambda>code.
     res_bind (get_prop ind ''reservationAmount'') (\<lambda>reserved.
     res_bind (get_prop ind ''limitAmount'') (\<lambda>limit.
     res_bind (filled_amount cur code) (\<lambda>(filled, filledText, filledTip).
       let percent = (if limit = JUndef then JUndef
             else JNum (unit_percent (num_div (js_to_num (js_add filled reserved)) (js_to_num limit))))
       in Inr \<lparr>in_data = JStr (filledText @ ''R: '' @ fmtBalance reserved
                  @ (if limit = JUndef then [] else '' / L: '' @ fmtBalance limit)),
               in_percentage = round_jsv percent 0, in_prefix = JUndef, in_postfix = JUndef,
               in_isColored = False, in_title = js_to_string code @ '' amount'',
               in_tooltip = filledTip @ ''Reserved'' @ (if limit = JUndef then [] else '' / Limit'')\<rparr>))))"

record position_part =
  pp_code :: jsv
  pp_amount :: jsv
  pp_limit :: jsv
  pp_normAmount :: jsv

definition getIndicator :: "jsv \<Rightarrow> jsv \<Rightarrow> position_part res" where
  "getIndicator cur ind =
     res_bind (get_prop cur ''amountCurrencyCode'') (\<lambda>amountCode.
     res_bind (get_prop cur ''position'') (\<lambda>positionData.
     res_bind (if truthy positionData then get_prop positionData ''position'' else Inr (JNum num_zero))
       (\<lambda>position.
     res_bind (get_prop ind ''currencyCode'') (\<lambda>code.
     res_bind (get_prop ind ''reservationAmount'') (\<lambda>reserved.
     res_bind (get_prop ind ''limitAmount'') (\<lambda>limit.
       let amount = js_add (if strict_eq code amountCode then position else JNum num_zero) reserved
       in Inr \<lparr>pp_code = code, pp_amount = amount, pp_limit = limit,
               pp_normAmount = (if truthy limit
                 then JNum (num_div (js_to_num amount) (js_to_num limit)) else JUndef)\<rparr>))))))"

definition position_text :: "position_part \<Rightarrow> position_part \<Rightarrow> string" where
  "position_text p1 p2 =
     (if \<not> truthy (pp_limit p1) \<or> \<not> truthy (pp_limit p2)
      then ''Absolute: '' @ num_to_string (round_to
             (JNum (num_sub (js_to_num (pp_amount p2)) (js_to_num (pp_amount p1)))) (JNum (num_of_int 3)))
      else
        let position = num_mult (math_max (num_of_int (- 1)) (math_min (num_of_int 1)
              (num_sub (js_to_num (pp_normAmount p2)) (js_to_num (pp_normAmount p1))))) (num_of_int 100)
        in ''Relative: '' @ num_to_string (round_to (JNum position) (JNum num_zero)) @ ''%'')"

definition getPositionCurrencyIndicator :: "jsv \<Rightarrow> indicator option res" where
  "getPositionCurrencyIndicator cur =
     res_bind (get_prop cur ''balanceIndicators'') (\<lambda>bs.
       if \<not> truthy bs then Inr None
       else res_bind (get_prop bs ''0'') (\<lambda>b0. res_bind (get_prop bs ''1'') (\<lambda>b1.
         if \<not> truthy b0 \<or> \<not> truthy b1 then Inr None
         else res_bind (getIndicator cur b0) (\<lambda>p1. res_bind (getIndicator cur b1) (\<lambda>p2.
           Inr (Some (indicator (JStr (position_text p1 p2)) JUndef JUndef
             (js_to_string (pp_code p1) @ ''/'' @ js_to_string (pp_code p2) @ '' position'')))))) ))"

text \<open>\<^verbatim>\<open><\<close> between values: two strings are compared as strings.\<close>

fun str_less :: "string \<Rightarrow> string \<Rightarrow> bool" where
  "str_less _ [] = False"
| "str_less [] (_ # _) = True"
| "str_less (a # as) (b # bs) =
     (of_char a < (of_char b :: nat) \<or> (a = b \<and> str_less as bs))"

fun js_less :: "jsv \<Rightarrow> jsv \<Rightarrow> bool" where
  "js_less (JStr a) (JStr b) = str_less a b"
| "js_less a b = num_less (js_to_num a) (js_to_num b)"

definition liquidation_percent :: "jsv \<Rightarrow> jsnum \<Rightarrow> jsv \<Rightarrow> jsnum" where
  "liquidation_percent entry actual liquidation =
     (let e = js_to_num entry; l = js_to_num liquidation;
          ratio = (if js_less entry liquidation
                   then num_div (num_sub actual e) (num_sub l e)
                   else num_div (num_sub e actual) (num_sub e l))
      in num_mult (math_max num_zero ratio) (num_of_int 100))"

definition side_name :: "jsv \<Rightarrow> string" where
  "side_name side =
     (if strict_eq side (JNum (num_of_int 1)) then ''Buy''
      else if strict_eq side (JNum (num_of_int 2)) then ''Sell'' else ''None'')"

definition getLiquidationIndicator :: "jsv \<Rightarrow> jsv \<Rightarrow> symbol option \<Rightarrow> indicator option res" where
  "getLiquidationIndicator cur orderState symb =
     res_bind (get_prop cur ''position'') (\<lambda>pos.
       if \<not> truthy pos \<or> \<not> truthy orderState then Inr None
       else res_bind (get_prop orderState ''indicators'') (\<lambda>ind.
         if \<not> truthy ind then Inr None
         else res_bind (get_prop ind ''mediumPrice'') (\<lambda>medium.
           case symb of
             None \<Rightarrow> Inl TypeError
           | Some y \<Rightarrow>
               let actual = round_to medium (JNum (num_of_int (sym_pricePrecision y)))
               in res_bind (get_prop pos ''liquidationPrice'') (\<lambda>liq.
                  res_bind (get_prop pos ''avgEntryPrice'') (\<lambda>entry.
                  res_bind (get_prop pos ''side'') (\<lambda>side.
                    Inr (Some \<lparr>in_data = JStr (js_to_string entry @ '' / '' @ num_to_string actual
                           @ '' / '' @ js_to_string liq),
                         in_percentage = round_jsv (JNum (liquidation_percent entry actual liq)) 0,
                         in_prefix = JUndef, in_postfix = JUndef, in_isColored = False,
                         in_title = ''Liquidation ('' @ side_name side @ '')'',
                         in_tooltip = ''Entry / Actual / Liquidation''\<rparr>)))))))"

text \<open>The whole row of indicators.\<close>

definition opt_list :: "'a option \<Rightarrow> 'a list" where
  "opt_list v = (case v of None \<Rightarrow> [] | Some x \<Rightarrow> [x])"

definition balance_indicators :: "jsv \<Rightarrow> jsv \<Rightarrow> symbol option \<Rightarrow> indicator list res" where
  "balance_indicators orderState cur symb =
     (if orderState = JNull \<or> \<not> truthy cur then Inr []
      else res_bind (get_prop cur ''balanceIndicators'') (\<lambda>bs.
        if \<not> truthy bs then Inr []
        else res_bind (elements bs) (\<lambda>items.
          res_bind (res_map (balance_indicator cur) items) (\<lambda>is1.
          res_bind (getPositionCurrencyIndicator cur) (\<lambda>i2.
          res_bind (getLiquidationIndicator cur orderState symb) (\<lambda>i3.
            Inr (is1 @ opt_list i2 @ opt_list i3)))))))"

definition LiquidityNow_Indicators :: "jsv \<Rightarrow> jsv \<Rightarrow> symbol option \<Rightarrow> indicator list res" where
  "LiquidityNow_Indicators orderState cur symb =
     res_bind (indicators_data orderState symb) (\<lambda>d.
     res_bind (balance_indicators orderState cur symb) (\<lambda>bs. Inr (volume_indicators d @ bs)))"

section \<open>The other pages\<close>

text \<open>\<^verbatim>\<open>Liquidity/Indicators.js\<close>: without indicators the boxes have no data; with them the symbol is read.\<close>

definition Liquidity_Indicators :: "jsv \<Rightarrow> symbol option \<Rightarrow> indicator list res" where
  "Liquidity_Indicators ind symb =
     res_bind (if ind = JNull then Inr (JUndef, JUndef, JUndef, JUndef, JUndef)
       else res_bind (get_prop ind ''minSpread'') (\<lambda>mn. res_bind (get_prop ind ''maxSpread'') (\<lambda>mx.
            res_bind (get_prop ind ''averageSpread'') (\<lambda>av. res_bind (get_prop ind ''volume'') (\<lambda>v.
              case symb of
                None \<Rightarrow> Inl TypeError
              | Some y \<Rightarrow> Inr (mn, mx, av, v, JStr (sym_amountCurrencyCode y)))))))
     (\<lambda>(mn, mx, av, v, code).
       Inr [indicator mn JUndef (JStr ''%'') ''Min. Spread'', indicator mx JUndef (JStr ''%'') ''Max. Spread'',
            indicator av JUndef (JStr ''%'') ''Average Spread'', indicator v JUndef code ''Volume''])"

definition Volume_Indicators :: "jsv \<Rightarrow> symbol option \<Rightarrow> indicator" where
  "Volume_Indicators v symb =
     indicator v JUndef (case symb of Some y \<Rightarrow> JStr (sym_amountCurrencyCode y) | None \<Rightarrow> JNull) ''Volume''"

definition Price_Indicators :: "bool \<Rightarrow> jsv \<Rightarrow> indicator res" where
  "Price_Indicators loading priceIndicators =
     res_bind (if loading then Inr JNull else get_prop priceIndicators ''priceChangeOverMarket'') (\<lambda>d.
       Inr ((indicator d JUndef (JStr ''%'') ''Price Change Over Market'')\<lparr>in_isColored := True\<rparr>))"

text \<open>\<^verbatim>\<open>formatToUsd\<close> is the formatter of the browser, the parameter \<open>usd\<close>.\<close>

definition PLIndicator :: "(jsv \<Rightarrow> string) \<Rightarrow> jsv \<Rightarrow> jsv \<Rightarrow> string \<Rightarrow> indicator" where
  "PLIndicator usd raw overMarket title =
     indicator (JStr (usd (or_zero raw) @ '' / '' @ usd (or_zero overMarket))) JUndef JUndef
       (title @ '' (raw / over market)'')"

definition getProfit :: "jsv \<Rightarrow> string \<Rightarrow> jsv res" where
  "getProfit profit profitType = (if truthy profit then get_prop profit profitType else Inr JNull)"

text \<open>The three boxes above the trades of the profit page.\<close>

definition PL_indicators :: "(jsv \<Rightarrow> string) \<Rightarrow> jsv \<Rightarrow> indicator list res" where
  "PL_indicators usd profits =
     res_bind (if truthy profits then get_prop profits ''rawProfit'' else Inr JNull) (\<lambda>raw.
     res_bind (if truthy profits then get_prop profits ''profitOverMarket'' else Inr JNull) (\<lambda>over.
       res_map (\<lambda>(key, title).
           res_bind (getProfit raw key) (\<lambda>r. res_bind (getProfit over key) (\<lambda>o'.
             Inr (PLIndicator usd r o' title))))
         [(''dayProfit'', ''Day''), (''weekProfit'', ''Week''), (''monthProfit'', ''Month'')]))"

definition PL_body_shows :: "bool \<Rightarrow> jsv \<Rightarrow> jsv \<Rightarrow> bool" where
  "PL_body_shows isConnected profits transactions \<longleftrightarrow> isConnected \<and> truthy profits \<and> truthy transactions"

section \<open>Percentages stay in range\<close>

lemma round_to_zero_digits:
  "round_to (JNum x) (JNum (num_of_int 0)) = math_round x"
  by (simp add: round_to_def num_of_int_def mk_fin_def num_eq_def)

lemma round_to_undefined: "round_to JUndef (JNum (num_of_int 0)) = NaN"
  by (simp add: round_to_def num_of_int_def mk_fin_def num_eq_def)

lemma round_unit_percent:
  "math_round (unit_percent x) = NaN \<or> (\<exists>n. math_round (unit_percent x) = num_of_int n \<and> 0 \<le> n \<and> n \<le> 100)"
proof (cases "x = NaN")
  case False
  from unit_percent_bounds [OF this] math_round_bounds [of "unit_percent x" 0 100] show ?thesis by simp
qed simp

text \<open>
  C31: the bar of a balance never leaves its box. Whatever the server sends for the position, the
  reservation and the limit (numbers, strings, nothing, a zero limit), the percentage of a balance
  indicator is a whole number between 0 and 100, or no number at all when there is nothing to
  divide; it is computed in the binary arithmetic of the browser, rounding included.
\<close>

theorem balance_percentage_bounded:
  assumes "balance_indicator cur ind = Inr b"
  shows "in_percentage b = JNum NaN
    \<or> (\<exists>n. in_percentage b = JNum (num_of_int n) \<and> 0 \<le> n \<and> n \<le> 100)"
proof -
  from assms have "in_percentage b = round_jsv JUndef 0
      \<or> (\<exists>x. in_percentage b = round_jsv (JNum (unit_percent x)) 0)"
    by (auto simp: balance_indicator_def res_simps Let_def split: prod.splits if_splits)
  then show ?thesis
    unfolding round_jsv_def round_to_zero_digits round_to_undefined
    using round_unit_percent by metis
qed

definition demo_balance :: jsv where
  "demo_balance = JObj [(''currencyCode'', JStr ''BTC''), (''reservationAmount'', JStr ''3''), (''limitAmount'', JStr ''2'')]"

theorem balance_percentage_bounded_witness:
  "\<exists>b. balance_indicator (JObj []) demo_balance = Inr b
     \<and> in_percentage b = JNum (num_of_int 100)"
proof -
  have "\<exists>b. balance_indicator (JObj []) demo_balance = Inr b"
    by (simp add: balance_indicator_def demo_balance_def filled_amount_def Let_def)
  then obtain b where b: "balance_indicator (JObj []) demo_balance = Inr b" by blast
  have "in_percentage (projr (balance_indicator (JObj []) demo_balance)) = JNum (num_of_int 100)"
    by code_simp
  with b balance_percentage_bounded [OF b] show ?thesis by auto
qed


section \<open>The box as a whole\<close>

text \<open>
  \<^verbatim>\<open>render\<close> of the box: classes, text, title, the line with its label, and the tooltip around it. Only a
  percentage of \<open>null\<close> makes it throw.
\<close>

record indicator_box =
  ix_class :: string
  ix_color :: string
  ix_text :: string
  ix_title :: string
  ix_line :: "(string \<times> string \<times> string) option"
  ix_tooltip :: "string option"

definition Indicator_render :: "indicator \<Rightarrow> indicator_box res" where
  "Indicator_render i =
     (if in_percentage i = JNull then Inl TypeError
      else Inr
        \<lparr>ix_class = ''base-background indicator-base '' @ (if in_percentage i = JUndef then [] else ''percent''),
         ix_color = ''indicator-text '' @ indicator_color i, ix_text = getIndicatorText i, ix_title = in_title i,
         ix_line = map_option (\<lambda>(label, width).
             (''indicator-numbers _'' @ num_to_string (num_of_int (int (length (js_to_string (in_percentage i))))),
              label, width)) (indicator_line i),
         ix_tooltip = (if truthy_str (in_tooltip i) then Some (in_tooltip i) else None)\<rparr>)"

text \<open>No box of the live page throws: their percentages are numbers or absent.\<close>

lemma or_zero_not_null: "or_zero v \<noteq> JNull"
  by (cases v) (simp_all add: or_zero_def)

lemma balance_indicator_box: "balance_indicator cur ind = Inr i \<Longrightarrow> in_percentage i \<noteq> JNull"
  by (auto simp: balance_indicator_def res_bind_eq_Inr round_jsv_def Let_def)

lemma position_indicator_box: "getPositionCurrencyIndicator cur = Inr (Some i) \<Longrightarrow> in_percentage i \<noteq> JNull"
  by (auto simp: getPositionCurrencyIndicator_def res_bind_eq_Inr indicator_def split: if_splits)

lemma liquidation_indicator_box: "getLiquidationIndicator cur os symb = Inr (Some i) \<Longrightarrow> in_percentage i \<noteq> JNull"
  by (auto simp: getLiquidationIndicator_def res_bind_eq_Inr round_jsv_def Let_def split: if_splits option.splits)

lemma balance_indicators_box:
  assumes "balance_indicators os cur symb = Inr is" and "i \<in> set is"
  shows "in_percentage i \<noteq> JNull"
proof -
  have "in_percentage x \<noteq> JNull" if "res_map (balance_indicator cur) items = Inr xs" "x \<in> set xs" for items xs x
    using that by (induction items arbitrary: xs) (auto simp: res_bind_eq_Inr dest: balance_indicator_box)
  then show ?thesis
    using assms position_indicator_box liquidation_indicator_box
    by (fastforce simp: balance_indicators_def res_bind_eq_Inr opt_list_def split: if_splits option.splits)
qed

lemma live_boxes_render:
  assumes "LiquidityNow_Indicators os cur symb = Inr is" and "i \<in> set is"
  shows "\<exists>box. Indicator_render i = Inr box"
proof -
  obtain d bs where "balance_indicators os cur symb = Inr bs" and "is = volume_indicators d @ bs"
    using assms(1) by (auto simp: LiquidityNow_Indicators_def res_bind_eq_Inr)
  then have "in_percentage i \<noteq> JNull"
    using assms(2) balance_indicators_box or_zero_not_null by (auto simp: volume_indicators_def indicator_def)
  then show ?thesis by (simp add: Indicator_render_def)
qed

end
