(* ===== verification/Charts.thy ===== *)
theory Charts
  imports Url_Utils Js_Order
begin

text \<open>
  The charts: what \<^verbatim>\<open>Liquidity.js\<close>, \<^verbatim>\<open>Price.js\<close>, \<^verbatim>\<open>Volume/Graph.js\<close>, \<^verbatim>\<open>Volume/GraphNow.js\<close>
  and \<^verbatim>\<open>PLGraph/GraphNow.js\<close> hand to the chart library, their points and the suggested range of
  the vertical axis. Colours and the fixed options of the library are left out; a point keeps the
  text of its date.
\<close>

section \<open>The range of the axis\<close>

text \<open>
  The body of the loops: the first value, and every value as long as both bounds are falsy, starts
  the range; a value other than zero widens it.
\<close>

definition range_step :: "jsv \<Rightarrow> jsv \<times> jsv \<Rightarrow> jsv \<times> jsv" where
  "range_step v = (\<lambda>(mn, mx).
     let (mn', mx') = (if \<not> truthy mn \<and> \<not> truthy mx then (v, v) else (mn, mx))
     in if strict_eq v (JNum num_zero) then (mn', mx')
        else (JNum (math_min (js_to_num v) (js_to_num mn')),
              JNum (math_max (js_to_num v) (js_to_num mx'))))"

definition axis_range :: "jsv list \<Rightarrow> jsv \<times> jsv" where
  "axis_range vs = fold range_step vs (JUndef, JUndef)"

section \<open>Points\<close>

definition point_of :: "string \<Rightarrow> string \<Rightarrow> jsv \<Rightarrow> (jsv \<times> jsv) res" where
  "point_of xkey ykey v =
     res_bind (get_prop v xkey) (\<lambda>x. res_bind (get_prop v ykey) (\<lambda>y. Inr (x, y)))"

text \<open>\<^verbatim>\<open>if (xs) xs.forEach(...)\<close>\<close>

definition points_of :: "string \<Rightarrow> string \<Rightarrow> jsv \<Rightarrow> (jsv \<times> jsv) list res" where
  "points_of xkey ykey vs =
     (if truthy vs then res_bind (elements vs) (res_map (point_of xkey ykey)) else Inr [])"

definition range_sides :: "jsv \<Rightarrow> ((jsv \<times> jsv) list \<times> (jsv \<times> jsv) list) res" where
  "range_sides r =
     res_bind (get_prop r ''bids'') (\<lambda>b. res_bind (points_of ''dateTime'' ''value'' b) (\<lambda>bids.
     res_bind (get_prop r ''asks'') (\<lambda>a. res_bind (points_of ''dateTime'' ''value'' a) (\<lambda>asks.
       Inr (bids, asks)))))"

record chart =
  ch_datasets :: "(jsv \<times> jsv) list list"
  ch_range :: "jsv \<times> jsv"
  ch_unit :: string

definition time_unit :: "jsv \<Rightarrow> string" where
  "time_unit interval = (if strict_eq interval (JNum (num_of_int 1)) then ''hour'' else ''day'')"

definition book_chart :: "jsv \<Rightarrow> jsv list \<Rightarrow> chart res" where
  "book_chart interval ranges =
     res_bind (res_map range_sides ranges) (\<lambda>sides.
       Inr \<lparr>ch_datasets = [concat (map fst sides), concat (map snd sides)],
            ch_range = axis_range (map snd (concat (map (\<lambda>(b, a). b @ a) sides))),
            ch_unit = time_unit interval\<rparr>)"

text \<open>\<^verbatim>\<open>LiquidityChart\<close> reads the ranges in any case.\<close>

definition LiquidityChart :: "jsv \<Rightarrow> jsv \<Rightarrow> chart res" where
  "LiquidityChart interval book =
     res_bind (get_prop book ''ranges'') (\<lambda>r. res_bind (elements r) (book_chart interval))"

text \<open>
  \<^verbatim>\<open>Price\<close> allows for no ranges. Afterwards it reads \<^verbatim>\<open>this.state.loadingCount\<close>; the component sets
  no state, so \<open>state\<close> is \<open>null\<close> unless something else sets it.
\<close>

definition Price_render :: "jsv \<Rightarrow> jsv \<Rightarrow> jsv \<Rightarrow> chart option res" where
  "Price_render state interval book =
     res_bind (get_prop book ''ranges'') (\<lambda>r.
     res_bind (if truthy r then res_bind (elements r) (book_chart interval) else book_chart interval [])
       (\<lambda>c. res_bind (get_prop state ''loadingCount'') (\<lambda>n. Inr (if truthy n then None else Some c))))"

text \<open>The state of \<^verbatim>\<open>App\<close> has no field \<^verbatim>\<open>preprocessedOrderBook\<close> nor \<^verbatim>\<open>interval\<close>.\<close>

definition App_price_page :: "chart option res" where
  "App_price_page = Price_render JNull JUndef JUndef"

definition Volume_Graph :: "jsv \<Rightarrow> jsv \<Rightarrow> chart res" where
  "Volume_Graph interval volumeIndicators =
     res_bind (get_prop volumeIndicators ''volumeGraphData'') (\<lambda>g.
     res_bind (if truthy g then get_prop g ''ranges'' else Inr JUndef) (\<lambda>r.
     res_bind (points_of ''startDateTime'' ''volume'' r) (\<lambda>ps.
       Inr \<lparr>ch_datasets = [ps], ch_range = axis_range (map snd ps), ch_unit = time_unit interval\<rparr>)))"

definition Volume_GraphNow :: "jsv \<Rightarrow> chart res" where
  "Volume_GraphNow volume =
     res_bind (points_of ''dateTime'' ''amount'' volume) (\<lambda>ps.
       Inr \<lparr>ch_datasets = [ps], ch_range = axis_range (map snd ps), ch_unit = ''hour''\<rparr>)"

definition PLGraph_GraphNow :: "jsv \<Rightarrow> chart res" where
  "PLGraph_GraphNow d =
     res_bind (points_of ''dateTime'' ''usdProfitChange'' d) (\<lambda>ps.
       Inr \<lparr>ch_datasets = [ps], ch_range = (JUndef, JUndef), ch_unit = ''hour''\<rparr>)"

section \<open>Properties\<close>

definition range_holds :: "jsnum list \<Rightarrow> jsv \<times> jsv \<Rightarrow> bool" where
  "range_holds vs r \<longleftrightarrow>
     (\<exists>lo hi. r = (JNum lo, JNum hi) \<and> lo \<in> set vs \<and> hi \<in> set vs
        \<and> (\<forall>v \<in> set vs. num_val lo \<le> num_val v \<and> num_val v \<le> num_val hi))"

lemma range_step_zero:
  "\<not> truthy mn \<Longrightarrow> \<not> truthy mx \<Longrightarrow> range_step (JNum num_zero) (mn, mx) = (JNum num_zero, JNum num_zero)"
  "truthy mn \<Longrightarrow> range_step (JNum num_zero) (mn, mx) = (mn, mx)"
  by (simp_all add: range_step_def num_eq_def)

lemma range_step_first:
  assumes "is_fin v" and "v \<noteq> num_zero" and "\<not> truthy mn" and "\<not> truthy mx"
  shows "range_step (JNum v) (mn, mx) = (JNum v, JNum v)"
  using assms math_min_fin(1) [of v v] math_max_fin(1) [of v v]
  by (simp add: range_step_def num_eq_def)

lemma range_step_wider:
  assumes "is_fin v" and "v \<noteq> num_zero" and "\<forall>w \<in> set ws. is_fin w \<and> w \<noteq> num_zero"
    and "range_holds ws (mn, mx)"
  shows "range_holds (ws @ [v]) (range_step (JNum v) (mn, mx))"
proof -
  from assms(4) obtain lo hi where r: "mn = JNum lo" "mx = JNum hi" "lo \<in> set ws" "hi \<in> set ws"
    "\<forall>w \<in> set ws. num_val lo \<le> num_val w \<and> num_val w \<le> num_val hi"
    by (auto simp: range_holds_def)
  with assms(3) have fin: "is_fin lo" "is_fin hi" "lo \<noteq> num_zero" by auto
  then have "truthy mn" using r(1) by (cases lo) (auto simp: num_truthy_def)
  then have "range_step (JNum v) (mn, mx) = (JNum (math_min v lo), JNum (math_max v hi))"
    using r assms(2) by (simp add: range_step_def num_eq_def)
  moreover have "math_min v lo \<in> set (ws @ [v])" "math_max v hi \<in> set (ws @ [v])"
    using math_min_fin(1) [OF assms(1) fin(1)] math_max_fin(1) [OF assms(1) fin(2)] r(3,4) by auto
  ultimately show ?thesis
    using math_min_fin(2) [OF assms(1) fin(1)] math_max_fin(2) [OF assms(1) fin(2)] r(5)
    by (force simp: range_holds_def)
qed

lemma axis_range_snoc: "axis_range (vs @ [v]) = range_step v (axis_range vs)"
  by (simp add: axis_range_def)

text \<open>
  The axis fits the values. For finite numbers the suggested range of a chart runs from the
  least to the greatest value other than zero, wherever zeros stand in the data; with nothing but
  zeros it is zero, and without points it is left to the library.
\<close>

theorem axis_range_fits:
  assumes "\<forall>v \<in> set vs. is_fin v"
  shows "(let nonzero = filter (\<lambda>v. v \<noteq> num_zero) vs; r = axis_range (map JNum vs)
    in if nonzero \<noteq> [] then range_holds nonzero r
       else if vs \<noteq> [] then r = (JNum num_zero, JNum num_zero) else r = (JUndef, JUndef))"
  using assms
proof (induction vs rule: rev_induct)
  case Nil
  then show ?case by (simp add: axis_range_def)
next
  case (snoc v vs)
  let ?nz = "filter (\<lambda>v. v \<noteq> num_zero) vs" and ?r = "axis_range (map JNum vs)"
  obtain mn mx where r: "?r = (mn, mx)" by (cases ?r)
  have fin: "is_fin v" "\<forall>w \<in> set ?nz. is_fin w \<and> w \<noteq> num_zero" using snoc.prems by auto
  have IH: "if ?nz \<noteq> [] then range_holds ?nz (mn, mx)
       else if vs \<noteq> [] then (mn, mx) = (JNum num_zero, JNum num_zero) else (mn, mx) = (JUndef, JUndef)"
    using snoc r by (simp add: Let_def)
  have low: "truthy mn" if "?nz \<noteq> []"
  proof -
    from IH that obtain lo where "mn = JNum lo" "lo \<in> set ?nz" by (auto simp: range_holds_def)
    with fin(2) show ?thesis by (cases lo) (auto simp: num_truthy_def)
  qed
  have falsy: "\<not> truthy mn \<and> \<not> truthy mx" if "?nz = []"
    using IH that by (cases "vs = []") (auto simp: num_truthy_def)
  show ?case
  proof (cases "v = num_zero")
    case True
    then show ?thesis
      using IH low falsy range_step_zero
      by (cases "?nz = []") (simp_all add: axis_range_snoc r Let_def)
  next
    case False
    show ?thesis
    proof (cases "?nz = []")
      case True
      with falsy False fin(1) show ?thesis
        by (simp add: axis_range_snoc r Let_def range_step_first range_holds_def)
    next
      case nz: False
      with IH have "range_holds (?nz @ [v]) (range_step (JNum v) (mn, mx))"
        by (intro range_step_wider [OF fin(1) False fin(2)]) simp
      with False nz show ?thesis by (simp add: axis_range_snoc r Let_def)
    qed
  qed
qed

theorem axis_range_fits_witness:
  "range_holds [num_of_int 5, num_of_int 2]
     (axis_range (map JNum [num_zero, num_of_int 5, num_zero, num_of_int 2]))"
proof -
  have "num_of_int 5 \<noteq> num_zero" "num_of_int 2 \<noteq> num_zero" by code_simp+
  with axis_range_fits [of "[num_zero, num_of_int 5, num_zero, num_of_int 2]"] show ?thesis
    by (simp add: Let_def)
qed

lemma bind_ends_in_error: "\<exists>e. res_bind m (\<lambda>x. res_bind (f x) (\<lambda>y. Inl e')) = Inl e"
  by (cases m; cases "f (projr m)") auto

text \<open>
  The price page never renders. \<^verbatim>\<open>App\<close> passes it an order book that no state holds, so the read of
  its ranges throws; and with any book at all the read of the missing state throws.
\<close>

theorem price_page_never_renders:
  "App_price_page = Inl TypeError \<and> (\<forall>interval book. \<exists>e. Price_render JNull interval book = Inl e)"
  by (simp add: App_price_page_def Price_render_def bind_ends_in_error)

end
