(* ===== verification/Page_Views.thy ===== *)
theory Page_Views
  imports Json Url_Utils
begin

text \<open>
  What the remaining pages show: the balances (\<^verbatim>\<open>components/Balances\<close>), the cards of the dashboard
  (\<^verbatim>\<open>components/Dashboard/Exchange.js\<close>), the explanations (\<^verbatim>\<open>containers/Explanation/body.js\<close>), the
  postponed fills, the trade signals, and the table of the signals page
  (\<^verbatim>\<open>components/Signals\<close>), with the addresses of the images. Times in the reader's zone are left to
  the library that formats them.
\<close>

section \<open>Images\<close>

definition getExchangeImagePath :: "string \<Rightarrow> string" where
  "getExchangeImagePath n = ''/images/CoinMarketCapIcons/exchanges/'' @ to_lower n @ ''.png''"

definition getCoinImagePath :: "string \<Rightarrow> string" where
  "getCoinImagePath n = ''/images/CoinMarketCapIcons/coins/'' @ to_lower n @ ''.png''"

text \<open>What is loaded when the image is, and when it cannot be.\<close>

definition image_sources :: "string \<Rightarrow> string list" where
  "image_sources path = [path, ''/images/CoinMarketCapIcons/exchanges/default.png'']"

definition getLogoImage :: "string \<Rightarrow> string list" where
  "getLogoImage clientDomain = [''/images/'' @ clientDomain @ ''/Logo.png'', ''/images/DefaultLogo.png'']"

section \<open>Balances\<close>

record exchange_balance =
  eb_exchangeId :: string
  eb_value :: jsv

record currency_balance =
  cb_total :: jsv
  cb_exchanges :: "exchange_balance list"

type_synonym balances = "(string \<times> currency_balance) list"

definition exchange_count :: "balances \<Rightarrow> string \<Rightarrow> int" where
  "exchange_count obj k = (case map_of obj k of Some c \<Rightarrow> int (length (cb_exchanges c)) | None \<Rightarrow> 0)"

definition sortByDescending :: "balances \<Rightarrow> balances" where
  "sortByDescending obj =
     map (\<lambda>k. (k, the (map_of obj k)))
       (js_sort (\<lambda>a b. 0 < exchange_count obj b - exchange_count obj a) (own_keys obj))"

record balance_row =
  br_exchangeId :: string
  br_percent :: jsnum
  br_critical :: bool
  br_amount :: jsnum

definition Balances_Exchange :: "jsnum \<Rightarrow> exchange_balance \<Rightarrow> balance_row" where
  "Balances_Exchange total_num ex =
     (let percent = (if num_truthy total_num
            then round_to (JNum (num_div (num_mult (js_to_num (eb_value ex)) (num_of_int 100)) total_num))
                   (JNum (num_of_int 3))
            else num_zero)
      in \<lparr>br_exchangeId = eb_exchangeId ex, br_percent = percent,
          br_critical = (num_truthy percent \<and> num_less percent (num_of_int 10)),
          br_amount = js_to_num (eb_value ex)\<rparr>)"

definition Currency :: "currency_balance \<Rightarrow> balance_row list" where
  "Currency c = map (Balances_Exchange (js_to_num (cb_total c))) (cb_exchanges c)"

definition Balances_List :: "balances \<Rightarrow> (string \<times> balance_row list) list" where
  "Balances_List obj =
     (let sortedData = sortByDescending obj
      in map (\<lambda>k. (k, Currency (the (map_of sortedData k)))) (own_keys sortedData))"

section \<open>The dashboard\<close>

record exchange_card =
  ec_title :: "string list"
  ec_spread_row :: "jsv list"
  ec_our_row :: "jsv list"

definition dash_or :: "jsv \<Rightarrow> jsv \<Rightarrow> jsv" where
  "dash_or shown v = (if truthy v then shown else JStr ''--'')"

definition card_round :: "jsv \<Rightarrow> int \<Rightarrow> jsv" where
  "card_round v n = JNum (round_to v (JNum (num_of_int n)))"

definition our_spread_text :: "jsv \<Rightarrow> jsv \<Rightarrow> jsv" where
  "our_spread_text lo hi =
     JStr (if \<not> strict_eq lo hi then js_to_string lo @ '' - '' @ js_to_string hi else js_to_string lo)"

definition Dashboard_Exchange :: "jsv \<Rightarrow> exchange_card res" where
  "Dashboard_Exchange ind =
     res_bind (get_prop ind ''spread'') (\<lambda>spread. res_bind (get_prop ind ''totalBid'') (\<lambda>totalBid.
     res_bind (get_prop ind ''totalAsk'') (\<lambda>totalAsk. res_bind (get_prop ind ''ourSpreadMin'') (\<lambda>mn.
     res_bind (get_prop ind ''ourSpreadMax'') (\<lambda>mx. res_bind (get_prop ind ''ourTotalBid'') (\<lambda>ourBid.
     res_bind (get_prop ind ''ourTotalAsk'') (\<lambda>ourAsk.
       Inr \<lparr>ec_title = [''%'', ''Bid'', ''Ask''],
            ec_spread_row = [card_round spread 1, totalAsk, totalBid],
            ec_our_row = [our_spread_text (dash_or (card_round mn 1) mn) (dash_or (card_round mx 1) mx),
              dash_or ourAsk ourAsk, dash_or ourBid ourBid]\<rparr>)))))))"

definition Dashboard_render :: "bool \<Rightarrow> bool \<Rightarrow> jsv \<Rightarrow> exchange_card list option res" where
  "Dashboard_render isConnected subscribed ind =
     res_bind (if truthy ind then res_bind (elements ind) (res_map Dashboard_Exchange) else Inr []) (\<lambda>cards.
       Inr (if isConnected \<and> subscribed \<and> truthy ind then Some cards else None))"

section \<open>Explanations\<close>

record explanation_body =
  xb_selectIndex :: nat
  xb_selectedIndexes :: "nat \<Rightarrow> bool"

definition Body_new :: explanation_body where
  "Body_new = \<lparr>xb_selectIndex = 0, xb_selectedIndexes = (\<lambda>_. False)\<rparr>"

definition onSelect :: "nat \<Rightarrow> explanation_body \<Rightarrow> explanation_body" where
  "onSelect i b = b\<lparr>xb_selectIndex := i\<rparr>"

definition onSelectExplanation :: "nat \<Rightarrow> explanation_body \<Rightarrow> explanation_body" where
  "onSelectExplanation i b =
     b\<lparr>xb_selectedIndexes := (xb_selectedIndexes b)(i :=
        (if xb_selectedIndexes b i then \<not> xb_selectedIndexes b i else True))\<rparr>"

record level_row =
  lv_high :: bool
  lv_mode :: jsv
  lv_price :: jsnum
  lv_amount :: jsnum
  lv_reasons :: "jsv list"

definition level_row_of :: "explanation_body \<Rightarrow> nat \<times> jsv \<Rightarrow> level_row res" where
  "level_row_of b = (\<lambda>(i, el).
     res_bind (get_prop el ''modeName'') (\<lambda>mode. res_bind (get_prop el ''price'') (\<lambda>p.
     res_bind (get_prop el ''amount'') (\<lambda>a. res_bind (get_prop el ''reasons'') (\<lambda>rs.
     res_bind (elements rs) (\<lambda>reasons.
       Inr \<lparr>lv_high = xb_selectedIndexes b i, lv_mode = mode, lv_price = js_to_num p,
            lv_amount = js_to_num a, lv_reasons = reasons\<rparr>))))))"

definition explanation_rows :: "explanation_body \<Rightarrow> jsv \<Rightarrow> level_row list res" where
  "explanation_rows b el =
     res_bind (get_prop el ''priceLevels'') (\<lambda>ls. res_bind (elements ls) (\<lambda>xs.
       res_map (level_row_of b) (zip [0..<length xs] xs)))"

text \<open>The list on the left marks the selected explanation; its levels are on the right.\<close>

definition Body_render :: "explanation_body \<Rightarrow> jsv \<Rightarrow> (bool list \<times> level_row list) res" where
  "Body_render b explanations =
     (if truthy explanations then
        res_bind (elements explanations) (\<lambda>xs. res_bind (res_map (explanation_rows b) xs) (\<lambda>rows.
          Inr (map (\<lambda>i. i = xb_selectIndex b) [0..<length xs],
               (if xb_selectIndex b < length rows then rows ! xb_selectIndex b else []))))
      else Inr ([], []))"

section \<open>Postponed fills\<close>

record fill_line =
  fl_number :: nat
  fl_id :: string
  fl_side :: string

text \<open>\<^verbatim>\<open>id.slice(-12)\<close> and the side, for every fill, numbered from one.\<close>

definition fill_side :: "jsv \<Rightarrow> string" where
  "fill_side v = (if strict_eq v (JNum (num_of_int 1)) then ''Buy'' else ''Sell'')"

definition renderTable :: "(string \<times> jsv) list \<Rightarrow> fill_line list" where
  "renderTable fills =
     map (\<lambda>(i, (k, side)). \<lparr>fl_number = i + 1, fl_id = drop (length k - 12) k, fl_side = fill_side side\<rparr>)
       (zip [0..<length fills] fills)"

definition renderJson :: "jsv \<Rightarrow> jsv option res" where
  "renderJson json =
     (if \<not> truthy json then Inr None
      else (case json_stringify json of
              None \<Rightarrow> Inl SyntaxError
            | Some s \<Rightarrow> res_bind (json_parse s) (\<lambda>v. Inr (Some v))))"

section \<open>Trade signals\<close>

definition formatDataRow :: "jsv \<Rightarrow> string res" where
  "formatDataRow dataRow =
     res_bind (elements dataRow) (\<lambda>xs.
     res_bind (res_map (\<lambda>x. if x = JUndef \<or> x = JNull then Inl TypeError
                            else Inr (take 7 (js_to_string x))) xs) (\<lambda>parts.
       Inr (''['' @ join_with '', '' parts @ '']'')))"

definition imbalance_name :: "jsv \<Rightarrow> string" where
  "imbalance_name v =
     (if strict_eq v (JNum num_zero) then ''NoTrade''
      else if strict_eq v (JNum (num_of_int 1)) then ''Buy''
      else if strict_eq v (JNum (num_of_int 2)) then ''Sell''
      else if strict_eq v (JNum (num_of_int 3)) then ''Both'' else [])"

datatype signal_cell = Predictions "(jsv \<times> string) list" | RawPayload jsv

definition prediction_of :: "jsv \<Rightarrow> string \<Rightarrow> (jsv \<times> string) res" where
  "prediction_of d key =
     res_bind (get_prop d key) (\<lambda>model. res_bind (get_prop model ''Result'') (\<lambda>r.
     res_bind (get_prop model ''PredictedRow'') (\<lambda>row.
     res_bind (formatDataRow row) (\<lambda>t. Inr (r, t)))))"

definition signal_row :: "jsv \<Rightarrow> (jsv \<times> signal_cell) res" where
  "signal_row x =
     res_bind (get_prop x ''imbalanceSignal'') (\<lambda>sig.
     res_bind (get_prop x ''payload'') (\<lambda>payload.
       case json_parse (js_to_string payload) of
         Inl _ \<Rightarrow> Inr (JStr (imbalance_name sig), RawPayload payload)
       | Inr d \<Rightarrow>
           res_bind (get_prop d ''ImbalanceSignal'') (\<lambda>name.
           res_bind (prediction_of d ''Long'') (\<lambda>long.
           res_bind (prediction_of d ''Short'') (\<lambda>short. Inr (name, Predictions [long, short]))))))"

section \<open>The signals page\<close>

definition BotParametrs_titles :: "string list" where
  "BotParametrs_titles =
     [''Profit'', ''Original Partial TS'', ''Original Partial TS'', ''Reduced Partial TS'',
      ''Final TS Threshold'', ''Final TS Rate'', ''SL Threshold Rate'', ''TP Threshold'',
      ''Proportion TS'', ''No Trade Zone Threshold'']"

definition Row_fields :: "string list" where
  "Row_fields =
     [''profit'', ''originalPartialTrailingStopRate'', ''reducedPartialTrailingStopRate'',
      ''finalTrailingStopThreshold'', ''finalTrailingStopLossRate'', ''stopLossRate'', ''takeProfitRate'',
      ''proportionOfTrailingStop'', ''noTradeZoneTreshold'', ''numberOfReentrency'']"

definition Row_cells :: "jsv \<Rightarrow> jsv \<Rightarrow> jsv list res" where
  "Row_cells profit parameters =
     res_bind (res_map (get_prop parameters) (tl Row_fields)) (\<lambda>vs. Inr (profit # vs))"

section \<open>Properties\<close>

lemma sortByDescending_keys:
  "map fst (sortByDescending obj) = sort_key (\<lambda>k. - exchange_count obj k) (own_keys obj)"
proof -
  have "(\<lambda>a b. 0 < exchange_count obj b - exchange_count obj a)
      = (\<lambda>a b. - exchange_count obj b < - exchange_count obj a)" by auto
  then have "js_sort (\<lambda>a b. 0 < exchange_count obj b - exchange_count obj a) (own_keys obj)
      = sort_key (\<lambda>k. - exchange_count obj k) (own_keys obj)"
    using js_sort_key [of "\<lambda>k. - exchange_count obj k" "own_keys obj"] by simp
  then show ?thesis by (simp add: sortByDescending_def o_def)
qed

lemma map_of_sortByDescending:
  assumes "k \<in> fst ` set obj"
  shows "map_of (sortByDescending obj) k = map_of obj k"
proof -
  from assms obtain c where c: "map_of obj k = Some c"
    by (metis map_of_eq_None_iff option.exhaust)
  have "map_of (map (\<lambda>k. (k, the (map_of obj k))) ks) k = Some c" if "k \<in> set ks" for ks
    using that by (induction ks) (auto simp: c)
  with c have "map_of (map (\<lambda>k. (k, the (map_of obj k))) ks) k = map_of obj k" if "k \<in> set ks" for ks
    using that by simp
  then show ?thesis using assms by (simp add: sortByDescending_def)
qed

text \<open>
  C33: the balances are listed by currency, the currency held on most exchanges first. Every currency
  of the message appears once with the rows of its own exchanges, currencies with equally many
  exchanges keep their order, and the rows of a currency are in the order of the message. (Names
  that read as array indices would be moved to the front by the object; currency codes do not.)
\<close>

theorem balances_listed_by_exchanges:
  assumes "distinct (map fst obj)" and "\<forall>k \<in> fst ` set obj. \<not> is_index_key k"
  shows "map fst (Balances_List obj) = sort_key (\<lambda>k. - exchange_count obj k) (map fst obj)
    \<and> (\<forall>k c. map_of obj k = Some c \<longrightarrow> map_of (Balances_List obj) k = Some (Currency c)
          \<and> map br_exchangeId (Currency c) = map eb_exchangeId (cb_exchanges c))"
proof -
  let ?s = "sortByDescending obj"
  have keys: "map fst ?s = sort_key (\<lambda>k. - exchange_count obj k) (map fst obj)"
    using own_keys_plain [OF assms(2)] by (simp add: sortByDescending_keys)
  then have set_keys: "fst ` set ?s = fst ` set obj"
    by (metis list.set_map set_sort)
  then have own: "own_keys ?s = map fst ?s" using assms(2) by (intro own_keys_plain) simp
  have "map_of (Balances_List obj) k = Some (Currency c)" if "map_of obj k = Some c" for k c
  proof -
    have k: "k \<in> fst ` set obj" using that by (metis domI dom_map_of_conv_image_fst)
    have "map_of (map (\<lambda>k. (k, Currency (the (map_of ?s k)))) ks) k = Some (Currency (the (map_of ?s k)))"
      if "k \<in> set ks" for ks
      using that by (induction ks) auto
    moreover have "k \<in> set (own_keys ?s)" using k set_keys by simp
    ultimately show ?thesis
      using that map_of_sortByDescending [OF k] by (simp add: Balances_List_def Let_def)
  qed
  moreover have "map fst (Balances_List obj) = own_keys ?s" by (simp add: Balances_List_def Let_def o_def)
  moreover have "map br_exchangeId (Currency c) = map eb_exchangeId (cb_exchanges c)" for c
    by (simp add: Currency_def Balances_Exchange_def Let_def)
  ultimately show ?thesis using own keys by simp
qed

definition demo_balances :: balances where
  "demo_balances =
     [(''BTC'', \<lparr>cb_total = JStr ''01'', cb_exchanges = [\<lparr>eb_exchangeId = ''A'', eb_value = JStr ''1''\<rparr>]\<rparr>),
      (''ETH'', \<lparr>cb_total = JStr ''012'', cb_exchanges =
         [\<lparr>eb_exchangeId = ''A'', eb_value = JStr ''1''\<rparr>, \<lparr>eb_exchangeId = ''B'', eb_value = JStr ''2''\<rparr>]\<rparr>)]"

theorem balances_listed_by_exchanges_witness:
  "map fst (Balances_List demo_balances) = [''ETH'', ''BTC'']"
proof -
  have "distinct (map fst demo_balances)" "\<forall>k \<in> fst ` set demo_balances. \<not> is_index_key k"
    "sort_key (\<lambda>k. - exchange_count demo_balances k) (map fst demo_balances) = [''ETH'', ''BTC'']"
    by code_simp+
  with balances_listed_by_exchanges [of demo_balances] show ?thesis by simp
qed

text \<open>A second click closes a level again.\<close>

lemma onSelectExplanation_twice: "onSelectExplanation i (onSelectExplanation i b) = b"
  by (cases b) (auto simp: onSelectExplanation_def fun_eq_iff)

text \<open>The dialog shows a fill as the server sent it.\<close>

lemma renderJson_round_trip:
  assumes "json_plain v" and "truthy v"
  shows "renderJson v = Inr (Some v)"
  using assms json_round_trip [OF assms(1) text_of_Some [OF assms(1)]]
  by (simp add: renderJson_def text_of_Some)

text \<open>The cards show the ask under the title of the bid and the bid under that of the ask.\<close>

lemma dashboard_columns_swapped:
  assumes "Dashboard_Exchange (JObj ps) = Inr crd" and "map_of ps ''totalBid'' = Some b"
    and "map_of ps ''totalAsk'' = Some a"
  shows "zip (ec_title crd) (ec_spread_row crd) ! 1 = (''Bid'', a)
    \<and> zip (ec_title crd) (ec_spread_row crd) ! 2 = (''Ask'', b)"
  using assms by (auto simp: Dashboard_Exchange_def)

text \<open>From the third column on the titles of the signals table are one column late.\<close>

lemma signal_columns_late:
  "length BotParametrs_titles = length Row_fields"
  "zip BotParametrs_titles Row_fields ! 3 = (''Reduced Partial TS'', ''finalTrailingStopThreshold'')"
  by (simp_all add: BotParametrs_titles_def Row_fields_def)

end
