(* ===== verification/Page_Shell.thy ===== *)
theory Page_Shell
  imports Navigation Header_Links Indicators_View Charts Page_Views Ws_Store
begin

text \<open>
  How the parts stand on a page and what a throw of one of them takes with it: the error boundaries
  of \<^verbatim>\<open>errorBoundaries\<close>, the bar of \<^verbatim>\<open>containers/Navbar/index.js\<close>, the frame that \<^verbatim>\<open>App.js\<close> puts around a
  page, and the bodies of the live pages, \<^verbatim>\<open>containers/VolumeNow\<close> and \<^verbatim>\<open>containers/LiquidityNow\<close>. A throw
  runs outwards like any other error until a boundary above the component that threw takes it;
  what \<^verbatim>\<open>render\<close> of the boundary's own parent computes is not below it.
\<close>

section \<open>Boundaries\<close>

record boundary =
  eb_hasError :: bool

definition boundary_new :: boundary where
  "boundary_new = \<lparr>eb_hasError = False\<rparr>"

definition getDerivedStateFromError :: "js_error \<Rightarrow> boundary \<Rightarrow> boundary" where
  "getDerivedStateFromError e b = b\<lparr>eb_hasError := True\<rparr>"

datatype 'v shown = Children 'v | Fallback string

definition ErrorBoundaryHoc_render :: "string \<Rightarrow> boundary \<Rightarrow> 'v res \<Rightarrow> 'v shown res" where
  "ErrorBoundaryHoc_render wrapped b children =
     (if eb_hasError b then Inr (Fallback wrapped) else res_bind children (\<lambda>v. Inr (Children v)))"

text \<open>An update of the boundary: a throw below it goes into its state and it renders again.\<close>

definition boundary_update :: "string \<Rightarrow> boundary \<Rightarrow> 'v res \<Rightarrow> boundary \<times> 'v shown" where
  "boundary_update wrapped b children =
     (case ErrorBoundaryHoc_render wrapped b children of
        Inr v \<Rightarrow> (b, v)
      | Inl e \<Rightarrow> (getDerivedStateFromError e b, Fallback wrapped))"

text \<open>The second rendering is the one the new state asks for.\<close>

lemma boundary_update_renders:
  "ErrorBoundaryHoc_render wrapped (fst (boundary_update wrapped b children)) children
     = Inr (snd (boundary_update wrapped b children))"
  by (cases children)
    (simp_all add: boundary_update_def ErrorBoundaryHoc_render_def getDerivedStateFromError_def)

definition BodyErrorBoundary :: "string \<Rightarrow> string" where
  "BodyErrorBoundary errorMessage =
     (if truthy_str errorMessage then errorMessage else ''Error happened while loading data'')"

definition GlobalErrorBoundary :: string where
  "GlobalErrorBoundary = ''Error loading page''"

definition HeaderErrorBoundary :: string where
  "HeaderErrorBoundary = ''error when loading header''"

definition NavigationErrorBoundary :: string where
  "NavigationErrorBoundary = ''error when loading navigation''"

section \<open>The bar\<close>

text \<open>The elements of the bar and, for a signed-in user, the entry with the name.\<close>

type_synonym nav_content = "nav_view \<times> jsv option"

definition Navigation_content :: "string \<Rightarrow> string \<Rightarrow> bool \<Rightarrow> session \<Rightarrow> navigation \<Rightarrow> jsv \<Rightarrow> nav_content res" where
  "Navigation_content x c isSlidePanel s nv userInfo =
     res_bind (Navigation_render x c s nv) (\<lambda>v.
       if nv_isAuthorized nv
       then res_bind (Userimagetext_render isSlidePanel userInfo) (\<lambda>u. Inr (v, Some u))
       else Inr (v, None))"

record navbar =
  nb_open :: bool
  nb_panel :: navigation
  nb_bar :: navigation
  nb_userInfo :: jsv
  nb_boundary :: boundary

record navbar_view =
  nw_open :: bool
  nw_panel :: nav_content
  nw_logo :: "string list"
  nw_bar :: "nav_content shown"

text \<open>The slide panel holds a second navigation, which stands outside the boundary.\<close>

definition Navbar_render :: "ex_state \<Rightarrow> string \<Rightarrow> session \<Rightarrow> navbar \<Rightarrow> (boundary \<times> navbar_view) res" where
  "Navbar_render ex clientDomain s nb =
     (let x = ex_exchangeName ex; c = ex_currencyCodePair ex
      in res_bind (Navigation_content x c True s (nb_panel nb) (nb_userInfo nb)) (\<lambda>panel.
           let (b, bar) = boundary_update NavigationErrorBoundary (nb_boundary nb)
                 (Navigation_content x c False s (nb_bar nb) (nb_userInfo nb))
           in Inr (b, \<lparr>nw_open = nb_open nb, nw_panel = panel, nw_logo = getLogoImage clientDomain,
                nw_bar = bar\<rparr>)))"

section \<open>The frame of a page\<close>

record shell =
  sh_global :: boundary
  sh_navbar :: navbar
  sh_header :: boundary

record 'v page_view =
  pv_navbar :: navbar_view
  pv_header :: "header_view shown option"
  pv_page :: 'v

text \<open>
  What \<^verbatim>\<open>App\<close> shows to a signed-in user: the bar, the header if the address has one, and the page,
  all inside the global boundary, which drops them with their states when one throws.
\<close>

definition App_frame ::
  "ex_state \<Rightarrow> string \<Rightarrow> session \<Rightarrow> header_spec option \<Rightarrow> 'v res \<Rightarrow> shell \<Rightarrow> (shell \<times> 'v page_view) res" where
  "App_frame ex clientDomain s hdr page sh =
     res_bind (Navbar_render ex clientDomain s (sh_navbar sh)) (\<lambda>(nb, bar).
     let hd_now = (case hdr of
           None \<Rightarrow> (sh_header sh, None)
         | Some h \<Rightarrow> map_prod id Some (boundary_update HeaderErrorBoundary (sh_header sh) (Inr (Header_render h ex))))
     in res_bind page (\<lambda>p.
          Inr (sh\<lparr>sh_navbar := (sh_navbar sh)\<lparr>nb_boundary := nb\<rparr>, sh_header := fst hd_now\<rparr>,
               \<lparr>pv_navbar = bar, pv_header = snd hd_now, pv_page = p\<rparr>)))"

definition App_shell ::
  "ex_state \<Rightarrow> string \<Rightarrow> session \<Rightarrow> header_spec option \<Rightarrow> 'v res \<Rightarrow> shell \<Rightarrow> shell \<times> 'v page_view shown" where
  "App_shell ex clientDomain s hdr page sh =
     (case boundary_update GlobalErrorBoundary (sh_global sh) (App_frame ex clientDomain s hdr page sh) of
        (g, Children (sh', v)) \<Rightarrow> (sh'\<lparr>sh_global := g\<rparr>, Children v)
      | (g, Fallback t) \<Rightarrow> (sh\<lparr>sh_global := g\<rparr>, Fallback t))"

section \<open>The live pages\<close>

text \<open>
  The boundary of a body exists while it is on the page. It is \<open>None\<close> while the spinner stands in
  its place, and new when it comes back.
\<close>

definition boundary_at :: "boundary option \<Rightarrow> boundary" where
  "boundary_at b = (case b of None \<Rightarrow> boundary_new | Some b' \<Rightarrow> b')"

datatype 'v body = Spinner | Body "'v shown"

definition guarded_body :: "'v res \<Rightarrow> boundary option \<Rightarrow> boundary option \<times> 'v body" where
  "guarded_body children b =
     map_prod Some Body (boundary_update (BodyErrorBoundary []) (boundary_at b) children)"

text \<open>
  \<^verbatim>\<open>containers/VolumeNow\<close>: the boundary stands inside the test for data. The table of trades is
  whatever it makes of the transactions.
\<close>

definition VolumeNow_Body ::
  "(jsv \<Rightarrow> 't res) \<Rightarrow> ws_state \<Rightarrow> boundary option \<Rightarrow> (boundary option \<times> (chart \<times> 't) body) res" where
  "VolumeNow_Body trades st b =
     (if truthy (ws_volumeNow st) then
        res_bind (get_prop (ws_volumeNow st) ''volumes'') (\<lambda>volumes.
        res_bind (get_prop (ws_volumeNow st) ''transactions'') (\<lambda>transactions.
          Inr (guarded_body (res_bind (Volume_GraphNow volumes) (\<lambda>g.
                 res_bind (trades transactions) (\<lambda>t. Inr (g, t)))) b)))
      else Inr (None, Spinner))"

definition VolumeNow_render ::
  "(jsv \<Rightarrow> 't res) \<Rightarrow> ws_state \<Rightarrow> boundary option \<Rightarrow> (boundary option \<times> (chart \<times> 't) body) res" where
  "VolumeNow_render trades st b =
     (if ws_isConnected st then VolumeNow_Body trades st b else Inr (None, Spinner))"

text \<open>
  \<^verbatim>\<open>containers/LiquidityNow\<close>: the boundary stands around the test for data, and the indicators stand
  outside it. The order book with its trades is whatever it makes of the message.
\<close>

definition OrderBookAndTrades :: "(jsv \<Rightarrow> symbol \<Rightarrow> 't res) \<Rightarrow> jsv \<Rightarrow> symbol option \<Rightarrow> 't option res" where
  "OrderBookAndTrades book orderState symb =
     (case symb of
        Some y \<Rightarrow> if truthy orderState then res_bind (book orderState y) (\<lambda>v. Inr (Some v)) else Inr None
      | None \<Rightarrow> Inr None)"

definition LiquidityNow_Body ::
  "(jsv \<Rightarrow> symbol \<Rightarrow> 't res) \<Rightarrow> ex_state \<Rightarrow> ws_state \<Rightarrow> boundary option \<Rightarrow> boundary option \<times> 't option body" where
  "LiquidityNow_Body book ex st b = guarded_body (OrderBookAndTrades book (ws_orderState st) (ex_symbol ex)) b"

definition LiquidityNow_render ::
  "bool \<Rightarrow> (jsv \<Rightarrow> symbol \<Rightarrow> 't res) \<Rightarrow> ex_state \<Rightarrow> ws_state \<Rightarrow> boundary option
    \<Rightarrow> (boundary option \<times> indicator list \<times> 't option body) res" where
  "LiquidityNow_render needIndicators book ex st b =
     (if ws_isConnected st then
        res_bind (if needIndicators
                  then LiquidityNow_Indicators (ws_orderState st) (ws_currencyIndicators st) (ex_symbol ex)
                  else Inr []) (\<lambda>is.
          case LiquidityNow_Body book ex st b of (b', v) \<Rightarrow> Inr (b', is, v))
      else Inr (None, [], Spinner))"

text \<open>The bodies of the histories, \<^verbatim>\<open>containers/Liquidity/body.js\<close> and \<^verbatim>\<open>containers/Volume/body.js\<close>.\<close>

definition Liquidity_Body :: "bool \<Rightarrow> liq_state \<Rightarrow> boundary option \<Rightarrow> boundary option \<times> chart body" where
  "Liquidity_Body isLoading st b =
     (if \<not> isLoading then guarded_body (LiquidityChart JUndef (liq_preprocessedOrderBook st)) b
      else (None, Spinner))"

definition Volume_Body :: "vol_state \<Rightarrow> boundary option \<Rightarrow> boundary option \<times> chart body" where
  "Volume_Body st b =
     (if truthy (vol_volumeIndicators st)
      then guarded_body (Volume_Graph (JStr (vol_interval st)) (vol_volumeIndicators st)) b
      else (None, Spinner))"

section \<open>What a throw takes with it\<close>

lemma boundary_update_healthy [simp]:
  "\<not> eb_hasError b \<Longrightarrow> boundary_update w b (Inr v) = (b, Children v)"
  "\<not> eb_hasError b \<Longrightarrow> boundary_update w b (Inl e) = (\<lparr>eb_hasError = True\<rparr>, Fallback w)"
  by (simp_all add: boundary_update_def ErrorBoundaryHoc_render_def getDerivedStateFromError_def)

lemma boundary_update_failed [simp]: "eb_hasError b \<Longrightarrow> boundary_update w b children = (b, Fallback w)"
  by (simp add: boundary_update_def ErrorBoundaryHoc_render_def)

lemma boundary_at_simps [simp]:
  "boundary_at (Some b) = b" "\<not> eb_hasError (boundary_at None)"
  by (simp_all add: boundary_at_def boundary_new_def)

lemma get_prop_truthy: "truthy v \<Longrightarrow> \<exists>x. get_prop v k = Inr x"
  by (cases v) auto

text \<open>A signed-in user with a readable role, before anything failed.\<close>

definition signed_in :: "session \<Rightarrow> shell \<Rightarrow> bool" where
  "signed_in s sh \<longleftrightarrow>
     is_string (ses_role s) \<and> (\<exists>u. get_prop (nb_userInfo (sh_navbar sh)) ''username'' = Inr u)
     \<and> \<not> eb_hasError (sh_global sh) \<and> \<not> eb_hasError (nb_boundary (sh_navbar sh))
     \<and> \<not> eb_hasError (sh_header sh)"

lemma Navigation_render_string:
  "is_string (ses_role s) \<Longrightarrow> \<exists>v. Navigation_render x c s nv = Inr v"
  by (cases "ses_role s")
    (auto simp: Navigation_render_def Navigation_elements_def role_equals_def Let_def split: prod.split)

lemma Navigation_content_string:
  assumes "is_string (ses_role s)" and "get_prop info ''username'' = Inr u"
  shows "\<exists>nc. Navigation_content x c slide s nv info = Inr nc"
  using Navigation_render_string [OF assms(1), of x c nv] assms(2)
  by (auto simp: Navigation_content_def Userimagetext_render_def)

lemma App_shell_shows:
  assumes "signed_in s sh"
  shows "\<exists>pv. App_shell ex d s hdr (Inr p) sh = (sh, Children pv) \<and> pv_page pv = p
    \<and> (\<exists>nc. Navigation_content (ex_exchangeName ex) (ex_currencyCodePair ex) False s
              (nb_bar (sh_navbar sh)) (nb_userInfo (sh_navbar sh)) = Inr nc
            \<and> nw_bar (pv_navbar pv) = Children nc)"
proof -
  obtain u where u: "get_prop (nb_userInfo (sh_navbar sh)) ''username'' = Inr u"
    and ok: "is_string (ses_role s)" "\<not> eb_hasError (sh_global sh)"
      "\<not> eb_hasError (nb_boundary (sh_navbar sh))" "\<not> eb_hasError (sh_header sh)"
    using assms by (auto simp: signed_in_def)
  note nav = Navigation_content_string [OF ok(1) u]
  obtain bar where bar: "Navigation_content (ex_exchangeName ex) (ex_currencyCodePair ex) False s
      (nb_bar (sh_navbar sh)) (nb_userInfo (sh_navbar sh)) = Inr bar" using nav by blast
  obtain panel where panel: "Navigation_content (ex_exchangeName ex) (ex_currencyCodePair ex) True s
      (nb_panel (sh_navbar sh)) (nb_userInfo (sh_navbar sh)) = Inr panel" using nav by blast
  show ?thesis
    using ok bar panel
    by (cases hdr) (simp_all add: App_shell_def App_frame_def Navbar_render_def Let_def)
qed



text \<open>A page that throws under no boundary of its own is replaced with everything around it.\<close>

lemma App_shell_throws:
  assumes "\<not> eb_hasError (sh_global sh)" and "page = Inl e"
  shows "snd (App_shell ex d s hdr page sh) = Fallback GlobalErrorBoundary"
proof -
  have "\<exists>e'. App_frame ex d s hdr page sh = Inl e'"
    using assms(2) by (cases "Navbar_render ex d s (sh_navbar sh)") (auto simp: App_frame_def Let_def split: prod.split)
  then show ?thesis using assms(1) by (auto simp: App_shell_def)
qed

text \<open>
  The indicators of the liquidity page are computed before their boundary is rendered, so a throw of
  theirs goes past it and takes the whole application.
\<close>

lemma indicators_take_the_page:
  assumes "ws_isConnected st" and "\<not> eb_hasError (sh_global sh)"
    and "LiquidityNow_Indicators (ws_orderState st) (ws_currencyIndicators st) (ex_symbol ex) = Inl e"
  shows "snd (App_shell ex d s hdr (LiquidityNow_render True book ex st b) sh) = Fallback ''Error loading page''"
  unfolding GlobalErrorBoundary_def [symmetric]
  by (rule App_shell_throws [OF assms(2)]) (use assms(1,3) in \<open>simp add: LiquidityNow_render_def\<close>)

text \<open>
  A failed body comes back on the volume page, whose boundary is gone while there is no data: leaving
  the channel brings the spinner, and the next data a new boundary. On the liquidity page the
  boundary stays while the connection does, and with it the failure, whatever pair is chosen next.
\<close>

lemma failed_body_recovery:
  "VolumeNow_render trades (apply_patch PUnsubVolume st) b = Inr (None, Spinner)"
  "eb_hasError b' \<Longrightarrow> LiquidityNow_Body book ex st (Some b')
     = (Some b', Body (Fallback ''Error happened while loading data''))"
  by (simp_all add: VolumeNow_render_def VolumeNow_Body_def LiquidityNow_Body_def guarded_body_def
      BodyErrorBoundary_def)

section \<open>Concrete pages\<close>

definition demo_shell :: shell where
  "demo_shell =
     (let nv = \<lparr>nv_isAuthorized = True, nv_role = JStr ''Admin''\<rparr>
      in \<lparr>sh_global = boundary_new,
          sh_navbar = \<lparr>nb_open = False, nb_panel = nv, nb_bar = nv,
            nb_userInfo = JObj [(''username'', JStr ''ann'')], nb_boundary = boundary_new\<rparr>,
          sh_header = boundary_new\<rparr>)"



end
