(* ===== verification/Controls.thy ===== *)
theory Controls
  imports Navigation Header_Links
begin

text \<open>
  The drop-down of \<^verbatim>\<open>controls/Dropdown/Dropdown.js\<close> and the components that fill it: the exchanges, pairs
  and strategies of the header, the user entry and \<^verbatim>\<open>components/Navbar/MoreLink.js\<close>. The control gives
  its items the handlers of the elements inside them, so that one click can run a handler twice; the
  theorems show what that does to the address and to the session.
\<close>

section \<open>Elements and clicks\<close>

text \<open>
  A handler changes the state and may throw. A click runs the handlers from the element that was hit
  outwards; React runs all of them and reports the first error afterwards.
\<close>

type_synonym 's handler = "'s \<Rightarrow> js_error option \<times> 's"

record 's element =
  el_displayName :: "string option"
  el_text :: string
  el_onClick :: "'s handler option"

fun run_handlers :: "'s handler list \<Rightarrow> 's handler" where
  "run_handlers [] s = (None, s)"
| "run_handlers (h # hs) s =
     (case h s of (e, s1) \<Rightarrow> case run_handlers hs s1 of (e', s2) \<Rightarrow>
        (case e of None \<Rightarrow> e' | Some x \<Rightarrow> Some x, s2))"

text \<open>\<^verbatim>\<open>props.children\<close>: nothing, one element, or an array of them.\<close>

datatype 's children = Absent | One "'s element" | Several "'s element list"

text \<open>What an item shows: elements with handlers of their own, or the text of a link.\<close>

datatype 's item_content = Inner "'s element list" | Bare string

record 's item =
  it_onClick :: "'s handler option"
  it_content :: "'s item_content"

section \<open>\<^verbatim>\<open>MyDropdown\<close>\<close>

definition call_onClick :: "'s element \<Rightarrow> 's handler" where
  "call_onClick ch s = (case el_onClick ch of None \<Rightarrow> (Some TypeError, s) | Some h \<Rightarrow> h s)"

fun MyDropdown_items :: "'s children \<Rightarrow> 's item list" where
  "MyDropdown_items Absent = [\<lparr>it_onClick = None, it_content = Inner []\<rparr>]"
| "MyDropdown_items (One ch) = [\<lparr>it_onClick = el_onClick ch, it_content = Inner [ch]\<rparr>]"
| "MyDropdown_items (Several chs) =
     (if length chs > 1 then
        map (\<lambda>ch. \<lparr>it_onClick = Some (call_onClick ch),
               it_content = (if el_displayName ch = Some ''NavLink'' then Bare (el_text ch) else Inner [ch])\<rparr>) chs
      else [\<lparr>it_onClick = None, it_content = Inner chs\<rparr>])"

definition CustomToggle_class :: "string option \<Rightarrow> string \<Rightarrow> string" where
  "CustomToggle_class iconClassName arrowStyle =
     ''fas fa-angle-down '' @ (case iconClassName of Some c \<Rightarrow> c | None \<Rightarrow> []) @ '' '' @ arrowStyle"

definition arrowStyle :: "bool \<Rightarrow> bool \<Rightarrow> string" where
  "arrowStyle user noArrow =
     ''icon-arrow '' @ (if user then ''user'' else []) @ '' '' @ (if noArrow then '' noArrow'' else [])"

record 's dropdown =
  dd_value :: jsv
  dd_arrow :: string
  dd_items :: "'s item list"

definition MyDropdown :: "jsv \<Rightarrow> bool \<Rightarrow> bool \<Rightarrow> string option \<Rightarrow> 's children \<Rightarrow> 's dropdown" where
  "MyDropdown v user noArrow iconClassName children =
     \<lparr>dd_value = v, dd_arrow = CustomToggle_class iconClassName (arrowStyle user noArrow),
      dd_items = MyDropdown_items children\<rparr>"

text \<open>A click on the \<open>j\<close>-th element inside an item, or on the item around them.\<close>

definition own_handler :: "'s element \<Rightarrow> 's handler list" where
  "own_handler ch = (case el_onClick ch of None \<Rightarrow> [] | Some h \<Rightarrow> [h])"

definition inner_handlers :: "nat option \<Rightarrow> 's item_content \<Rightarrow> 's handler list" where
  "inner_handlers j c =
     (case (j, c) of
        (Some i, Inner chs) \<Rightarrow> if i < length chs then own_handler (chs ! i) else []
      | _ \<Rightarrow> [])"

definition click_item :: "'s item \<Rightarrow> nat option \<Rightarrow> 's handler" where
  "click_item it j =
     run_handlers (inner_handlers j (it_content it) @ (case it_onClick it of None \<Rightarrow> [] | Some h \<Rightarrow> [h]))"

text \<open>
  A click on the text of the \<open>k\<close>-th of the elements a drop-down was given: they stand each in an item
  of its own, or all in one.
\<close>

definition click_entry :: "'s element list \<Rightarrow> nat \<Rightarrow> 's handler" where
  "click_entry chs k =
     (case MyDropdown_items (Several chs) of
        items \<Rightarrow> if length chs > 1 then click_item (items ! k) (Some 0) else click_item (hd items) (Some k))"

section \<open>The components that use it\<close>

text \<open>The calls on the history so far, and the address they lead to.\<close>

record browser =
  br_pathname :: string
  br_calls :: "nav list"

definition follow_link :: "string \<Rightarrow> browser handler" where
  "follow_link newLink b =
     (None, b\<lparr>br_pathname := newLink, br_calls := br_calls b @ [pushNewLinkToHistory (br_pathname b) newLink]\<rparr>)"

definition link_element :: "string option \<Rightarrow> string \<Rightarrow> string \<Rightarrow> browser element" where
  "link_element name t newLink = \<lparr>el_displayName = name, el_text = t, el_onClick = Some (follow_link newLink)\<rparr>"

definition Exchanges_elements :: "header_spec \<Rightarrow> ex_state \<Rightarrow> browser element list" where
  "Exchanges_elements h s =
     (case ex_exchanges s of
        None \<Rightarrow> []
      | Some exs \<Rightarrow>
          guarded (hs_needAll h) (link_element None ''All'' (hs_path h @ ''/all/'' @ urlCodePair (ex_currencyCodePair s)))
          @ map (\<lambda>e. link_element (Some ''Row'') (exch_name e)
                   (header_path h (ex_interval s) (exch_name e) (ex_currencyCodePair s))) exs)"

definition Symbols_elements :: "header_spec \<Rightarrow> ex_state \<Rightarrow> browser element list" where
  "Symbols_elements h s =
     (case ex_symbols s of
        None \<Rightarrow> []
      | Some ss \<Rightarrow>
          if ss = [] then []
          else
            guarded (hs_needAll h) (link_element None ''All'' (hs_path h @ ''/'' @ ex_exchangeName s @ ''/all''))
            @ map (\<lambda>y. link_element None (sym_currencyCodePair y)
                     (header_path h (ex_interval s) (ex_exchangeName s) (sym_currencyCodePair y))) ss)"

definition Strategies_elements :: "header_spec \<Rightarrow> ex_state \<Rightarrow> browser element list" where
  "Strategies_elements h s =
     (case ex_shortStrategyNames s of
        None \<Rightarrow> []
      | Some names \<Rightarrow>
          link_element None ''All strategies'' (hd (Strategies_links h s))
          # map2 (link_element None) names (tl (Strategies_links h s)))"

text \<open>The entry of the user: one element, without an arrow.\<close>

definition logout_click :: "session handler" where
  "logout_click s = (None, logout s)"

definition Userimagetext_dropdown :: "jsv \<Rightarrow> session dropdown" where
  "Userimagetext_dropdown username =
     MyDropdown username False True None
       (One \<lparr>el_displayName = None, el_text = ''Log Out'', el_onClick = Some logout_click\<rparr>)"

text \<open>
  \<^verbatim>\<open>MoreLink.js\<close>: the entries behind \<open>More\<close>, as a drop-down or, in the slide panel, as they are. The
  elements are those of \<^verbatim>\<open>getNavLink\<close>; whether their type has the name \<open>NavLink\<close> is up to the router.
\<close>

definition nav_element :: "string option \<Rightarrow> nav_link \<Rightarrow> (browser \<times> bool) element" where
  "nav_element name l =
     \<lparr>el_displayName = name, el_text = nl_text l,
      el_onClick = Some (\<lambda>(b, panel). (None, snd (follow_link (nl_to l) b), Navbar_onClickClose panel))\<rparr>"

definition MoreLink :: "bool \<Rightarrow> 's element option list \<Rightarrow> 's element list + 's dropdown" where
  "MoreLink isSlidePanel children =
     (let filteredChildren = List.map_filter id children
      in if \<not> isSlidePanel then Inr (MyDropdown (JStr ''More'') False False None (Several filteredChildren))
         else Inl filteredChildren)"

section \<open>What a click does\<close>

lemma run_handlers_two: "run_handlers [h, h] s =
    (case h s of (e, s1) \<Rightarrow> case h s1 of (e', s2) \<Rightarrow> (case e of None \<Rightarrow> e' | Some x \<Rightarrow> Some x, s2))"
  by (simp split: prod.split option.split)

lemma run_handlers_one [simp]: "run_handlers [h] = h"
  by (simp add: fun_eq_iff split: prod.split option.split)

text \<open>With several entries the handler of an entry runs twice, once for its element and once for its item.\<close>

lemma click_entry_run:
  assumes "k < length chs" and "el_onClick (chs ! k) = Some h" and "el_displayName (chs ! k) \<noteq> Some ''NavLink''"
  shows "click_entry chs k = run_handlers (if length chs > 1 then [h, h] else [h])"
proof -
  have "call_onClick (chs ! k) = h" using assms(2) by (simp add: call_onClick_def fun_eq_iff)
  then show ?thesis
    using assms by (auto simp: click_entry_def click_item_def inner_handlers_def own_handler_def)
qed

text \<open>
  A handler that may run again from the states of \<open>ok\<close>: what can be observed of the state after a second
  run is what could be observed after the first.
\<close>

locale repeatable =
  fixes act :: "'s handler" and ok :: "'s \<Rightarrow> bool" and obs :: "'s \<Rightarrow> 'o"
  assumes quiet: "ok s \<Longrightarrow> fst (act s) = None"
    and keeps: "ok s \<Longrightarrow> ok (snd (act s))"
    and again: "ok s \<Longrightarrow> obs (snd (act (snd (act s)))) = obs (snd (act s))"
begin

lemma runs_as_once:
  assumes "ok s"
  shows "fst (run_handlers (if b then [act, act] else [act]) s) = None"
    and "obs (snd (run_handlers (if b then [act, act] else [act]) s)) = obs (snd (act s))"
  using quiet [OF assms] quiet [OF keeps [OF assms]] again [OF assms]
  by (simp_all add: run_handlers_two split_beta del: run_handlers.simps)

lemma click_as_once:
  assumes "ok s" and "k < length chs" and "el_onClick (chs ! k) = Some act"
    and "el_displayName (chs ! k) \<noteq> Some ''NavLink''"
  shows "fst (click_entry chs k s) = None" and "obs (snd (click_entry chs k s)) = obs (snd (act s))"
  unfolding click_entry_run [OF assms(2-4)] by (rule runs_as_once [OF assms(1)])+

lemma click_single_as_once:
  assumes "ok s" and "el_onClick ch = Some act"
  shows "fst (click_item (hd (MyDropdown_items (One ch))) (Some 0) s) = None"
    and "obs (snd (click_item (hd (MyDropdown_items (One ch))) (Some 0) s)) = obs (snd (act s))"
proof -
  have "click_item (hd (MyDropdown_items (One ch))) (Some 0) = run_handlers [act, act]"
    using assms(2) by (simp add: click_item_def inner_handlers_def own_handler_def)
  then show "fst (click_item (hd (MyDropdown_items (One ch))) (Some 0) s) = None"
    and "obs (snd (click_item (hd (MyDropdown_items (One ch))) (Some 0) s)) = obs (snd (act s))"
    using runs_as_once [OF assms(1), of True] by (simp_all only: if_True)
qed

end

subsection \<open>The address\<close>

text \<open>The entries a click adds to the history; a replaced entry is the one that was there.\<close>

definition pushes :: "browser \<Rightarrow> string list" where
  "pushes b = List.map_filter (\<lambda>n. case n of Push p \<Rightarrow> Some p | Replace p \<Rightarrow> None) (br_calls b)"

lemma pushes_follow [simp]:
  "pushes (snd (follow_link p b)) = pushes b @ (if br_pathname b = p then [] else [p])"
  "br_pathname (snd (follow_link p b)) = p" "fst (follow_link p b) = None"
  by (simp_all add: pushes_def follow_link_def pushNewLinkToHistory_def List.map_filter_def)

interpretation follow: repeatable "follow_link p" "\<lambda>_. True" "\<lambda>b. (br_pathname b, pushes b)" for p
  by unfold_locales simp_all

lemma link_element_simps [simp]:
  "el_onClick (link_element name t l) = Some (follow_link l)" "el_displayName (link_element name t l) = name"
  by (simp_all add: link_element_def)

text \<open>The elements of the header carry the links of the header, in their order.\<close>

definition element_leads :: "browser element \<Rightarrow> string \<Rightarrow> bool" where
  "element_leads ch p \<longleftrightarrow> el_onClick ch = Some (follow_link p) \<and> el_displayName ch \<noteq> Some ''NavLink''"

lemma header_elements_lead:
  "list_all2 element_leads (Exchanges_elements h s) (Exchanges_links h s)"
  "list_all2 element_leads (Symbols_elements h s) (Symbols_links h s)"
  "list_all2 element_leads (Strategies_elements h s) (Strategies_links h s)"
proof -
  show "list_all2 element_leads (Exchanges_elements h s) (Exchanges_links h s)"
    and "list_all2 element_leads (Symbols_elements h s) (Symbols_links h s)"
    by (auto simp: Exchanges_elements_def Exchanges_links_def Symbols_elements_def Symbols_links_def
        element_leads_def guarded_def list_all2_map1 list_all2_map2 list_all2_same split: option.split)
  have "list_all2 element_leads (map2 (link_element None) ns (map f ns)) (map f ns)" for ns :: "string list" and f
    by (induction ns) (simp_all add: element_leads_def)
  then show "list_all2 element_leads (Strategies_elements h s) (Strategies_links h s)"
    by (simp add: Strategies_elements_def Strategies_links_def element_leads_def split: option.split)
qed

lemma click_link_entry:
  assumes "list_all2 element_leads chs ls" and "k < length ls"
  obtains b' where "click_entry chs k b = (None, b')" and "br_pathname b' = ls ! k"
    and "pushes b' = pushes b @ (if br_pathname b = ls ! k then [] else [ls ! k])"
proof -
  have "k < length chs" and "element_leads (chs ! k) (ls ! k)"
    using assms by (auto simp: list_all2_conv_all_nth)
  then have "fst (click_entry chs k b) = None"
    and "(br_pathname (snd (click_entry chs k b)), pushes (snd (click_entry chs k b)))
      = (br_pathname (snd (follow_link (ls ! k) b)), pushes (snd (follow_link (ls ! k) b)))"
    using follow.click_as_once [of k chs "ls ! k" b] unfolding element_leads_def by blast+
  then show thesis using that [of "snd (click_entry chs k b)"] by (simp add: prod_eq_iff)
qed


text \<open>
  C11: a click on an exchange selects it. Although the control runs the handler of an entry twice, the
  click leads to the address of the exchange with at most one new entry in the history, none when the
  address is there already; the update of the header at that address leaves it alone and selects the
  exchange with a consistent selection.
\<close>

theorem clicking_exchange_selects_it:
  assumes "documented_matcher m" and "header_of scr = Some h" and "store_ready s"
    and "ex_exchanges s = Some exs" and "k < length exs"
    and p: "p = header_path h (ex_interval s) (exch_name (exs ! k)) (ex_currencyCodePair s)"
  shows "\<exists>b' c. click_entry (Exchanges_elements h s) (k + (if hs_needAll h then 1 else 0)) b = (None, b')
    \<and> br_pathname b' = p \<and> pushes b' = pushes b @ (if br_pathname b = p then [] else [p])
    \<and> Header_update m h (br_pathname b') s = Some c \<and> co_error c = None \<and> co_nav c = None
    \<and> selection_ok (co_state c) \<and> ex_exchangeName (co_state c) = exch_name (exs ! k)"
proof -
  let ?k = "k + (if hs_needAll h then 1 else 0)"
  have "?k < length (Exchanges_links h s)" and "Exchanges_links h s ! ?k = p"
    using assms(4,5) p by (simp_all add: Exchanges_links_def guarded_def)
  then obtain b' where b': "click_entry (Exchanges_elements h s) ?k b = (None, b')" "br_pathname b' = p"
    "pushes b' = pushes b @ (if br_pathname b = p then [] else [p])"
    using click_link_entry [OF header_elements_lead(1), of ?k h s b] by metis
  obtain c where "Header_update m h p s = Some c" "co_error c = None" "co_nav c = None"
    "selection_ok (co_state c)" "ex_exchangeName (co_state c) = exch_name (exs ! k)"
    using choosing_exchange_selects_it [OF assms(1-5)] unfolding p by blast
  with b' show ?thesis by (intro exI [of _ b'] exI [of _ c]) simp
qed

theorem clicking_exchange_selects_it_witness:
  "\<exists>b' c. click_entry (Exchanges_elements (header ''/liquidity'' 3 False True) demo_store) 1
        \<lparr>br_pathname = ''/liquidity/now/Binance/BTC-USDT'', br_calls = []\<rparr> = (None, b')
    \<and> pushes b' = [''/liquidity/now/Bitmex/BTC-USDT'']
    \<and> Header_update demo_match (header ''/liquidity'' 3 False True) (br_pathname b') demo_store = Some c
    \<and> ex_exchangeName (co_state c) = ''Bitmex''"
proof -
  have st: "ex_exchanges demo_store = Some demo_exchanges"
    "header_path (header ''/liquidity'' 3 False True) (ex_interval demo_store)
       (exch_name (demo_exchanges ! 1)) (ex_currencyCodePair demo_store) = ''/liquidity/now/Bitmex/BTC-USDT''"
    "1 < length demo_exchanges" "exch_name (demo_exchanges ! 1) = ''Bitmex''"
    "hs_needAll (header ''/liquidity'' 3 False True) = False"
    by code_simp+
  let ?b = "\<lparr>br_pathname = ''/liquidity/now/Binance/BTC-USDT'', br_calls = []\<rparr>"
  obtain b' c where click: "click_entry (Exchanges_elements (header ''/liquidity'' 3 False True) demo_store) 1 ?b = (None, b')"
    and "pushes b' = pushes ?b @ (if br_pathname ?b = ''/liquidity/now/Bitmex/BTC-USDT'' then []
           else [''/liquidity/now/Bitmex/BTC-USDT''])"
    and c: "Header_update demo_match (header ''/liquidity'' 3 False True) (br_pathname b') demo_store = Some c"
      "ex_exchangeName (co_state c) = ''Bitmex''"
    using clicking_exchange_selects_it [OF demo_match_documented header_of.simps(2) demo_store_ready st(1,3) st(2) [symmetric], of ?b]
    unfolding st(4,5) if_False add_0_right by (elim exE conjE) (assumption | rule that)+
  then have "pushes b' = [''/liquidity/now/Bitmex/BTC-USDT'']" by (simp add: pushes_def List.map_filter_def)
  with click c show ?thesis by (intro exI [of _ b'] exI [of _ c] conjI)
qed

text \<open>Every entry of the other drop-downs of the header leads to its address in the same way.\<close>

lemma clicking_symbol_or_strategy:
  "k < length (Symbols_links h s) \<Longrightarrow>
    \<exists>b'. click_entry (Symbols_elements h s) k b = (None, b') \<and> br_pathname b' = Symbols_links h s ! k
      \<and> length (pushes b') \<le> length (pushes b) + 1"
  "k < length (Strategies_links h s) \<Longrightarrow>
    \<exists>b'. click_entry (Strategies_elements h s) k b = (None, b') \<and> br_pathname b' = Strategies_links h s ! k
      \<and> length (pushes b') \<le> length (pushes b) + 1"
  by (rule click_link_entry [OF header_elements_lead(2)], assumption, fastforce)
    (rule click_link_entry [OF header_elements_lead(3)], assumption, fastforce)

subsection \<open>Signing out\<close>

interpretation sign_out: repeatable logout_click "\<lambda>_. True" "\<lambda>s. s\<lparr>ses_notified := []\<rparr>"
  by unfold_locales (simp_all add: logout_click_def logout_def userUpdated_def removeItem_def fun_eq_iff Let_def)

text \<open>
  A click on the entry of the user signs out twice: the listeners are told twice, and apart from that
  the session is as after one call.
\<close>

lemma sign_out_click:
  assumes "click_item (hd (dd_items (Userimagetext_dropdown username))) (Some 0) s = (e, t)"
  shows "e = None \<and> t\<lparr>ses_notified := ses_notified (logout s)\<rparr> = logout s
    \<and> ses_notified t = ses_notified s @ ses_listners s @ ses_listners s"
proof -
  let ?ch = "\<lparr>el_displayName = None, el_text = ''Log Out'', el_onClick = Some logout_click\<rparr>"
  have "click_item (hd (dd_items (Userimagetext_dropdown username))) (Some 0)
      = click_item (hd (MyDropdown_items (One ?ch))) (Some 0)"
    by (simp add: Userimagetext_dropdown_def MyDropdown_def)
  then have once: "e = None" "t\<lparr>ses_notified := []\<rparr> = (logout s)\<lparr>ses_notified := []\<rparr>"
    using sign_out.click_single_as_once [of ?ch s] assms by (simp_all add: logout_click_def)
  moreover have "ses_notified t = ses_notified s @ ses_listners s @ ses_listners s"
    using assms
    by (auto simp: Userimagetext_dropdown_def MyDropdown_def click_item_def inner_handlers_def own_handler_def
        logout_click_def logout_def userUpdated_def Let_def)
  moreover have "t\<lparr>ses_notified := ses_notified (logout s)\<rparr> = logout s"
    using arg_cong [OF once(2), of "\<lambda>r. r\<lparr>ses_notified := ses_notified (logout s)\<rparr>"] by simp
  ultimately show ?thesis by simp
qed

subsection \<open>The menu behind \<open>More\<close>\<close>

text \<open>
  Every entry behind \<open>More\<close> gets an item when there are at least two; the text of a link stands bare in
  its item, so that its handler runs once, closes the panel and leads to the address.
\<close>

lemma MoreLink_entries:
  assumes "MoreLink False (map (Some \<circ> nav_element (Some ''NavLink'')) ls) = Inr d" and "length ls > 1" and "k < length ls"
  shows "length (dd_items d) = length ls"
    and "\<exists>b'. click_item (dd_items d ! k) j (b, panel) = (None, b', False) \<and> br_pathname b' = nl_to (ls ! k)
      \<and> pushes b' = pushes b @ (if br_pathname b = nl_to (ls ! k) then [] else [nl_to (ls ! k)])"
proof -
  have "List.map_filter id (map (Some \<circ> nav_element (Some ''NavLink'')) ls) = map (nav_element (Some ''NavLink'')) ls"
    by (simp add: List.map_filter_def o_def)
  then have items: "dd_items d = map (\<lambda>l. \<lparr>it_onClick = Some (call_onClick (nav_element (Some ''NavLink'') l)),
      it_content = Bare (nl_text l)\<rparr>) ls"
    using assms(1,2) by (auto simp: MoreLink_def MyDropdown_def nav_element_def o_def)
  then show "length (dd_items d) = length ls" by simp
  show "\<exists>b'. click_item (dd_items d ! k) j (b, panel) = (None, b', False) \<and> br_pathname b' = nl_to (ls ! k)
      \<and> pushes b' = pushes b @ (if br_pathname b = nl_to (ls ! k) then [] else [nl_to (ls ! k)])"
    using items assms(3) pushes_follow [of "nl_to (ls ! k)" b]
    by (auto simp: click_item_def inner_handlers_def call_onClick_def nav_element_def Navbar_onClickClose_def
        split: option.split)
qed

end
