(* ===== verification/Forms.thy ===== *)
theory Forms
  imports Json Routing Data_Stores
begin

text \<open>
  The forms: the validating input of \<^verbatim>\<open>containers/Validation/Input.js\<close>, \<^verbatim>\<open>controls/validation\<close>,
  \<^verbatim>\<open>Login.js\<close> and \<^verbatim>\<open>Register.js\<close> under \<^verbatim>\<open>components/Authentication\<close>, the editor of the
  configuration and the row of a user. \<^verbatim>\<open>validator.isEmail\<close> is the parameter \<open>isEmail\<close>.
\<close>

section \<open>\<^verbatim>\<open>controls/validation\<close>\<close>

text \<open>
  The answer of the server carries a string that is itself JSON. Whatever throws while it is
  read makes the string itself the message; the second read of it can throw as well.
\<close>

definition error_text_of :: "jsv \<Rightarrow> jsv res" where
  "error_text_of e = res_bind (get_prop e ''data'') (\<lambda>d. get_prop d ''error'')"

definition error_entry :: "jsv \<Rightarrow> (string \<times> jsv) list \<Rightarrow> (string \<times> jsv) list res" where
  "error_entry f errors =
     res_bind (get_prop f ''PropertyName'') (\<lambda>k.
     res_bind (get_prop f ''ErrorMessage'') (\<lambda>v.
       Inr (AList.update (js_to_string k) v errors)))"

definition parse_error_data :: "jsv \<Rightarrow> (jsv \<times> (string \<times> jsv) list) res" where
  "parse_error_data t =
     res_bind (json_parse (js_to_string t)) (\<lambda>errorData.
     res_bind (get_prop errorData ''errorFields'') (\<lambda>fs.
     res_bind (if truthy fs then res_bind (elements fs) (\<lambda>es. res_fold error_entry es []) else Inr [])
       (\<lambda>errors. res_bind (get_prop errorData ''message'') (\<lambda>msg. Inr (msg, errors)))))"

definition parseError :: "jsv \<Rightarrow> (jsv \<times> (string \<times> jsv) list option) res" where
  "parseError e =
     (case res_bind (error_text_of e) parse_error_data of
        Inr (msg, errors) \<Rightarrow> Inr (msg, Some errors)
      | Inl _ \<Rightarrow> res_bind (error_text_of e) (\<lambda>t. Inr (t, None)))"

definition hasError :: "(string \<times> jsv) list \<Rightarrow> bool" where
  "hasError errorFields = list_ex (\<lambda>(k, v). \<not> strict_eq v (JStr '''')) errorFields"

section \<open>The input\<close>

text \<open>
  The props of an input: the field of the form it edits, and \<^verbatim>\<open>validationOption\<close>, where \<open>equal\<close>
  names the field whose value is the one to compare with.
\<close>

record input =
  in_name :: string
  in_option :: string
  in_required :: bool
  in_email :: bool
  in_minLength :: "(nat \<times> string) option"
  in_equal :: "(string \<times> string) option"

record form =
  fm_values :: "string \<Rightarrow> string"
  fm_submitting :: bool
  fm_error :: jsv
  fm_errorFields :: "(string \<times> jsv) list"
  fm_messages :: "string \<Rightarrow> string"

definition validate_message :: "(string \<Rightarrow> bool) \<Rightarrow> (string \<Rightarrow> string) \<Rightarrow> input \<Rightarrow> string \<Rightarrow> string" where
  "validate_message isEmail values i v =
     (let m1 = (if in_required i \<and> length v = 0 then '' cannot be empty.'' else []);
          m2 = (if in_email i \<and> \<not> isEmail v then v @ '' is not a valid email address'' else m1);
          m3 = (case in_minLength i of
                  Some (n, msg) \<Rightarrow> if length v < n then msg else m2
                | None \<Rightarrow> m2)
      in case in_equal i of
           Some (field, msg) \<Rightarrow> if v \<noteq> values field then msg else m3
         | None \<Rightarrow> m3)"

definition validate :: "(string \<Rightarrow> bool) \<Rightarrow> input \<Rightarrow> string \<Rightarrow> form \<Rightarrow> form" where
  "validate isEmail i v f =
     (let errorMessage = validate_message isEmail (fm_values f) i v
      in f\<lparr>fm_errorFields := AList.update (in_option i) (JStr errorMessage) (fm_errorFields f),
           fm_messages := (fm_messages f)(in_name i := errorMessage)\<rparr>)"

definition handleChangeText :: "string \<Rightarrow> string \<Rightarrow> form \<Rightarrow> form" where
  "handleChangeText ident v f = f\<lparr>fm_values := (fm_values f)(ident := v)\<rparr>"

definition Input_onChange :: "(string \<Rightarrow> bool) \<Rightarrow> input \<Rightarrow> string \<Rightarrow> form \<Rightarrow> form" where
  "Input_onChange isEmail i v f = handleChangeText (in_name i) v (validate isEmail i v f)"

text \<open>The class of the field and the label under it.\<close>

definition Input_render :: "input \<Rightarrow> form \<Rightarrow> string \<times> string option" where
  "Input_render i f =
     (if truthy_str (fm_messages f (in_name i))
      then (''text-field text-field-error'', Some (fm_messages f (in_name i)))
      else (''text-field'', None))"

section \<open>Login and registration\<close>

definition form_initial :: form where
  "form_initial =
     \<lparr>fm_values = (\<lambda>_. []), fm_submitting = False, fm_error = JStr '''', fm_errorFields = [],
      fm_messages = (\<lambda>_. [])\<rparr>"

definition Login_inputs :: "input list" where
  "Login_inputs =
     [\<lparr>in_name = ''username'', in_option = ''UserName'', in_required = True, in_email = False,
       in_minLength = None, in_equal = None\<rparr>,
      \<lparr>in_name = ''password'', in_option = ''Password'', in_required = True, in_email = False,
       in_minLength = None, in_equal = None\<rparr>]"

definition Register_inputs :: "input list" where
  "Register_inputs =
     [\<lparr>in_name = ''username'', in_option = ''UserName'', in_required = True, in_email = False,
       in_minLength = None, in_equal = None\<rparr>,
      \<lparr>in_name = ''email'', in_option = ''Email'', in_required = True, in_email = True,
       in_minLength = None, in_equal = None\<rparr>,
      \<lparr>in_name = ''password'', in_option = ''Password'', in_required = True, in_email = False,
       in_minLength = Some (6, ''The Password must be at least 6 characters long.''), in_equal = None\<rparr>,
      \<lparr>in_name = ''confirmpassword'', in_option = ''ConfirmPassword'', in_required = True,
       in_email = False, in_minLength = None,
       in_equal = Some (''password'', ''The password and confirmation password do not match.'')\<rparr>]"

text \<open>\<^verbatim>\<open>validateForm\<close>: the form that is sent, or nothing when a field has an error.\<close>

definition validateForm :: "form \<Rightarrow> form option" where
  "validateForm f =
     (if hasError (fm_errorFields f) then None
      else Some (f\<lparr>fm_submitting := True, fm_error := JStr '''', fm_errorFields := []\<rparr>))"

definition show_errors :: "jsv \<times> (string \<times> jsv) list option \<Rightarrow> form \<Rightarrow> form" where
  "show_errors = (\<lambda>(msg, errors) f.
     f\<lparr>fm_error := msg,
       fm_errorFields := (case errors of Some es \<Rightarrow> es | None \<Rightarrow> fm_errorFields f)\<rparr>)"

text \<open>
  The answer to the login: an error of the server is shown, anything else goes on to ask for
  the client type. Whatever throws ends in the handler that clears \<^verbatim>\<open>submitting\<close>.
\<close>

datatype login_next = LoginDone | AskClientType jsv

definition Login_answer :: "jsv res \<Rightarrow> form \<Rightarrow> login_next \<times> form" where
  "Login_answer reply f =
     (let f1 = f\<lparr>fm_submitting := False\<rparr>
      in case reply of
           Inl _ \<Rightarrow> (LoginDone, f1)
         | Inr r \<Rightarrow>
             (case get_prop r ''data'' of
                Inl _ \<Rightarrow> (LoginDone, f1)
              | Inr d \<Rightarrow>
                  (case (if truthy d then get_prop d ''error'' else Inr d) of
                     Inl _ \<Rightarrow> (LoginDone, f1)
                   | Inr err \<Rightarrow>
                       if truthy d \<and> truthy err
                       then (case parseError r of
                               Inl _ \<Rightarrow> (LoginDone, f1)
                             | Inr errors \<Rightarrow> (LoginDone, show_errors errors f1))
                       else (AskClientType d, f1))))"

definition auth_data_of :: "jsv \<Rightarrow> auth_data res" where
  "auth_data_of d =
     res_bind (get_prop d ''token'') (\<lambda>t.
     res_bind (get_prop d ''expiration'') (\<lambda>x.
     res_bind (get_prop d ''role'') (\<lambda>r.
     res_bind (get_prop d ''refreshToken'') (\<lambda>rt.
       Inr \<lparr>ad_token = t, ad_expiration = x, ad_role = r, ad_refreshToken = rt\<rparr>))))"

definition Login_client_type :: "(jsv \<Rightarrow> jsv res) \<Rightarrow> jsv \<Rightarrow> jsv res \<Rightarrow> session \<Rightarrow> session" where
  "Login_client_type decode d reply s =
     (case res_bind reply (\<lambda>ct. get_prop ct ''content'') of
        Inl _ \<Rightarrow> s
      | Inr content \<Rightarrow>
          (case auth_data_of d of
             Inl _ \<Rightarrow> s
           | Inr ad \<Rightarrow> snd (setToken decode ad content s)))"

definition Register_answer :: "jsv res \<Rightarrow> form \<Rightarrow> string option \<times> form" where
  "Register_answer reply f =
     (let f1 = f\<lparr>fm_submitting := False\<rparr>
      in case reply of
           Inl _ \<Rightarrow> (None, f1)
         | Inr r \<Rightarrow>
             (case get_prop r ''response'' of
                Inl _ \<Rightarrow> (None, f1)
              | Inr resp \<Rightarrow>
                  (case (if truthy resp
                         then res_bind (get_prop resp ''data'') (\<lambda>d. get_prop d ''error'')
                         else Inr resp) of
                     Inl _ \<Rightarrow> (None, f1)
                   | Inr err \<Rightarrow>
                       if truthy resp \<and> truthy err
                       then (case parseError r of
                               Inl _ \<Rightarrow> (None, f1)
                             | Inr errors \<Rightarrow> (None, show_errors errors f1))
                       else (Some ''/login'', f1))))"

text \<open>The pages of a visitor who is not signed in.\<close>

datatype auth_page = LoginPage | RegisterPage | AuthRedirect string

definition AuthenticationContainer_content :: "matcher \<Rightarrow> string \<Rightarrow> auth_page" where
  "AuthenticationContainer_content m p =
     (if m ''/login'' 0 p \<noteq> None then LoginPage
      else if m ''/signup'' 0 p \<noteq> None then RegisterPage
      else AuthRedirect ''/login'')"

section \<open>The editor of the configuration\<close>

record editor =
  ed_text :: jsv
  ed_isError :: bool
  ed_currentLineNumber :: nat
  ed_currentColumnIndex :: nat
  ed_typingTimer :: "nat option"
  ed_timers :: "nat list"
  ed_next :: nat
  ed_validated :: "jsv list"

definition Editor_new :: editor where
  "Editor_new =
     \<lparr>ed_text = JStr '''', ed_isError = False, ed_currentLineNumber = 0, ed_currentColumnIndex = 0,
      ed_typingTimer = None, ed_timers = [], ed_next = 0, ed_validated = []\<rparr>"

definition Editor_didMount :: "jsv \<Rightarrow> editor \<Rightarrow> editor" where
  "Editor_didMount v e = e\<lparr>ed_text := v\<rparr>"

definition runValidateTimer :: "editor \<Rightarrow> editor" where
  "runValidateTimer e =
     (let armed = (case ed_typingTimer e of
                     None \<Rightarrow> ed_timers e
                   | Some i \<Rightarrow> filter (\<lambda>j. j \<noteq> i) (ed_timers e))
      in e\<lparr>ed_typingTimer := Some (ed_next e), ed_timers := armed @ [ed_next e],
           ed_next := Suc (ed_next e)\<rparr>)"

definition onChangeText :: "string \<Rightarrow> editor \<Rightarrow> editor" where
  "onChangeText v e = runValidateTimer (e\<lparr>ed_isError := False, ed_text := JStr v\<rparr>)"

definition Editor_validateConfig :: "editor \<Rightarrow> editor" where
  "Editor_validateConfig e = e\<lparr>ed_validated := ed_validated e @ [ed_text e]\<rparr>"

definition Editor_timer_fires :: "nat \<Rightarrow> editor \<Rightarrow> editor" where
  "Editor_timer_fires i e =
     (if i \<in> set (ed_timers e)
      then Editor_validateConfig (e\<lparr>ed_timers := filter (\<lambda>j. j \<noteq> i) (ed_timers e)\<rparr>)
      else e)"

definition handleCursor :: "string \<Rightarrow> nat \<Rightarrow> editor \<Rightarrow> editor" where
  "handleCursor value_text selectionStart e =
     (let textLines = split_on CHR 0x0A (take selectionStart value_text)
      in e\<lparr>ed_currentLineNumber := length textLines,
           ed_currentColumnIndex := length (last textLines)\<rparr>)"

definition Editor_save_disabled :: "bool \<Rightarrow> editor \<Rightarrow> bool" where
  "Editor_save_disabled isValid e \<longleftrightarrow> ed_isError e \<or> \<not> isValid"

section \<open>The row of a user\<close>

definition Item_saveUser :: "bool \<Rightarrow> bool" where
  "Item_saveUser submitting = True"

definition Item_saveUser_answer :: "unit res \<Rightarrow> bool \<Rightarrow> bool" where
  "Item_saveUser_answer reply submitting =
     (case reply of Inr _ \<Rightarrow> False | Inl _ \<Rightarrow> submitting)"

definition Item_role :: "user \<Rightarrow> string list \<Rightarrow> string option" where
  "Item_role u roles =
     (case List.find (\<lambda>r. to_upper r = user_role u) roles of
        Some r \<Rightarrow> if truthy_str r then Some r else at roles 0
      | None \<Rightarrow> at roles 0)"

definition Users_List_shows :: "users_state \<Rightarrow> user list option" where
  "Users_List_shows s =
     (if usr_loading s then None else Some (usr_users s))"

section \<open>Properties of the forms\<close>

definition type_all :: "(string \<Rightarrow> bool) \<Rightarrow> (input \<times> string) list \<Rightarrow> form \<Rightarrow> form" where
  "type_all isEmail es f = fold (\<lambda>(i, v). Input_onChange isEmail i v) es f"

lemma type_all_Nil [simp]: "type_all isEmail [] f = f"
  by (simp add: type_all_def)

lemma type_all_snoc [simp]:
  "type_all isEmail (es @ [(i, v)]) f = Input_onChange isEmail i v (type_all isEmail es f)"
  by (simp add: type_all_def)

lemma Input_onChange_sel [simp]:
  "fm_values (Input_onChange isEmail i v f) = (fm_values f)(in_name i := v)"
  "fm_errorFields (Input_onChange isEmail i v f)
     = AList.update (in_option i) (JStr (validate_message isEmail (fm_values f) i v)) (fm_errorFields f)"
  by (simp_all add: Input_onChange_def handleChangeText_def validate_def Let_def)

lemma validate_message_alone:
  "in_equal i = None \<Longrightarrow> validate_message isEmail vs i v = validate_message isEmail (\<lambda>_. []) i v"
  by (simp add: validate_message_def Let_def)

lemma hasError_iff:
  assumes "distinct (map fst es)"
  shows "hasError es \<longleftrightarrow> (\<exists>k v. map_of es k = Some v \<and> v \<noteq> JStr [])"
  using assms by (auto simp: hasError_def list_ex_iff map_of_eq_Some_iff)

lemma type_all_distinct:
  "distinct (map fst (fm_errorFields f)) \<Longrightarrow> distinct (map fst (fm_errorFields (type_all isEmail es f)))"
proof (induction es rule: rev_induct)
  case (snoc e es)
  then show ?case by (cases e) (simp add: distinct_update)
qed simp

text \<open>The inputs of one form: their fields and their names in the error list differ.\<close>

definition inputs_ok :: "input list \<Rightarrow> bool" where
  "inputs_ok ins \<longleftrightarrow> distinct (map in_name ins) \<and> distinct (map in_option ins)"

lemma inputs_okD:
  assumes "inputs_ok ins" and "i \<in> set ins" and "j \<in> set ins"
  shows "in_name i = in_name j \<longleftrightarrow> i = j" and "in_option i = in_option j \<longleftrightarrow> i = j"
  using assms by (auto simp: inputs_ok_def distinct_map inj_on_def)

lemma type_all_fields:
  assumes "inputs_ok ins" and "fst ` set es \<subseteq> set ins" and "i \<in> set ins" and "in_equal i = None"
  shows "map_of (fm_errorFields (type_all isEmail es form_initial)) (in_option i)
    = (if i \<in> fst ` set es
       then Some (JStr (validate_message isEmail (\<lambda>_. []) i
              (fm_values (type_all isEmail es form_initial) (in_name i))))
       else None)"
  using assms(2)
proof (induction es rule: rev_induct)
  case Nil
  then show ?case by (simp add: form_initial_def)
next
  case (snoc e es)
  obtain j v where e: "e = (j, v)" by (cases e)
  with snoc.prems have j: "j \<in> set ins" by auto
  show ?case
  proof (cases "i = j")
    case True
    then show ?thesis
      using validate_message_alone [OF assms(4), of isEmail "fm_values (type_all isEmail es form_initial)" v]
      by (simp add: e update_conv')
  next
    case False
    then have "in_name i \<noteq> in_name j" "in_option i \<noteq> in_option j"
      using inputs_okD [OF assms(1,3) j] by auto
    with False snoc show ?thesis by (simp add: e update_conv')
  qed
qed



lemma register_password_messages:
  "6 \<le> length v \<Longrightarrow> validate_message isEmail vs (Register_inputs ! 2) v = []"
  "v = vs ''password'' \<Longrightarrow> v \<noteq> [] \<Longrightarrow> validate_message isEmail vs (Register_inputs ! 3) v = []"
  by (auto simp: validate_message_def Register_inputs_def)

lemma register_password_names:
  "in_name (Register_inputs ! 2) = ''password''" "in_option (Register_inputs ! 2) = ''Password''"
  "in_name (Register_inputs ! 3) = ''confirmpassword''"
  "in_option (Register_inputs ! 3) = ''ConfirmPassword''"
  by (simp_all add: Register_inputs_def)

text \<open>
  Two different passwords can be registered. The confirmation is compared when it is typed,
  with the password of that moment; changing the password afterwards does not check it again, and
  the form is sent with the two fields different.
\<close>

theorem passwords_may_differ:
  assumes "6 \<le> length a" and "6 \<le> length b" and "a \<noteq> b"
  shows "\<exists>g. validateForm (type_all isEmail
        [(Register_inputs ! 2, a), (Register_inputs ! 3, a), (Register_inputs ! 2, b)] form_initial) = Some g
    \<and> fm_values g ''password'' \<noteq> fm_values g ''confirmpassword''"
proof -
  let ?es = "[(Register_inputs ! 2, a), (Register_inputs ! 3, a), (Register_inputs ! 2, b)]"
  have "a \<noteq> []" using assms(1) by auto
  then have "fm_errorFields (type_all isEmail ?es form_initial)
      = [(''Password'', JStr []), (''ConfirmPassword'', JStr [])]"
    using assms(1,2)
    by (simp add: type_all_def register_password_messages register_password_names form_initial_def)
  then have "\<not> hasError (fm_errorFields (type_all isEmail ?es form_initial))" by (simp add: hasError_def)
  moreover have "fm_values (type_all isEmail ?es form_initial) ''password'' = b"
    "fm_values (type_all isEmail ?es form_initial) ''confirmpassword'' = a"
    by (simp_all add: type_all_def register_password_names)
  ultimately show ?thesis using assms(3) by (simp add: validateForm_def)
qed

section \<open>Errors of the server\<close>

definition server_error :: "string \<Rightarrow> (string \<times> string) list \<Rightarrow> jsv" where
  "server_error msg fs =
     JObj [(''message'', JStr msg),
       (''errorFields'', JArr (map (\<lambda>(k, m).
          JObj [(''PropertyName'', JStr k), (''ErrorMessage'', JStr m)]) fs))]"

definition error_reply :: "jsv \<Rightarrow> jsv" where
  "error_reply t = JObj [(''data'', JObj [(''error'', t)])]"

lemma error_entries:
  "distinct (map fst fs) \<Longrightarrow> fst ` set fs \<inter> fst ` set es = {} \<Longrightarrow>
     res_fold error_entry
       (map (\<lambda>(k, m). JObj [(''PropertyName'', JStr k), (''ErrorMessage'', JStr m)]) fs) es
     = Inr (es @ map (\<lambda>(k, m). (k, JStr m)) fs)"
proof (induction fs arbitrary: es)
  case (Cons f fs)
  obtain k m where f: "f = (k, m)" by (cases f)
  with Cons.prems have "AList.update k (JStr m) es = es @ [(k, JStr m)]"
    by (intro AList_update_new) auto
  moreover have "fst ` set fs \<inter> fst ` set (es @ [(k, JStr m)]) = {}"
    using Cons.prems f by auto
  ultimately show ?case
    using Cons.IH [of "es @ [(k, JStr m)]"] Cons.prems f by (simp add: error_entry_def)
qed simp



text \<open>
  C27: signing in always ends. Whatever the server answers, or if it does not, the form is no longer
  submitting; an error answer leaves the session alone and shows the message, and only an answer
  without an error goes on to the client type, with which the token is stored. A reply without
  the fields throws inside the handler and changes nothing.
\<close>

theorem login_always_ends:
  "\<not> fm_submitting (snd (Login_answer reply f))
   \<and> (fst (Login_answer (Inr (error_reply t)) f) = (if truthy t then LoginDone else AskClientType (JObj [(''error'', t)])))
   \<and> (truthy t \<longrightarrow> (\<exists>msg errors. parseError (error_reply t) = Inr (msg, errors)
        \<and> fm_error (snd (Login_answer (Inr (error_reply t)) f)) = msg))
   \<and> (auth_data_of d = Inr ad \<and> decode (ad_token ad) = Inr info \<longrightarrow>
        (let s' = Login_client_type decode d (Inr (JObj [(''content'', ct)])) s
         in ses_isAuthorized s' \<and> ses_token s' = ad_token ad \<and> ses_clientType s' = ct))
   \<and> (auth_data_of d = Inl e \<longrightarrow> Login_client_type decode d (Inr (JObj [(''content'', ct)])) s = s)"
proof -
  have err: "\<exists>msg errors. parseError (error_reply t) = Inr (msg, errors)" for t
    by (auto simp: parseError_def error_reply_def error_text_of_def split: sum.splits)
  have "\<not> fm_submitting (snd (Login_answer reply f))"
    by (auto simp: Login_answer_def show_errors_def Let_def split: sum.splits prod.splits)
  moreover have "fst (Login_answer (Inr (error_reply t)) f)
      = (if truthy t then LoginDone else AskClientType (JObj [(''error'', t)]))"
    using err [of t] by (auto simp: Login_answer_def error_reply_def Let_def)
  moreover have "truthy t \<longrightarrow> (\<exists>msg errors. parseError (error_reply t) = Inr (msg, errors)
        \<and> fm_error (snd (Login_answer (Inr (error_reply t)) f)) = msg)"
    using err [of t] by (auto simp: Login_answer_def error_reply_def show_errors_def Let_def)
  moreover have "auth_data_of d = Inr ad \<and> decode (ad_token ad) = Inr info \<longrightarrow>
        (let s' = Login_client_type decode d (Inr (JObj [(''content'', ct)])) s
         in ses_isAuthorized s' \<and> ses_token s' = ad_token ad \<and> ses_clientType s' = ct)"
    by (simp add: Login_client_type_def setToken_def loadUser_def userUpdated_def Let_def)
  moreover have "auth_data_of d = Inl e \<longrightarrow> Login_client_type decode d (Inr (JObj [(''content'', ct)])) s = s"
    by (simp add: Login_client_type_def)
  ultimately show ?thesis by blast
qed

theorem login_always_ends_witness:
  "fst (Login_answer (Inr (error_reply (JStr ''no''))) form_initial) = LoginDone
   \<and> (let s' = Login_client_type (\<lambda>_. Inr JNull) (JObj [(''token'', JStr ''t'')]) (Inr (JObj [(''content'', JStr ''Ico'')]))
                (page_load Map.empty ''/login'')
      in ses_isAuthorized s' \<and> ses_token s' = JStr ''t'' \<and> ses_clientType s' = JStr ''Ico'')"
  using login_always_ends [of "Inl Rejected" form_initial "JStr ''no''" "JObj [(''token'', JStr ''t'')]"
      "\<lparr>ad_token = JStr ''t'', ad_expiration = JUndef, ad_role = JUndef, ad_refreshToken = JUndef\<rparr>"
      "\<lambda>_. Inr JNull" JNull "JStr ''Ico''" "page_load Map.empty ''/login''" TypeError]
  by (simp add: auth_data_of_def)

section \<open>The editor validates the last text\<close>

definition editor_ok :: "editor \<Rightarrow> bool" where
  "editor_ok e \<longleftrightarrow>
     (case ed_typingTimer e of
        None \<Rightarrow> ed_timers e = []
      | Some i \<Rightarrow> i < ed_next e \<and> (ed_timers e = [] \<or> ed_timers e = [i]))"

inductive editor_step :: "editor \<Rightarrow> editor \<Rightarrow> bool" where
  mount: "editor_step e (Editor_didMount v e)"
| change: "editor_step e (onChangeText v e)"
| fire: "editor_step e (Editor_timer_fires i e)"
| cursor: "editor_step e (handleCursor t n e)"

inductive_cases editor_stepE: "editor_step e e'"

interpretation config_editor: invariant_machine "\<lambda>e. e = Editor_new" editor_step editor_ok
proof
  show "editor_ok e" if "e = Editor_new" for e
    using that by (simp add: editor_ok_def Editor_new_def)
  show "editor_ok e'" if "editor_ok e" "editor_step e e'" for e e'
    using that(2,1)
    by (cases rule: editor_step.cases)
      (auto simp: editor_ok_def Editor_didMount_def onChangeText_def runValidateTimer_def
        Editor_timer_fires_def Editor_validateConfig_def handleCursor_def Let_def
        split: option.splits if_splits)
qed

text \<open>
  C29: typing is validated once, at its end. In every reachable state of the editor, a burst of
  changes without a pause leaves exactly one timer, and when it fires the text validated is the
  last one; earlier texts of the burst are never sent.
\<close>

theorem editor_validates_last_text:
  assumes "editor_step\<^sup>*\<^sup>* Editor_new e" and "ts \<noteq> []"
  shows "\<exists>i. ed_timers (fold onChangeText ts e) = [i]
    \<and> ed_validated (fold onChangeText ts e) = ed_validated e
    \<and> ed_validated (Editor_timer_fires i (fold onChangeText ts e)) = ed_validated e @ [JStr (last ts)]
    \<and> ed_timers (Editor_timer_fires i (fold onChangeText ts e)) = []"
proof -
  have "editor_ok e" using config_editor.inv_reach [OF refl assms(1)] .
  then have "\<exists>i. ed_timers (fold onChangeText ts e) = [i] \<and> ed_text (fold onChangeText ts e) = JStr (last ts)
      \<and> ed_validated (fold onChangeText ts e) = ed_validated e"
    using assms(2)
  proof (induction ts arbitrary: e)
    case (Cons t ts)
    let ?e = "onChangeText t e"
    have *: "editor_ok ?e" "\<exists>i. ed_timers ?e = [i]" "ed_text ?e = JStr t" "ed_validated ?e = ed_validated e"
      using Cons.prems(1)
      by (auto simp: editor_ok_def onChangeText_def runValidateTimer_def Let_def split: option.splits)
    show ?case
    proof (cases ts)
      case Nil
      with * show ?thesis by simp
    next
      case (Cons u us)
      with Cons.IH [OF *(1)] *(4) show ?thesis by simp
    qed
  qed simp
  then show ?thesis by (auto simp: Editor_timer_fires_def Editor_validateConfig_def)
qed

theorem editor_validates_last_text_witness:
  "ed_validated (Editor_timer_fires 2 (fold onChangeText [''a'', ''ab'', ''abc''] Editor_new)) = [JStr ''abc'']"
proof -
  have "ed_timers (fold onChangeText [''a'', ''ab'', ''abc''] Editor_new) = [2]"
    "ed_validated Editor_new = []" by code_simp+
  with editor_validates_last_text [of Editor_new "[''a'', ''ab'', ''abc'']"] show ?thesis by auto
qed

text \<open>The cursor's line and column are where the text before it ends.\<close>

lemma handleCursor_position:
  assumes "n \<le> length t"
  shows "take n t = join_with [CHR 0x0A] (split_on CHR 0x0A (take n t))
    \<and> ed_currentColumnIndex (handleCursor t n e) \<le> n
    \<and> 1 \<le> ed_currentLineNumber (handleCursor t n e)"
proof -
  have "length (last (split_on c s)) \<le> length s" for c and s :: string
    by (induction s) (auto split: list.splits)
  from this [of "CHR 0x0A" "take n t"] show ?thesis
    using assms by (auto simp: handleCursor_def join_split_on Let_def Suc_le_eq)
qed

end
