(* ===== verification/Json_Types.thy ===== *)
theory Json_Types
  imports Json
begin

text \<open>
  What \<^verbatim>\<open>JSON.parse\<close> can return: a typing of values. A value off the wire holds no \<open>undefined\<close>, no
  \<open>NaN\<close>, and its objects have each key once; a property read off it is such a value again, or
  \<open>undefined\<close> when it is missing.
\<close>

section \<open>Types of values\<close>

fun json_value :: "jsv \<Rightarrow> bool" where
  "json_value JUndef = False"
| "json_value (JNum n) = (n \<noteq> NaN)"
| "json_value (JArr xs) = list_all json_value xs"
| "json_value (JObj ps) = (distinct (map fst ps) \<and> list_all (\<lambda>(k, v). json_value v) ps)"
| "json_value _ = True"

definition wire_value :: "jsv \<Rightarrow> bool" where
  "wire_value v \<longleftrightarrow> v = JUndef \<or> json_value v"

lemma wire_value_simps [simp]: "wire_value JUndef" "wire_value JNull" "json_value v \<Longrightarrow> wire_value v"
  by (simp_all add: wire_value_def)

lemma num_of_int_not_NaN [simp]: "num_of_int n \<noteq> NaN"
  by (simp add: num_of_int_def mk_fin_def split: prod.split)

lemma json_value_map_of: "list_all (\<lambda>(k, v). json_value v) ps \<Longrightarrow> map_of ps k = Some v \<Longrightarrow> json_value v"
  by (auto simp: list_all_iff dest!: map_of_SomeD)

lemma json_value_at: "list_all json_value xs \<Longrightarrow> at xs i = Some v \<Longrightarrow> json_value v"
  by (auto simp: list_all_iff dest: at_in_set)

text \<open>Reads keep the type.\<close>

lemma get_prop_wire: "json_value v \<Longrightarrow> get_prop v k = Inr x \<Longrightarrow> wire_value x"
  by (cases v)
    (auto simp: wire_value_def dest: json_value_map_of json_value_at split: option.splits if_splits)

lemma elements_json: "json_value v \<Longrightarrow> elements v = Inr xs \<Longrightarrow> list_all json_value xs"
  by (cases v) auto

section \<open>Number literals are numbers\<close>

definition digits :: "string \<Rightarrow> bool" where
  "digits ds \<longleftrightarrow> (\<forall>c \<in> set ds. digit_value c < 10)"

lemma mk_fin_not_NaN [simp]: "mk_fin m e \<noteq> NaN"
  by (simp add: mk_fin_def split: prod.split)

lemma round_frac_not_NaN [simp]: "round_frac n d \<noteq> NaN"
  by (simp add: round_frac_def Let_def)

lemma digit_not_space: "digit_value c < 10 \<Longrightarrow> \<not> is_space c"
  by (auto simp: digit_value_def is_space_def Let_def split: if_splits)

lemma digit_values [simp]:
  "digit_value CHR ''.'' = 99" "digit_value CHR ''e'' = 14" "digit_value CHR ''E'' = 14"
  "digit_value CHR ''-'' = 99" "digit_value CHR ''+'' = 99"
  by (simp_all add: digit_value_def)

lemma read_digits_append:
  assumes "digits ds" and "rest = [] \<or> 10 \<le> digit_value (hd rest)"
  shows "\<exists>v. read_digits 10 (ds @ rest) acc k = (v, k + length ds, rest)"
  using assms(1)
proof (induction ds arbitrary: acc k)
  case Nil
  with assms(2) show ?case by (cases rest) auto
next
  case (Cons c ds)
  then have "digit_value c < 10" "digits ds" by (simp_all add: digits_def)
  with Cons.IH [of "acc * 10 + digit_value c" "Suc k"] show ?case by simp
qed

lemma trim_same:
  assumes "s \<noteq> []" and "\<not> is_space (hd s)" and "\<not> is_space (last s)"
  shows "trim s = s"
proof -
  have "dropWhile is_space s = s" using assms by (cases s) auto
  moreover have "dropWhile is_space (rev s) = rev s" using assms by (cases s rule: rev_cases) auto
  ultimately show ?thesis by (simp add: trim_def)
qed

text \<open>The exponent part of a literal, and the literal after its sign.\<close>

definition exponent_text :: "string \<Rightarrow> bool" where
  "exponent_text t \<longleftrightarrow>
     t = [] \<or> (\<exists>c g ep. t = c # g @ ep \<and> c \<in> set ''eE'' \<and> g \<in> {[], ''+'', ''-''} \<and> ep \<noteq> [] \<and> digits ep)"

definition unsigned_text :: "string \<Rightarrow> bool" where
  "unsigned_text t \<longleftrightarrow>
     (\<exists>ip f x. t = ip @ f @ x \<and> ip \<noteq> [] \<and> digits ip \<and> exponent_text x
        \<and> (f = [] \<or> (\<exists>fp. f = CHR ''.'' # fp \<and> fp \<noteq> [] \<and> digits fp)))"

lemma exponent_text_head: "exponent_text x \<Longrightarrow> x = [] \<or> 10 \<le> digit_value (hd x)"
  by (auto simp: exponent_text_def)

lemma read_exponent_text:
  assumes "exponent_text x"
  shows "\<exists>n. read_exponent x = Some n"
proof (cases "x = []")
  case False
  then obtain c g ep where x: "x = c # g @ ep" "c \<in> set ''eE''" "g \<in> {[], ''+'', ''-''}" "ep \<noteq> []" "digits ep"
    using assms by (auto simp: exponent_text_def)
  obtain v where v: "read_digits 10 ep 0 0 = (v, length ep, [])"
    using read_digits_append [OF x(5), of "[]" 0 0] by auto
  obtain d ds where ep: "ep = d # ds" using x(4) by (cases ep) auto
  then have "d \<noteq> CHR ''-''" "d \<noteq> CHR ''+''" using x(5) by (auto simp: digits_def)
  with x v ep show ?thesis by (auto simp: read_exponent_def)
qed (simp add: read_exponent_def)

lemma read_unsigned_text:
  assumes "unsigned_text t"
  shows "read_unsigned sg t \<noteq> NaN"
proof -
  obtain ip f x where t: "t = ip @ f @ x" "ip \<noteq> []" "digits ip" "exponent_text x"
    and f: "f = [] \<or> (\<exists>fp. f = CHR ''.'' # fp \<and> fp \<noteq> [] \<and> digits fp)"
    using assms by (auto simp: unsigned_text_def)
  obtain n where n: "read_exponent x = Some n" using read_exponent_text [OF t(4)] by blast
  have "f @ x = [] \<or> 10 \<le> digit_value (hd (f @ x))"
    using f exponent_text_head [OF t(4)] by auto
  then obtain v where v: "read_digits 10 t 0 0 = (v, length ip, f @ x)"
    using read_digits_append [OF t(3), of "f @ x" 0 0] t(1) by auto
  show ?thesis
  proof (cases "f = []")
    case True
    have "x = [] \<or> hd x \<noteq> CHR ''.''" using t(4) by (auto simp: exponent_text_def)
    with True v t(2) n show ?thesis
      by (cases x) (simp_all add: read_unsigned_def)
  next
    case False
    with f obtain fp where fp: "f = CHR ''.'' # fp" "digits fp" by auto
    obtain v' where "read_digits 10 (fp @ x) v 0 = (v', length fp, x)"
      using read_digits_append [OF fp(2) exponent_text_head [OF t(4)], of v 0] by auto
    with fp v t(2) n show ?thesis by (simp add: read_unsigned_def)
  qed
qed

lemma exponent_text_last: "exponent_text x \<Longrightarrow> x \<noteq> [] \<Longrightarrow> digit_value (last x) < 10"
  by (auto simp: exponent_text_def digits_def)

lemma unsigned_text_ends:
  assumes "unsigned_text t"
  shows "t \<noteq> []" and "digit_value (hd t) < 10" and "digit_value (last t) < 10"
    and "take 2 t \<notin> {''0x'', ''0X'', ''0o'', ''0O'', ''0b'', ''0B''}"
proof -
  obtain ip f x where t: "t = ip @ f @ x" "ip \<noteq> []" "digits ip" "exponent_text x"
    and f: "f = [] \<or> (\<exists>fp. f = CHR ''.'' # fp \<and> fp \<noteq> [] \<and> digits fp)"
    using assms by (auto simp: unsigned_text_def)
  obtain c cs where ip: "ip = c # cs" using t(2) by (cases ip) auto
  show "t \<noteq> []" "digit_value (hd t) < 10" using t ip by (auto simp: digits_def)
  show "digit_value (last t) < 10"
    using t f exponent_text_last [OF t(4)] by (auto simp: digits_def last_append)
  have "t = [c] \<or> (\<exists>d r. t = c # d # r \<and> (digit_value d < 10 \<or> d \<in> set ''.eE''))"
    using t ip f by (cases cs) (auto simp: digits_def exponent_text_def)
  then show "take 2 t \<notin> {''0x'', ''0X'', ''0o'', ''0O'', ''0b'', ''0B''}"
    by (auto simp: digit_value_def)
qed

lemma string_to_num_literal:
  assumes "unsigned_text t" and "sg \<in> {[], ''-''}"
  shows "string_to_num (sg @ t) \<noteq> NaN"
proof -
  note ends = unsigned_text_ends [OF assms(1)] and val = read_unsigned_text [OF assms(1)]
  obtain c r where c: "t = c # r" using ends(1) by (cases t) auto
  have "\<not> is_space CHR ''-''" by (simp add: is_space_def)
  with ends assms(2) have "trim (sg @ t) = sg @ t"
    by (intro trim_same) (auto simp: hd_append digit_not_space)
  moreover have "c \<noteq> CHR ''-''" "c \<noteq> CHR ''+''" using ends(2) c by auto
  ultimately show ?thesis
    using assms(2) ends(4) val c by (auto simp: string_to_num_def)
qed

lemma parse_number_typed:
  assumes "parse_number s = Inr (v, r)"
  shows "json_value v"
proof -
  obtain sg s1 where sg: "optional_char ''-'' s = (sg, s1)" by fastforce
  obtain ip s2 where ip: "span_digits s1 = (ip, s2)" by fastforce
  obtain dot s3 where dot: "optional_char ''.'' s2 = (dot, s3)" by fastforce
  obtain fp s4 where fp: "(if dot = [] then ([], s3) else span_digits s3) = (fp, s4)" by fastforce
  obtain e s5 where e: "optional_char ''eE'' s4 = (e, s5)" by fastforce
  obtain g s6 where g: "(if e = [] then ([], s5) else optional_char ''+-'' s5) = (g, s6)" by fastforce
  obtain ep s7 where ep: "(if e = [] then ([], s6) else span_digits s6) = (ep, s7)" by fastforce
  have "parse_number s =
      (if ip = [] \<or> (1 < length ip \<and> hd ip = CHR ''0'') \<or> (dot \<noteq> [] \<and> fp = []) \<or> (e \<noteq> [] \<and> ep = [])
       then Inl SyntaxError
       else Inr (JNum (string_to_num (sg @ ip @ dot @ fp @ e @ g @ ep)), s7))"
    by (simp only: parse_number_def Let_def sg ip dot fp e g ep prod.case)
  with assms have ok: "ip \<noteq> []" "dot \<noteq> [] \<Longrightarrow> fp \<noteq> []" "e \<noteq> [] \<Longrightarrow> ep \<noteq> []"
    and v: "v = JNum (string_to_num (sg @ ip @ dot @ fp @ e @ g @ ep))"
    by (auto split: if_splits)
  have opt: "optional_char cs u = (w, z) \<Longrightarrow> w = [] \<or> (\<exists>c. w = [c] \<and> c \<in> set cs)" for cs u w z
    by (auto simp: optional_char_def split: list.splits if_splits)
  have span: "span_digits u = (w, z) \<Longrightarrow> digits w" for u w z
    by (auto simp: span_digits_def digits_def dest: set_takeWhileD)
  have "exponent_text (e @ g @ ep)"
  proof (cases "e = []")
    case True
    with g ep show ?thesis by (simp add: exponent_text_def)
  next
    case False
    with g ep have ge: "optional_char ''+-'' s5 = (g, s6)" "span_digits s6 = (ep, s7)" by simp_all
    obtain c where c: "e = [c]" "c \<in> set ''eE''" using opt [OF e] False by auto
    have "g \<in> {[], ''+'', ''-''}" using opt [OF ge(1)] by auto
    moreover have "ep \<noteq> []" "digits ep" using ok(3) False span [OF ge(2)] by simp_all
    moreover have "e @ g @ ep = c # g @ ep" using c(1) by simp
    ultimately show ?thesis unfolding exponent_text_def using c(2) by blast
  qed
  moreover have "dot @ fp = [] \<or> (\<exists>fp'. dot @ fp = CHR ''.'' # fp' \<and> fp' \<noteq> [] \<and> digits fp')"
    using opt [OF dot] ok(2) fp span [of s3 fp s4] by (auto split: if_splits)
  ultimately have "unsigned_text (ip @ (dot @ fp) @ e @ g @ ep)"
    using ok(1) span [OF ip] unfolding unsigned_text_def by blast
  then have "string_to_num (sg @ ip @ (dot @ fp) @ e @ g @ ep) \<noteq> NaN"
    using opt [OF sg] by (intro string_to_num_literal) auto
  then show ?thesis unfolding v by simp
qed

section \<open>Every parsed value has the type\<close>

lemma list_all_update:
  "list_all (\<lambda>(k, v). P v) ps \<Longrightarrow> P v \<Longrightarrow> list_all (\<lambda>(k, v). P v) (AList.update k v ps)"
  by (induction ps) auto

lemma parse_typed:
  "parse_value n s = Inr (v, r) \<Longrightarrow> json_value v"
  "parse_elements n s = Inr (vs, r) \<Longrightarrow> list_all json_value vs"
  "parse_members n ps s = Inr (qs, r) \<Longrightarrow> distinct (map fst ps) \<Longrightarrow> list_all (\<lambda>(k, v). json_value v) ps
     \<Longrightarrow> distinct (map fst qs) \<and> list_all (\<lambda>(k, v). json_value v) qs"
proof (induction n arbitrary: s v r vs ps qs)
  case (Suc n)
  {
    case 1
    then show ?case
      by (auto simp: res_bind_eq_Inr split: list.splits if_splits option.splits
          dest: Suc.IH(2) Suc.IH(3) parse_number_typed)
  next
    case 2
    then obtain v u where "parse_value n s = Inr (v, u)"
      and "vs = [v] \<or> (\<exists>w ws z. parse_elements n w = Inr (ws, z) \<and> vs = v # ws)"
      by (simp add: res_bind_eq_Inr split: option.splits) blast+
    with Suc.IH(1,2) show ?case by (elim disjE exE conjE) simp_all
  next
    case 3
    then obtain k v w u where "parse_value n w = Inr (v, u)"
      and "qs = AList.update k v ps \<or> (\<exists>y. parse_members n (AList.update k v ps) y = Inr (qs, r))"
      by (simp add: res_bind_eq_Inr split: option.splits) blast+
    moreover from this Suc.IH(1) have "json_value v" by blast
    ultimately show ?case
      using 3(2,3) Suc.IH(3) [of "AList.update k v ps"] by (elim disjE exE) (simp_all add: distinct_update list_all_update)
  }
qed simp_all

lemma json_parse_typed: "json_parse t = Inr v \<Longrightarrow> json_value v"
  by (auto simp: json_parse_def res_bind_eq_Inr simp del: parse_value.simps split: if_splits
      dest!: parse_typed(1))

end
