(* ===== verification/Ws_Types.thy ===== *)
theory Ws_Types
  imports Ws_Loop Json_Types
begin

text \<open>
  The types of the data in the state of \<^verbatim>\<open>WsContainer.js\<close>: which shapes a page can meet there, whatever
  the server sent and however messages, calls and renders interleaved.
\<close>

section \<open>Types of the state\<close>

text \<open>
  An entry of the balances: the items of one currency, at least one, each of which names the
  currency, and the total, which is a number or a text.
\<close>

definition balance_entry :: "string \<Rightarrow> jsv \<Rightarrow> bool" where
  "balance_entry k c \<longleftrightarrow>
     (\<exists>items t. c = JObj [(''exchanges'', JArr items), (''total'', t)] \<and> items \<noteq> []
        \<and> (\<forall>i \<in> set items. json_value i \<and> currency_key i = Inr k)
        \<and> (is_string t \<or> (\<exists>n. t = JNum n)))"

definition balances_typed :: "jsv \<Rightarrow> bool" where
  "balances_typed v \<longleftrightarrow>
     v = JNull \<or> (\<exists>ps. v = JObj ps \<and> distinct (map fst ps) \<and> (\<forall>(k, c) \<in> set ps. balance_entry k c))"

text \<open>An order book that was accepted names an exchange and a pair.\<close>

definition order_typed :: "jsv \<Rightarrow> bool" where
  "order_typed v \<longleftrightarrow>
     v = JNull \<or> (json_value v \<and> (\<exists>x c. get_prop v ''exchangeName'' = Inr x \<and> get_prop v ''currencyCodePair'' = Inr c))"

definition state_typed :: "ws_state \<Rightarrow> bool" where
  "state_typed st \<longleftrightarrow>
     order_typed (ws_orderState st) \<and> wire_value (ws_currencyIndicators st) \<and> json_value (ws_volumeNow st)
     \<and> wire_value (ws_transactions st) \<and> wire_value (ws_profits st)
     \<and> wire_value (ws_dashboardIndicators st) \<and> wire_value (ws_tradeSignals st)
     \<and> balances_typed (ws_balances st)"

fun patch_typed :: "patch \<Rightarrow> bool" where
  "patch_typed (PVolume v) = json_value v"
| "patch_typed (PIndicators v) = wire_value v"
| "patch_typed (PBalances v) = balances_typed v"
| "patch_typed (PProfitLoss t p) = (wire_value t \<and> wire_value p)"
| "patch_typed (PSignals v) = wire_value v"
| "patch_typed (POrderState v) = order_typed v"
| "patch_typed (PCurrencyIndicators v) = wire_value v"
| "patch_typed _ = True"

lemma apply_patch_typed: "state_typed st \<Longrightarrow> patch_typed p \<Longrightarrow> state_typed (apply_patch p st)"
  by (cases p) (simp_all add: state_typed_def emptyState_def order_typed_def balances_typed_def)

interpretation typed: page_frames patch_typed
  by unfold_locales (case_tac p; simp)

section \<open>Messages\<close>

definition segment_typed :: "segment \<Rightarrow> bool" where
  "segment_typed seg \<longleftrightarrow> list_all (frame_fits patch_typed) (thread_of seg)"

lemma segment_typed_simps [simp]:
  "segment_typed (None, fs, s) \<longleftrightarrow> list_all (frame_fits patch_typed) fs" "segment_typed (Some e, fs, s)"
  by (simp_all add: segment_typed_def thread_of_def)

lemma seg_of_typed: "(\<And>fs. r = Inr fs \<Longrightarrow> list_all (frame_fits patch_typed) fs) \<Longrightarrow> segment_typed (seg_of r s)"
  by (cases r) (simp_all add: seg_of_def)

lemma sum_values_type:
  "sum_values acc items = Inr t \<Longrightarrow> is_string acc \<or> (\<exists>n. acc = JNum n) \<Longrightarrow> is_string t \<or> (\<exists>n. t = JNum n)"
proof (induction items arbitrary: acc)
  case (Cons b bs)
  from Cons.prems(1) obtain v where "sum_values (js_add acc v) bs = Inr t"
    by (auto simp: res_bind_eq_Inr)
  then show ?case by (rule Cons.IH) (simp add: js_add_def)
qed simp

lemma res_map_nth: "res_map f xs = Inr ys \<Longrightarrow> list_all2 (\<lambda>x y. f x = Inr y) xs ys"
  by (induction xs arbitrary: ys) (auto simp: res_bind_eq_Inr)

lemma groupBy_member:
  assumes "(k, g) \<in> set (groupBy f xs)"
  shows "g \<noteq> []" and "\<forall>x \<in> set g. x \<in> set xs \<and> f x = k"
proof -
  have "map_of (groupBy f xs) k = Some g" using assms by simp
  then have "g = filter (\<lambda>x. f x = k) xs \<and> g \<noteq> []"
    unfolding groupBy_lookup by (auto split: if_splits simp: filter_empty_conv)
  then show "g \<noteq> []" and "\<forall>x \<in> set g. x \<in> set xs \<and> f x = k" by auto
qed

lemma group_balances_typed:
  assumes "json_value v" and "group_balances v = Inr g"
  shows "balances_typed g"
proof -
  obtain bs items ks ps where reads: "get_prop v ''balances'' = Inr bs" "elements bs = Inr items"
    and ks: "res_map currency_key items = Inr ks" and g: "g = JObj ps"
    and ps: "res_map (\<lambda>(k, g). res_bind (sum_values (JNum num_zero) (map snd g)) (\<lambda>t.
                Inr (k, JObj [(''exchanges'', JArr (map snd g)), (''total'', t)]))) (groupBy fst (zip ks items)) = Inr ps"
    using assms(2) by (auto simp: group_balances_def res_bind_eq_Inr Let_def)
  have "json_value bs"
    using get_prop_wire [OF assms(1) reads(1)] reads(2) by (auto simp: wire_value_def)
  then have items: "list_all json_value items" using reads(2) by (rule elements_json)
  have keys: "currency_key i = Inr k" "json_value i" if "(k, i) \<in> set (zip ks items)" for k i
    using that res_map_nth [OF ks] items
    by (auto simp: list_all2_conv_all_nth list_all_length set_zip)
  let ?one = "\<lambda>(k, g) (k', c). k' = k \<and> (\<exists>t. sum_values (JNum num_zero) (map snd g) = Inr t
      \<and> c = JObj [(''exchanges'', JArr (map snd g)), (''total'', t)])"
  have all: "list_all2 ?one (groupBy fst (zip ks items)) ps"
    using res_map_nth [OF ps] by (rule list_all2_mono) (auto simp: res_bind_eq_Inr)
  have "map fst ps = map fst (groupBy fst (zip ks items))"
    using all by (induction rule: list_all2_induct) auto
  then have "distinct (map fst ps)" by simp
  moreover have "balance_entry k c" if kc: "(k, c) \<in> set ps" for k c
  proof -
    obtain g where mem: "(k, g) \<in> set (groupBy fst (zip ks items))" and "?one (k, g) (k, c)"
      using all kc by (fastforce simp: list_all2_conv_all_nth in_set_conv_nth)
    then obtain t where t: "sum_values (JNum num_zero) (map snd g) = Inr t"
      "c = JObj [(''exchanges'', JArr (map snd g)), (''total'', t)]" by auto
    have "is_string t \<or> (\<exists>n. t = JNum n)" using sum_values_type [OF t(1)] by simp
    moreover have "\<forall>i \<in> set (map snd g). json_value i \<and> currency_key i = Inr k"
      using groupBy_member(2) [OF mem] keys by fastforce
    ultimately show ?thesis
      using t(2) groupBy_member(1) [OF mem] unfolding balance_entry_def by blast
  qed
  ultimately show ?thesis using g by (auto simp: balances_typed_def)
qed

lemma updateOrderState_typed:
  assumes "json_value v"
  shows "segment_typed (updateOrderState v s)"
  unfolding updateOrderState_def
proof (rule seg_of_typed)
  fix fs
  assume "res_bind (get_prop v ''ordersStateAndTransactions'') (\<lambda>o1.
       res_bind (get_prop v ''indicators'') (\<lambda>indicators.
         if \<not> truthy_str (ws_subscribedLiquidity (ws_st s)) then Inr []
         else res_bind (get_prop o1 ''exchangeName'') (\<lambda>x.
           if \<not> strict_eq (ws_exchangeName (ws_st s)) x then Inr []
           else res_bind (get_prop o1 ''currencyCodePair'') (\<lambda>c.
             if strict_eq (ws_currencyCodePair (ws_st s)) c
             then Inr [FSet (POrderState o1), FSet (PCurrencyIndicators indicators)]
             else Inr [])))) = Inr fs"
  then obtain o1 i where reads: "get_prop v ''ordersStateAndTransactions'' = Inr o1" "get_prop v ''indicators'' = Inr i"
    and fs: "fs = [] \<or> (fs = [FSet (POrderState o1), FSet (PCurrencyIndicators i)]
      \<and> (\<exists>x c. get_prop o1 ''exchangeName'' = Inr x \<and> get_prop o1 ''currencyCodePair'' = Inr c))"
    by (auto simp: res_bind_eq_Inr split: if_splits)
  note wire = get_prop_wire [OF assms reads(1)] get_prop_wire [OF assms reads(2)]
  then show "list_all (frame_fits patch_typed) fs"
    using fs by (auto simp: order_typed_def wire_value_def [of o1])
qed

lemma router_typed:
  assumes "json_value v"
  shows "segment_typed (router c v s)"
proof -
  have auth: "segment_typed (processAuthorized v s)"
    by (simp add: processAuthorized_def Let_def split: sum.split)
  have data: "segment_typed (updateVolume v s)" "segment_typed (updateIndicators v s)"
    "segment_typed (updateBalances v s)" "segment_typed (updateProfitLoss v s)"
    "segment_typed (updateTradeSignals v s)"
    using assms
    by (auto simp: updateVolume_def updateIndicators_def updateBalances_def updateProfitLoss_def
        updateTradeSignals_def res_bind_eq_Inr group_balances_typed get_prop_wire intro!: seg_of_typed)
  show ?thesis
    unfolding router_def using auth data updateOrderState_typed [OF assms]
    by (simp split: sum.split)
qed

lemma onmessage_typed: "segment_typed (onmessage t s)"
  by (auto simp: onmessage_def decode_message_def res_bind_eq_Inr Let_def
      intro!: router_typed dest: json_parse_typed split: sum.split)

lemma router_st_typed:
  assumes "state_typed (ws_st s)"
  shows "state_typed (ws_st (state_of (onmessage t s)))"
proof -
  have seg: "ws_st (state_of (seg_of r s)) = ws_st s" for r by (cases r) (simp_all add: seg_of_def)
  have "state_typed (ws_st (state_of (processAuthorized v s)))" for v
    using assms
    by (simp add: processAuthorized_def close_and_logout_def ws_close_def state_typed_def Let_def split: sum.split)
  with assms have "state_typed (ws_st (state_of (router c v s)))" for c v
    unfolding router_def
    by (simp add: pong_def updateVolume_def updateIndicators_def updateBalances_def updateProfitLoss_def
        updateTradeSignals_def updateOrderState_def seg split: sum.split)
  with assms show ?thesis by (simp add: onmessage_def split: sum.split)
qed

section \<open>Reachable states\<close>

definition loop_typed :: "loop \<Rightarrow> bool" where
  "loop_typed l \<longleftrightarrow> state_typed (ws_st (lp_ws l))
     \<and> (\<forall>th \<in> set (lp_threads l). list_all (frame_fits patch_typed) th)"

lemma handle_typed:
  assumes "state_typed (ws_st s)"
  shows "segment_typed (handle decode e s) \<and> state_typed (ws_st (state_of (handle decode e s)))"
proof (cases e)
  case (Message t)
  with assms show ?thesis by (simp add: onmessage_typed router_st_typed)
next
  case (TimerFires i)
  with assms show ?thesis by (simp add: segment_typed_def typed.fire_timer_fits fire_timer_st)
next
  case (ClientTypeAnswered i ct)
  have "segment_typed (authorized_client_type decode d ct s')" for d s'
    by (simp add: segment_typed_def typed.authorized_client_type_fits)
  with assms ClientTypeAnswered show ?thesis
    by (auto simp: client_type_answered_def authorized_client_type_st drop_wait_def split: wait.split)
qed (use assms in \<open>simp_all add: onopen_def onreconnect_def onclose_def onerror_def stopPing_def
    login_answered_def authorized_login_def close_and_logout_def ws_close_def drop_wait_def
    split: sum.split\<close>)

lemma loop_step_typed:
  assumes "loop_typed l" and "loop_step decode l l'"
  shows "loop_typed l'"
  using assms(2)
proof (cases rule: loop_step.cases)
  case (begins e)
  show ?thesis
  proof (cases "\<exists>os. e = PageCalls os")
    case True
    with assms(1) begins show ?thesis
      using typed.call_all_fits call_all_st by (auto simp: task_def loop_typed_def split_beta)
  next
    case False
    then have "l' = \<lparr>lp_ws = state_of (handle decode e (lp_ws l)), lp_threads = [thread_of (handle decode e (lp_ws l))]\<rparr>"
      using begins by (cases e) (auto simp: task_def)
    with assms(1) handle_typed [of "lp_ws l" decode e] show ?thesis
      by (simp add: loop_typed_def segment_typed_def)
  qed
next
  case (resumes i os)
  show ?thesis
  proof (cases "if i < length (lp_threads l) then lp_threads l ! i else []")
    case Nil
    with assms(1) resumes show ?thesis by (simp add: resume_def)
  next
    case cons: (Cons f fs)
    then have th: "i < length (lp_threads l)" "lp_threads l ! i = f # fs" by (simp_all split: if_splits)
    then have ff: "list_all (frame_fits patch_typed) (f # fs)"
      using assms(1) nth_mem unfolding loop_typed_def by metis
    obtain e gs t where run: "run_frame f (lp_ws l) = (e, gs, t)" by (metis prod_cases3)
    have "state_typed (ws_st t)"
      using run_frame_st [of f "lp_ws l"] run assms(1) ff apply_patch_typed
      by (cases f) (auto simp: loop_typed_def)
    moreover have "list_all (frame_fits patch_typed) (if e = None then gs @ fs else [])"
      using typed.run_frame_fits [of f "lp_ws l"] run ff by (auto simp: thread_of_def)
    then have "\<forall>th \<in> set ((lp_threads l)[i := if e = None then gs @ fs else []]). list_all (frame_fits patch_typed) th"
      using assms(1) set_update_subset_insert [of "lp_threads l" i] unfolding loop_typed_def by blast
    ultimately show ?thesis
      using run th resumes typed.call_all_fits call_all_st
      by (auto simp: resume_def loop_typed_def split_beta Let_def)
  qed
qed

lemma loop_start_typed: "loop_start l \<Longrightarrow> loop_typed l"
  by (simp add: loop_start_def ws_constructed_def loop_typed_def state_typed_def emptyState_def
      order_typed_def balances_typed_def)

interpretation ws_types: invariant_machine loop_start "loop_step decode" loop_typed for decode
  by unfold_locales (rule loop_start_typed, assumption, rule loop_step_typed)


definition demo_balance_run :: "choice list" where
  "demo_balance_run = demo_open
     @ [Begin (Message (''UpdateBalances|'' @ text_of (JObj [(''balances'',
          JArr [JObj [(''currencyCode'', JStr ''BTC''), (''value'', JStr ''2'')]])]))), Resume 0 []]"


end
