(* ===== verification/Page_Bodies.thy ===== *)
theory Page_Bodies
  imports Page_Shell Controls Forms Ws_Types
begin

text \<open>
  The pages of \<^verbatim>\<open>containers\<close> that show a store: users, balances, profit and loss, the graph of the
  profit, explanations, signals and configuration, and the pages for signing in and up. Each
  definition is the \<^verbatim>\<open>render\<close> of a container over the state of its store, put together from the
  components below it, with a throw as an error value and the boundaries where the code has them.
\<close>

section \<open>Users\<close>

definition Users_Header :: "string list" where
  "Users_Header = [''Name'', ''Email'', ''Creation Date'', ''Role'']"

text \<open>
  \<^verbatim>\<open>components/Users/Item.js\<close>: a row with the drop-down of the roles. The text of the date is a
  parameter; it depends on the time zone.
\<close>

definition role_click :: "string \<Rightarrow> string \<Rightarrow> users_state handler" where
  "role_click userId v s = (case updateUserRole userId v s of Inl e \<Rightarrow> (Some e, s) | Inr t \<Rightarrow> (None, t))"

definition role_entries :: "string \<Rightarrow> string list \<Rightarrow> users_state element list" where
  "role_entries userId roles =
     map (\<lambda>role. \<lparr>el_displayName = None, el_text = role @ '' '',
            el_onClick = Some (role_click userId (to_upper role))\<rparr>) roles"

record user_row =
  ur_name :: jsv
  ur_email :: jsv
  ur_date :: string
  ur_role :: jsv
  ur_entries :: "users_state element list"
  ur_saving :: bool

definition role_names :: "jsv \<Rightarrow> string list res" where
  "role_names roles =
     res_bind (elements roles) (res_map (\<lambda>r. case r of JStr t \<Rightarrow> Inr t | _ \<Rightarrow> Inl TypeError))"

definition Item_render :: "(jsv \<Rightarrow> string) \<Rightarrow> jsv \<Rightarrow> bool \<Rightarrow> user \<Rightarrow> user_row res" where
  "Item_render dateText roles submitting u =
     res_bind (role_names roles) (\<lambda>names.
     res_bind (get_prop (user_rest u) ''userName'') (\<lambda>userName.
     res_bind (get_prop (user_rest u) ''email'') (\<lambda>email.
     res_bind (get_prop (user_rest u) ''creationDate'') (\<lambda>creationDate.
       Inr \<lparr>ur_name = userName, ur_email = email, ur_date = dateText creationDate,
            ur_role = (case Item_role u names of Some r \<Rightarrow> JStr r | None \<Rightarrow> JUndef),
            ur_entries = role_entries (user_id u) names, ur_saving = submitting\<rparr>))))"

text \<open>The list, with the flag of each row kept under the id that is its key.\<close>

definition Users_List :: "(jsv \<Rightarrow> string) \<Rightarrow> (string \<Rightarrow> bool) \<Rightarrow> users_state \<Rightarrow> user_row list option res" where
  "Users_List dateText submitting s =
     (case Users_List_shows s of
        None \<Rightarrow> Inr None
      | Some users \<Rightarrow>
          res_bind (res_map (\<lambda>u. Item_render dateText (usr_roles s) (submitting (user_id u)) u) users)
            (\<lambda>rows. Inr (Some rows)))"

definition Users_render ::
  "(jsv \<Rightarrow> string) \<Rightarrow> (string \<Rightarrow> bool) \<Rightarrow> users_state \<Rightarrow> boundary \<Rightarrow> boundary \<times> string list \<times> user_row list option shown" where
  "Users_render dateText submitting s b =
     (case boundary_update (BodyErrorBoundary []) b (Users_List dateText submitting s) of
        (b', v) \<Rightarrow> (b', Users_Header, v))"

section \<open>Balances\<close>

text \<open>
  What React makes of a value among the children: nothing of \<open>undefined\<close>, \<open>null\<close> and truth values, a
  text of strings and numbers, the parts of an array one after the other. An object makes it throw.
\<close>

fun has_object :: "jsv \<Rightarrow> bool" where
  "has_object (JObj ps) = True"
| "has_object (JArr xs) = list_ex has_object xs"
| "has_object v = False"

fun child_text :: "jsv \<Rightarrow> string" where
  "child_text (JStr s) = s"
| "child_text (JNum n) = num_to_string n"
| "child_text (JArr xs) = concat (map child_text xs)"
| "child_text v = []"

definition exchange_of :: "jsv \<Rightarrow> exchange_balance res" where
  "exchange_of v =
     res_bind (get_prop v ''exchangeId'') (\<lambda>x. res_bind (get_prop v ''value'') (\<lambda>a.
       if has_object x then Inl TypeError else Inr \<lparr>eb_exchangeId = child_text x, eb_value = a\<rparr>))"

definition currency_of :: "jsv \<Rightarrow> currency_balance res" where
  "currency_of c =
     res_bind (get_prop c ''exchanges'') (\<lambda>xs. res_bind (elements xs) (\<lambda>items.
     res_bind (get_prop c ''total'') (\<lambda>t. res_bind (res_map exchange_of items) (\<lambda>es.
       Inr \<lparr>cb_total = t, cb_exchanges = es\<rparr>))))"

fun balances_of :: "jsv \<Rightarrow> balances res" where
  "balances_of (JObj ps) = res_map (\<lambda>(k, c). res_bind (currency_of c) (\<lambda>b. Inr (k, b))) ps"
| "balances_of v = Inl OutOfModel"

definition Balances_render ::
  "ws_state \<Rightarrow> boundary option \<Rightarrow> boundary option \<times> (string \<times> balance_row list) list body" where
  "Balances_render st b =
     (if ws_isConnected st \<and> ws_subscribedBalances st \<and> truthy (ws_balances st)
      then guarded_body (res_bind (balances_of (ws_balances st)) (\<lambda>bs. Inr (Balances_List bs))) b
      else (None, Spinner))"

section \<open>Profit and loss\<close>

text \<open>
  \<^verbatim>\<open>components/PL/FilterTrades.js\<close>, the table of trades as a virtual list on a dashboard, and the body:
  a boundary in a boundary, with the indicators computed between the two.
\<close>

definition FilterTrades :: "(bool \<Rightarrow> bool \<Rightarrow> jsv \<Rightarrow> 't res) \<Rightarrow> jsv \<Rightarrow> (string \<times> 't) res" where
  "FilterTrades trades transactions =
     res_bind (trades True True transactions) (\<lambda>t. Inr (''Trades'', t))"

definition PL_Body ::
  "(jsv \<Rightarrow> string) \<Rightarrow> (bool \<Rightarrow> bool \<Rightarrow> jsv \<Rightarrow> 't res) \<Rightarrow> ws_state \<Rightarrow> boundary
    \<Rightarrow> (boundary \<times> (indicator list \<times> string \<times> 't) option shown) res" where
  "PL_Body usd trades st b =
     res_bind (if PL_body_shows (ws_isConnected st) (ws_profits st) (ws_transactions st)
               then res_bind (PL_indicators usd (ws_profits st)) (\<lambda>boxes. Inr (Some boxes)) else Inr None)
       (\<lambda>shows. Inr (boundary_update (BodyErrorBoundary []) b
         (case shows of
            Some boxes \<Rightarrow> res_bind (FilterTrades trades (ws_transactions st)) (\<lambda>t. Inr (Some (boxes, t)))
          | None \<Rightarrow> Inr None)))"

definition PL_render ::
  "(jsv \<Rightarrow> string) \<Rightarrow> (bool \<Rightarrow> bool \<Rightarrow> jsv \<Rightarrow> 't res) \<Rightarrow> ws_state \<Rightarrow> boundary \<times> boundary
    \<Rightarrow> boundary \<times> (boundary \<times> (indicator list \<times> string \<times> 't) option shown) shown" where
  "PL_render usd trades st = (\<lambda>(outer, inner).
     boundary_update (BodyErrorBoundary []) outer (PL_Body usd trades st inner))"

section \<open>Stores without a boundary\<close>

text \<open>A spinner is \<open>None\<close>.\<close>

definition PLGraph_render :: "plg_state \<Rightarrow> chart option res" where
  "PLGraph_render s =
     (if \<not> plg_loading s \<and> truthy (plg_data s)
      then res_bind (PLGraph_GraphNow (plg_data s)) (\<lambda>c. Inr (Some c)) else Inr None)"

definition Explanation_render :: "explanation_body \<Rightarrow> exp_state \<Rightarrow> (bool list \<times> level_row list) option res" where
  "Explanation_render b s =
     (if \<not> exp_loading s \<and> truthy (exp_explanations s)
      then res_bind (Body_render b (exp_explanations s)) (\<lambda>v. Inr (Some v)) else Inr None)"

definition BotParametrs :: "jsv \<Rightarrow> (string list \<times> jsv list list) res" where
  "BotParametrs signals =
     res_bind (get_prop signals ''signalsEmulationResults'') (\<lambda>rs.
     res_bind (if truthy rs
               then res_bind (elements rs) (res_map (\<lambda>signal.
                 res_bind (get_prop signal ''profit'') (\<lambda>profit.
                 res_bind (get_prop signal ''parameters'') (\<lambda>parameters. Row_cells profit parameters))))
               else Inr []) (\<lambda>rows. Inr (BotParametrs_titles, rows)))"

definition Signals_render :: "sig_state \<Rightarrow> (string list \<times> jsv list list) option res" where
  "Signals_render s =
     (if \<not> sig_loading s then res_bind (BotParametrs (sig_signals s)) (\<lambda>v. Inr (Some v)) else Inr None)"

record config_view =
  cv_title :: string
  cv_error :: "jsv option"
  cv_value :: jsv
  cv_saving :: bool

definition Configuration_render :: "cfg_state \<Rightarrow> config_view option res" where
  "Configuration_render s =
     (if Configuration_shows_editor s then
        res_bind (get_prop (cfg_config s) ''config'') (\<lambda>v.
          Inr (Some \<lparr>cv_title = (if truthy (cfg_isValid s) then ''Config is valid'' else ''Config is invalid''),
                     cv_error = (if truthy (cfg_isValid s) then None else Some (cfg_errorMessage s)),
                     cv_value = v, cv_saving = cfg_savingConfig s\<rparr>))
      else Inr None)"

text \<open>\<^verbatim>\<open>components/Configuration/Editor.js\<close>: the place of the cursor and the button, and what it sends.\<close>

record editor_view =
  ev_position :: "nat \<times> nat"
  ev_disabled :: bool
  ev_loading :: bool

definition Editor_render :: "bool \<Rightarrow> bool \<Rightarrow> editor \<Rightarrow> editor_view" where
  "Editor_render isValid savingConfig e =
     \<lparr>ev_position = (ed_currentLineNumber e, ed_currentColumnIndex e),
      ev_disabled = Editor_save_disabled isValid e, ev_loading = savingConfig\<rparr>"

definition Editor_saveConfig :: "editor \<Rightarrow> jsv" where
  "Editor_saveConfig e = ed_text e"

text \<open>\<^verbatim>\<open>containers/PostponedFills\<close>: the table, or the text that there is no data, and the dialog.\<close>

definition fill_of :: "jsv \<Rightarrow> (string \<times> jsv) res" where
  "fill_of x =
     res_bind (get_prop x ''id'') (\<lambda>i.
     res_bind (get_prop x ''hedgeDispositionSide'') (\<lambda>side.
       case i of JStr k \<Rightarrow> Inr (k, side) | JArr _ \<Rightarrow> Inl OutOfModel | _ \<Rightarrow> Inl TypeError))"

definition fills_table :: "jsv \<Rightarrow> fill_line list option res" where
  "fills_table fills =
     res_bind (get_prop fills ''length'') (\<lambda>n.
       if \<not> truthy n then Inr None
       else res_bind (elements fills) (\<lambda>xs. res_bind (res_map fill_of xs) (\<lambda>fs. Inr (Some (renderTable fs)))))"

definition PostponedFills_render :: "ppf_state \<Rightarrow> (fill_line list option \<times> bool \<times> jsv option) option res" where
  "PostponedFills_render s =
     (if \<not> ppf_loading s \<and> truthy (ppf_postponedFills s)
      then res_bind (fills_table (ppf_postponedFills s)) (\<lambda>t.
           res_bind (renderJson (ppf_modalData s)) (\<lambda>j. Inr (Some (t, truthy (ppf_modalData s), j))))
      else Inr None)"

section \<open>Trade signals\<close>

text \<open>
  \<^verbatim>\<open>containers/TradeSignals\<close>: the rows are built by the page itself, so the boundary around them has
  nothing below it that could throw.
\<close>

definition TradeSignals_titles :: "string list" where
  "TradeSignals_titles = [''Date'', ''Source'', ''Market Regime'', ''Imbalance Signal'', ''Data'']"

definition signals_table :: "jsv \<Rightarrow> (string list \<times> (jsv \<times> signal_cell) list) option res" where
  "signals_table tradeSignals =
     res_bind (get_prop tradeSignals ''length'') (\<lambda>n.
       if num_less num_zero (js_to_num n)
       then res_bind (elements tradeSignals) (\<lambda>xs.
            res_bind (res_map signal_row xs) (\<lambda>rows. Inr (Some (TradeSignals_titles, rows))))
       else Inr None)"

definition TradeSignals_render ::
  "ws_state \<Rightarrow> boundary option \<Rightarrow> (boundary option \<times> (string list \<times> (jsv \<times> signal_cell) list) option body) res" where
  "TradeSignals_render st b =
     (if ws_isConnected st \<and> ws_subscribedTradeSignals st \<and> truthy (ws_tradeSignals st)
      then res_bind (signals_table (ws_tradeSignals st)) (\<lambda>v. Inr (guarded_body (Inr v) b))
      else Inr (None, Spinner))"

section \<open>Signing in and up\<close>

record field_view =
  fv_type :: string
  fv_id :: string
  fv_placeholder :: string
  fv_value :: string
  fv_class :: string
  fv_label :: "string option"

definition field_view_of :: "form \<Rightarrow> string \<times> string \<times> string \<Rightarrow> input \<Rightarrow> field_view" where
  "field_view_of f = (\<lambda>(ty, ident, placeholder) i.
     \<lparr>fv_type = ty, fv_id = ident, fv_placeholder = placeholder, fv_value = fm_values f (in_name i),
      fv_class = fst (Input_render i f), fv_label = snd (Input_render i f)\<rparr>)"

record form_view =
  fw_fields :: "field_view list"
  fw_remember :: "string option"
  fw_error :: "jsv option"
  fw_loading :: bool
  fw_button :: string

text \<open>The flag of the login form that is sent with it and shown nowhere.\<close>

definition Login_onRemember :: "bool \<Rightarrow> bool \<Rightarrow> bool" where
  "Login_onRemember checked rememberme = checked"

definition Login_render :: "form \<Rightarrow> form_view" where
  "Login_render f =
     \<lparr>fw_fields = map2 (field_view_of f)
        [(''text'', ''username'', ''Your UserName''), (''password'', ''password'', ''Password'')] Login_inputs,
      fw_remember = Some ''Remember me'',
      fw_error = (if truthy (fm_error f) then Some (fm_error f) else None),
      fw_loading = fm_submitting f, fw_button = ''Log In''\<rparr>"

definition Register_render :: "form \<Rightarrow> form_view" where
  "Register_render f =
     \<lparr>fw_fields = map2 (field_view_of f)
        [(''text'', ''username'', ''Your Username''), (''email'', ''email'', ''Your Email''),
         (''password'', ''password-2'', ''Password''), (''password'', ''password-4'', ''Confirm Password'')]
        Register_inputs,
      fw_remember = None,
      fw_error = (if truthy (fm_error f) then Some (fm_error f) else None),
      fw_loading = fm_submitting f, fw_button = ''Sign Up''\<rparr>"

text \<open>\<^verbatim>\<open>AuthenticationContainer.js\<close>: the logo, the one tab that is enabled, and the form of the address.\<close>

record auth_view =
  av_logo :: "string list"
  av_tabs :: "(string \<times> string) list"
  av_content :: "form_view + string"

definition AuthenticationContainer_render :: "matcher \<Rightarrow> string \<Rightarrow> string \<Rightarrow> form \<Rightarrow> auth_view" where
  "AuthenticationContainer_render m clientDomain pathname f =
     \<lparr>av_logo = getLogoImage clientDomain, av_tabs = [(''/login'', ''Log In'')],
      av_content = (case AuthenticationContainer_content m pathname of
          LoginPage \<Rightarrow> Inl (Login_render f)
        | RegisterPage \<Rightarrow> Inl (Register_render f)
        | AuthRedirect p \<Rightarrow> Inr p)\<rparr>"

section \<open>Components no page uses\<close>

text \<open>
  \<^verbatim>\<open>components/Validation/Input.js\<close>, an input that is given its error, and \<^verbatim>\<open>ErrorBoundary.js\<close>, whose
  state is that of the other boundaries.
\<close>

definition Validation_Input_render :: "string \<Rightarrow> string \<times> string option" where
  "Validation_Input_render error =
     (if truthy_str error then (''text-field w-input text-field-error'', Some error)
      else (''text-field w-input'', None))"

definition ErrorBoundary_didCatch :: "js_error \<Rightarrow> boundary \<Rightarrow> boundary" where
  "ErrorBoundary_didCatch error b = b\<lparr>eb_hasError := True\<rparr>"

definition ErrorBoundary_render :: "boundary \<Rightarrow> 'v res \<Rightarrow> 'v shown res" where
  "ErrorBoundary_render b children =
     (if eb_hasError b then Inr (Fallback ''Something went wrong.'')
      else res_bind children (\<lambda>v. Inr (Children v)))"

text \<open>The old boundary is the new one with its own text.\<close>

lemma ErrorBoundary_as_hoc:
  "ErrorBoundary_render = ErrorBoundaryHoc_render ''Something went wrong.''"
  "ErrorBoundary_didCatch = getDerivedStateFromError"
  by (simp_all add: fun_eq_iff ErrorBoundary_render_def ErrorBoundaryHoc_render_def
      ErrorBoundary_didCatch_def getDerivedStateFromError_def)

section \<open>Choosing a role\<close>

lemma role_names_strings [simp]: "role_names (JArr (map JStr roles)) = Inr roles"
  by (simp add: role_names_def) (induction roles; simp)

text \<open>The user in the row \<open>i\<close> is the only one with this id.\<close>

definition row_of :: "nat \<Rightarrow> string \<Rightarrow> users_state \<Rightarrow> bool" where
  "row_of i userId s \<longleftrightarrow>
     i < length (usr_users s) \<and> distinct (map user_id (usr_users s)) \<and> user_id (usr_users s ! i) = userId"

definition with_role :: "nat \<Rightarrow> string \<Rightarrow> users_state \<Rightarrow> users_state" where
  "with_role i v s = s\<lparr>usr_users := (usr_users s)[i := (usr_users s ! i)\<lparr>user_role := v\<rparr>]\<rparr>"

lemma role_click_at:
  assumes "row_of i userId s"
  shows "role_click userId v s = (None, with_role i v s)"
proof (cases rule: find_index_cases [of "\<lambda>u. user_id u = userId" "usr_users s"])
  case absent
  with assms show ?thesis by (metis nth_mem row_of_def)
next
  case (found k)
  then have "k = i" using assms by (auto simp: row_of_def distinct_conv_nth)
  with found updateUserRole_found [of userId s k v] show ?thesis by (simp add: role_click_def with_role_def)
qed

lemma row_of_with_role: "row_of i userId s \<Longrightarrow> row_of i userId (with_role i v s)"
  using list_update_same_conv [of i "map user_id (usr_users s)" userId]
  by (auto simp: row_of_def with_role_def map_update)

interpretation role: repeatable "role_click userId v" "row_of i userId" id for i userId v
proof
  fix s assume row: "row_of i userId s"
  note at = role_click_at [OF row, of v] and row' = row_of_with_role [OF row, of v]
  show "fst (role_click userId v s) = None" and "row_of i userId (snd (role_click userId v s))"
    using at row' by simp_all
  show "id (snd (role_click userId v (snd (role_click userId v s)))) = id (snd (role_click userId v s))"
    using at role_click_at [OF row', of v] row by (simp add: with_role_def row_of_def)
qed

lemma Item_role_names:
  assumes "k < length roles" and "roles ! k \<noteq> []" and "distinct (map to_upper roles)"
    and "user_role u = to_upper (roles ! k)"
  shows "Item_role u roles = Some (roles ! k)"
proof -
  obtain r where r: "List.find (\<lambda>r. to_upper r = user_role u) roles = Some r"
    using assms(4) nth_mem [OF assms(1)]
    by (cases "List.find (\<lambda>r. to_upper r = user_role u) roles") (simp_all add: find_None_iff, blast)
  then obtain j where "j < length roles" "roles ! j = r" "to_upper r = to_upper (roles ! k)"
    using assms(4) by (auto simp: find_Some_iff)
  then have "r = roles ! k" using assms(1,3) by (auto simp: distinct_conv_nth)
  with r assms(2) show ?thesis by (simp add: Item_role_def)
qed

lemma Item_render_strings:
  "Item_render dateText (JArr (map JStr roles)) sub u = Inr r \<longleftrightarrow>
    (\<exists>n e c. get_prop (user_rest u) ''userName'' = Inr n \<and> get_prop (user_rest u) ''email'' = Inr e
       \<and> get_prop (user_rest u) ''creationDate'' = Inr c
       \<and> r = \<lparr>ur_name = n, ur_email = e, ur_date = dateText c,
            ur_role = (case Item_role u roles of Some r \<Rightarrow> JStr r | None \<Rightarrow> JUndef),
            ur_entries = role_entries (user_id u) roles, ur_saving = sub\<rparr>)"
  by (auto simp: Item_render_def res_bind_eq_Inr)

lemma res_map_all2: "res_map f xs = Inr ys \<longleftrightarrow> list_all2 (\<lambda>x y. f x = Inr y) xs ys"
proof (induction xs arbitrary: ys)
  case (Cons x xs)
  then show ?case by (cases ys) (auto simp: res_bind_eq_Inr)
qed (auto simp: eq_commute)

text \<open>
  C32: choosing a role changes the page in one place. On a page of users with different ids, a click on
  an entry of the drop-down of a row does not throw, and the page after it is the page before it with
  that row showing the chosen role.
\<close>

theorem choosing_role_shows_it:
  assumes "usr_roles s = JArr (map JStr roles)" and "distinct (map to_upper roles)"
    and "distinct (map user_id (usr_users s))"
    and page: "Users_List dateText sub s = Inr (Some rows)"
    and "i < length rows" and "k < length roles" and "roles ! k \<noteq> []"
  shows "\<exists>s'. click_entry (ur_entries (rows ! i)) k s = (None, s')
    \<and> Users_List dateText sub s' = Inr (Some (rows[i := (rows ! i)\<lparr>ur_role := JStr (roles ! k)\<rparr>]))"
proof -
  let ?us = "usr_users s" and ?row = "\<lambda>u. Item_render dateText (usr_roles s) (sub (user_id u)) u"
  let ?v = "to_upper (roles ! k)"
  have shown: "\<not> usr_loading s" and rows: "res_map ?row ?us = Inr rows"
    using page by (auto simp: Users_List_def Users_List_shows_def res_bind_eq_Inr split: if_splits)
  then have len: "length rows = length ?us" and nth: "\<And>j. j < length ?us \<Longrightarrow> ?row (?us ! j) = Inr (rows ! j)"
    by (auto simp: res_map_all2 list_all2_conv_all_nth)
  let ?u = "?us ! i"
  have u: "?row ?u = Inr (rows ! i)" using nth len assms(5) by simp
  then have entries: "ur_entries (rows ! i) = role_entries (user_id ?u) roles"
    unfolding assms(1) Item_render_strings by auto
  have row: "row_of i (user_id ?u) s" using len assms(3,5) by (simp add: row_of_def)
  have "el_onClick (role_entries (user_id ?u) roles ! k) = Some (role_click (user_id ?u) ?v)"
    and "el_displayName (role_entries (user_id ?u) roles ! k) \<noteq> Some ''NavLink''"
    and "k < length (role_entries (user_id ?u) roles)"
    using assms(6) by (simp_all add: role_entries_def)
  with role.click_as_once [OF row, of k "role_entries (user_id ?u) roles" ?v]
  have click: "click_entry (ur_entries (rows ! i)) k s = (None, with_role i ?v s)"
    using role_click_at [OF row, of ?v] entries by (auto simp: prod_eq_iff)
  have "?row (?u\<lparr>user_role := ?v\<rparr>) = Inr ((rows ! i)\<lparr>ur_role := JStr (roles ! k)\<rparr>)"
    using u Item_role_names [OF assms(6,7,2), of "?u\<lparr>user_role := ?v\<rparr>"]
    unfolding assms(1) Item_render_strings by auto
  then have "res_map ?row (?us[i := ?u\<lparr>user_role := ?v\<rparr>]) = Inr (rows[i := (rows ! i)\<lparr>ur_role := JStr (roles ! k)\<rparr>])"
    using len nth assms(5) by (auto simp: res_map_all2 list_all2_conv_all_nth nth_list_update)
  with shown have "Users_List dateText sub (with_role i ?v s) = Inr (Some (rows[i := (rows ! i)\<lparr>ur_role := JStr (roles ! k)\<rparr>]))"
    by (simp add: Users_List_def Users_List_shows_def with_role_def)
  with click show ?thesis by blast
qed

definition demo_users :: users_state where
  "demo_users =
     \<lparr>usr_users = [\<lparr>user_id = ''1'', user_role = ''ADMIN'', user_rest = JObj []\<rparr>,
                   \<lparr>user_id = ''2'', user_role = ''USER'', user_rest = JObj []\<rparr>],
      usr_roles = JArr [JStr ''Admin'', JStr ''User''], usr_loading = False\<rparr>"

theorem choosing_role_shows_it_witness:
  "\<exists>rows s'. Users_List (\<lambda>_. []) (\<lambda>_. False) demo_users = Inr (Some rows)
    \<and> click_entry (ur_entries (rows ! 1)) 0 demo_users = (None, s')
    \<and> Users_List (\<lambda>_. []) (\<lambda>_. False) s' = Inr (Some (rows[1 := (rows ! 1)\<lparr>ur_role := JStr ''Admin''\<rparr>]))"
proof -
  have up: "to_upper ''Admin'' = ''ADMIN''" "to_upper ''User'' = ''USER''" by code_simp+
  have "\<exists>rows. Users_List (\<lambda>_. []) (\<lambda>_. False) demo_users = Inr (Some rows) \<and> 1 < length rows"
    by (simp add: Users_List_def Users_List_shows_def demo_users_def Item_render_def role_names_def)
  then obtain rows where rows: "Users_List (\<lambda>_. []) (\<lambda>_. False) demo_users = Inr (Some rows)" "1 < length rows"
    by blast
  have "usr_roles demo_users = JArr (map JStr [''Admin'', ''User''])" "distinct (map to_upper [''Admin'', ''User''])"
    "distinct (map user_id (usr_users demo_users))"
    by (simp_all add: demo_users_def up)
  from choosing_role_shows_it [OF this rows, of 0] rows show ?thesis by auto
qed

section \<open>The balances can be shown\<close>

lemma get_prop_any: "get_prop v k = Inr x \<Longrightarrow> \<exists>y. get_prop v k' = Inr y"
  by (cases v) auto

lemma exchange_of_item:
  assumes "currency_key i = Inr k" and "\<And>x. get_prop i ''exchangeId'' = Inr x \<Longrightarrow> \<not> has_object x"
  shows "\<exists>e. exchange_of i = Inr e"
proof -
  obtain c where "get_prop i ''currencyCode'' = Inr c"
    using assms(1) by (auto simp: currency_key_def res_bind_eq_Inr)
  then obtain x a where "get_prop i ''exchangeId'' = Inr x" "get_prop i ''value'' = Inr a"
    using get_prop_any [of i] by metis
  then show ?thesis using assms(2) by (auto simp: exchange_of_def)
qed

lemma res_map_total: "(\<And>x. x \<in> set xs \<Longrightarrow> \<exists>y. f x = Inr y) \<Longrightarrow> \<exists>ys. res_map f xs = Inr ys"
  by (induction xs) (auto simp: res_bind_eq_Inr)

text \<open>The names of the exchanges in a message are not objects.\<close>

definition plain_names :: "jsv \<Rightarrow> bool" where
  "plain_names v \<longleftrightarrow>
     (\<forall>ps k c items i x. v = JObj ps \<longrightarrow> (k, c) \<in> set ps \<longrightarrow> get_prop c ''exchanges'' = Inr (JArr items) \<longrightarrow>
        i \<in> set items \<longrightarrow> get_prop i ''exchangeId'' = Inr x \<longrightarrow> \<not> has_object x)"

lemma balances_of_typed:
  assumes "balances_typed (JObj ps)" and "plain_names (JObj ps)"
  shows "\<exists>bs. balances_of (JObj ps) = Inr bs \<and> map fst bs = map fst ps"
proof -
  have "\<exists>b. currency_of c = Inr b" if kc: "(k, c) \<in> set ps" for k c
  proof -
    obtain items t where c: "c = JObj [(''exchanges'', JArr items), (''total'', t)]"
      and keys: "\<forall>i \<in> set items. currency_key i = Inr k"
      using assms(1) kc by (auto simp: balances_typed_def balance_entry_def)
    have "\<exists>e. exchange_of i = Inr e" if "i \<in> set items" for i
      using exchange_of_item [of i k] keys that kc c assms(2) by (fastforce simp: plain_names_def)
    then obtain es where "res_map exchange_of items = Inr es" using res_map_total by metis
    then show ?thesis by (simp add: currency_of_def c)
  qed
  then have "\<exists>y. (case x of (k, c) \<Rightarrow> res_bind (currency_of c) (\<lambda>b. Inr (k, b))) = Inr y" if "x \<in> set ps" for x
    using that by (cases x) fastforce
  then obtain bs where bs: "balances_of (JObj ps) = Inr bs"
    using res_map_total [of ps "\<lambda>(k, c). res_bind (currency_of c) (\<lambda>b. Inr (k, b))"] by auto
  then have "list_all2 (\<lambda>x y. fst y = fst x) ps bs"
    by (auto simp: res_map_all2 res_bind_eq_Inr elim!: list_all2_mono)
  then have "map fst bs = map fst ps" by (induction rule: list_all2_induct) simp_all
  with bs show ?thesis by blast
qed

lemma Balances_List_keys: "mset (map fst (Balances_List obj)) = mset (map fst obj)"
proof -
  have "mset (map fst (Balances_List obj)) = mset (own_keys (sortByDescending obj))"
    by (simp add: Balances_List_def Let_def o_def)
  also have "\<dots> = mset (map fst (sortByDescending obj))" by (rule mset_own_keys)
  also have "\<dots> = mset (map fst obj)" by (simp add: sortByDescending_keys mset_own_keys)
  finally show ?thesis .
qed

text \<open>
  C23: the balances page does not fail. In every state the container can reach, whatever texts the
  server sent, the page shows its spinner or the list with each currency of the data once, and never
  the text of the boundary, as long as no exchange is named by an object.
\<close>

theorem balances_page_never_fails:
  assumes "loop_start l" and "(loop_step decode)\<^sup>*\<^sup>* l l'" and st: "st = ws_st (lp_ws l')"
    and "\<not> eb_hasError (boundary_at b)" and "plain_names (ws_balances st)"
  shows "case snd (Balances_render st b) of
      Spinner \<Rightarrow> \<not> (ws_isConnected st \<and> ws_subscribedBalances st \<and> truthy (ws_balances st))
    | Body (Children rows) \<Rightarrow> \<exists>ps. ws_balances st = JObj ps \<and> mset (map fst rows) = mset (map fst ps)
    | Body (Fallback t) \<Rightarrow> False"
proof (cases "ws_isConnected st \<and> ws_subscribedBalances st \<and> truthy (ws_balances st)")
  case True
  have "balances_typed (ws_balances st)"
    using ws_types.inv_reach [OF assms(1,2)] st by (simp add: loop_typed_def state_typed_def)
  moreover from this obtain ps where ps: "ws_balances st = JObj ps"
    using True by (auto simp: balances_typed_def)
  ultimately obtain bs where "balances_of (ws_balances st) = Inr bs" "map fst bs = map fst ps"
    using balances_of_typed [of ps] assms(5) by auto
  moreover from this have "mset (map fst (Balances_List bs)) = mset (map fst ps)"
    using Balances_List_keys [of bs] by simp
  ultimately show ?thesis using True ps assms(4) by (simp add: Balances_render_def guarded_body_def)
next
  case False
  then have "Balances_render st b = (None, Spinner)" by (simp only: Balances_render_def if_False)
  with False show ?thesis by simp
qed


theorem balances_page_never_fails_witness:
  "\<exists>rows. snd (Balances_render (ws_st (lp_ws (run_choices Inr demo_balance_run demo_loop))) None) = Body (Children rows)
     \<and> mset (map fst rows) = {#''BTC''#}"
proof -
  let ?st = "ws_st (lp_ws (run_choices Inr demo_balance_run demo_loop))"
  have b: "ws_balances ?st = JObj [(''BTC'', JObj [(''exchanges'', JArr [JObj [(''currencyCode'', JStr ''BTC''),
      (''value'', JStr ''2'')]]), (''total'', JStr ''02'')])]" and "ws_isConnected ?st \<and> ws_subscribedBalances ?st"
    by code_simp+
  moreover have "plain_names (ws_balances ?st)" unfolding b plain_names_def by auto
  ultimately show ?thesis
    using balances_page_never_fails [OF demo_loop_start run_choices_reach refl, of None Inr demo_balance_run]
    by (auto split: body.splits shown.splits)
qed

section \<open>Throws on the other pages\<close>

text \<open>Nothing above the inner boundary of the profit page throws, so the outer one never shows its text.\<close>

lemma getProfit_total: "\<exists>v. getProfit w k = Inr v"
  using get_prop_truthy [of w k] by (auto simp: getProfit_def)

lemma PL_indicators_total: "\<exists>boxes. PL_indicators usd profits = Inr boxes"
proof -
  let ?box = "\<lambda>raw over. \<lambda>(key, title). res_bind (getProfit raw key) (\<lambda>r.
      res_bind (getProfit over key) (\<lambda>o'. Inr (PLIndicator usd r o' title)))"
  have "\<exists>y. ?box raw over x = Inr y" for raw over x
    using getProfit_total [of raw "fst x"] getProfit_total [of over "fst x"] by (auto simp: split_beta)
  then have boxes: "\<exists>bs. res_map (?box raw over) ks = Inr bs" for raw over ks by (rule res_map_total)
  obtain raw over where "getProfit profits ''rawProfit'' = Inr raw" "getProfit profits ''profitOverMarket'' = Inr over"
    using getProfit_total by metis
  with boxes [of raw over] show ?thesis unfolding PL_indicators_def getProfit_def [symmetric]
    by (simp del: res_map.simps)
qed

lemma PL_outer_boundary_idle:
  assumes "\<not> eb_hasError outer"
  shows "\<exists>inner' v. PL_render usd trades st (outer, inner) = (outer, Children (inner', v))"
  using assms PL_indicators_total [of usd "ws_profits st"]
  by (auto simp: PL_render_def PL_Body_def split: prod.split)

text \<open>
  The graph of the profit, the explanations, the signals and the configuration stand under no boundary
  but the global one: data the page cannot read takes the whole application.
\<close>

lemma unreadable_graph_takes_the_page:
  assumes "\<not> eb_hasError (sh_global sh)" and "\<not> plg_loading g" and "truthy (plg_data g)"
    and "elements (plg_data g) = Inl e"
  shows "snd (App_shell ex d s hdr (PLGraph_render g) sh) = Fallback GlobalErrorBoundary"
proof -
  have "PLGraph_render g = Inl e" using assms(2-4) by (simp add: PLGraph_render_def PLGraph_GraphNow_def points_of_def)
  then show ?thesis by (rule App_shell_throws [OF assms(1)])
qed

text \<open>Whoever is not signed in gets the form at its address.\<close>

lemma sign_in_form:
  assumes "documented_matcher m"
  shows "av_content (AuthenticationContainer_render m d ''/login'' f) = Inl (Login_render f)"
proof -
  have "plain_path ''/login''" by code_simp
  then have "m ''/login'' 0 ''/login'' = Some []"
    using matcher_hit(1) [OF assms, of "''/login''" "[]" 0] by (simp add: address_def)
  then show ?thesis by (simp add: AuthenticationContainer_render_def AuthenticationContainer_content_def)
qed

text \<open>
  One signal whose payload is JSON but not the output of a model takes the whole application: the row
  reads its predictions above the boundary of the page.
\<close>

lemma res_map_throws: "x \<in> set xs \<Longrightarrow> f x = Inl e \<Longrightarrow> \<exists>e'. res_map f xs = Inl e'"
proof (induction xs)
  case (Cons y ys)
  then show ?case by (cases "f y"; cases "res_map f ys") auto
qed simp

lemma array_length_positive: "xs \<noteq> [] \<Longrightarrow> num_less num_zero (num_of_int (int (length xs)))"
  using num_less_val [of num_zero "num_of_int (int (length xs))"] by simp

lemma foreign_payload_takes_the_page:
  assumes "ws_isConnected st" and "ws_subscribedTradeSignals st" and "ws_tradeSignals st = JArr xs"
    and "x \<in> set xs" and "signal_row x = Inl e" and "\<not> eb_hasError (sh_global sh)"
  shows "snd (App_shell ex d s hdr (TradeSignals_render st b) sh) = Fallback GlobalErrorBoundary"
proof -
  obtain e' where "res_map signal_row xs = Inl e'" using res_map_throws [of x xs signal_row e] assms(4,5) by blast
  moreover have "xs \<noteq> []" using assms(4) by auto
  ultimately have "TradeSignals_render st b = Inl e'"
    using assms(1-3) array_length_positive [of xs] by (simp add: TradeSignals_render_def signals_table_def)
  then show ?thesis by (rule App_shell_throws [OF assms(6)])
qed

lemma empty_payload_throws: "signal_row (JObj [(''payload'', JStr ''{}'')]) = Inl TypeError"
  by code_simp

end
