(* ===== verification/Service_Worker.thy ===== *)
theory Service_Worker
  imports Js_Prelude
begin

text \<open>
  \<^verbatim>\<open>serviceWorker.js\<close> and the entry point \<^verbatim>\<open>index.js\<close>, which calls \<^verbatim>\<open>unregister\<close>. The regular expression that
  recognises a local host is modelled by its own matcher. The promises and events of the browser are
  waiting points: a call of the browser's interface is recorded, and what runs after it is a step of
  its own.
\<close>

section \<open>Regular expressions\<close>

text \<open>
  The constructs the source uses: a class of characters, sequence, alternatives, an optional part and
  a fixed number of repetitions. \<open>rests\<close> lists what can be left of a text, in the order a matcher that
  backtracks tries; the anchors of the expression ask for a match with nothing left.
\<close>

datatype regex = OneOf string | Seq regex regex | Alt regex regex | Opt regex | Rep nat regex

primrec rests :: "regex \<Rightarrow> string \<Rightarrow> string list" where
  "rests (OneOf cs) s = (case s of [] \<Rightarrow> [] | x # xs \<Rightarrow> if x \<in> set cs then [xs] else [])"
| "rests (Seq a b) s = concat (map (rests b) (rests a s))"
| "rests (Alt a b) s = rests a s @ rests b s"
| "rests (Opt a) s = rests a s @ [s]"
| "rests (Rep n a) s = ((\<lambda>ss. concat (map (rests a) ss)) ^^ n) [s]"

definition regex_test :: "regex \<Rightarrow> string \<Rightarrow> bool" where
  "regex_test r s \<longleftrightarrow> [] \<in> set (rests r s)"

abbreviation digit :: regex where
  "digit \<equiv> OneOf ''0123456789''"

definition octet :: regex where
  "octet =
     Alt (Seq (OneOf ''2'') (Seq (OneOf ''5'') (OneOf ''012345'')))
    (Alt (Seq (OneOf ''2'') (Seq (OneOf ''01234'') digit))
         (Seq (Opt (OneOf ''01'')) (Seq digit (Opt digit))))"

definition loopback :: regex where
  "loopback = Seq (OneOf ''1'') (Seq (OneOf ''2'') (Seq (OneOf ''7'') (Rep 3 (Seq (OneOf ''.'') octet))))"

definition isLocalhost :: "string \<Rightarrow> bool" where
  "isLocalhost hostname \<longleftrightarrow>
     hostname = ''localhost'' \<or> hostname = ''[::1]'' \<or> regex_test loopback hostname"

section \<open>The worker\<close>

text \<open>
  What the page is given: the build, the browser, the address the files are served from with its
  origin (\<open>None\<close> when it is no address), the page's own origin and host, and which callbacks were passed.
\<close>

record page_env =
  pe_production :: bool
  pe_supported :: bool
  pe_publicUrl :: string
  pe_publicOrigin :: "string option"
  pe_origin :: string
  pe_hostname :: string
  pe_onUpdate :: bool
  pe_onSuccess :: bool

datatype sw_call = Fetch string | Register string | Unregister | Reload | OnUpdate | OnSuccess

datatype sw_wait = AwaitLoad | AwaitFetch string | AwaitRegister | AwaitReadyLog | AwaitReadyMissing
  | AwaitUnregistered | AwaitReadyQuit

record sw =
  sw_waits :: "sw_wait list"
  sw_calls :: "sw_call list"
  sw_log :: "string list"
  sw_onupdatefound :: bool
  sw_onstatechange :: bool

definition sw_new :: sw where
  "sw_new = \<lparr>sw_waits = [], sw_calls = [], sw_log = [], sw_onupdatefound = False, sw_onstatechange = False\<rparr>"

definition sw_await :: "sw_wait \<Rightarrow> sw \<Rightarrow> sw" where
  "sw_await w s = s\<lparr>sw_waits := sw_waits s @ [w]\<rparr>"

definition api_call :: "sw_call \<Rightarrow> sw \<Rightarrow> sw" where
  "api_call c s = s\<lparr>sw_calls := sw_calls s @ [c]\<rparr>"

definition console_log :: "string \<Rightarrow> sw \<Rightarrow> sw" where
  "console_log t s = s\<lparr>sw_log := sw_log s @ [t]\<rparr>"

definition register_worker :: "page_env \<Rightarrow> sw \<Rightarrow> js_error option \<times> sw" where
  "register_worker e s =
     (if pe_production e \<and> pe_supported e then
        (case pe_publicOrigin e of
           None \<Rightarrow> (Some TypeError, s)
         | Some org \<Rightarrow> (None, if org \<noteq> pe_origin e then s else sw_await AwaitLoad s))
      else (None, s))"

definition registerValidSW :: "string \<Rightarrow> sw \<Rightarrow> sw" where
  "registerValidSW swUrl s = sw_await AwaitRegister (api_call (Register swUrl) s)"

definition checkValidServiceWorker :: "string \<Rightarrow> sw \<Rightarrow> sw" where
  "checkValidServiceWorker swUrl s = sw_await (AwaitFetch swUrl) (api_call (Fetch swUrl) s)"

definition on_load :: "page_env \<Rightarrow> sw \<Rightarrow> sw" where
  "on_load e s =
     (let swUrl = pe_publicUrl e @ ''/service-worker.js''
      in if isLocalhost (pe_hostname e) then sw_await AwaitReadyLog (checkValidServiceWorker swUrl s)
         else registerValidSW swUrl s)"

text \<open>The answer to the check: a status and the type of the content, or no connection.\<close>

definition contains_str :: "string \<Rightarrow> string \<Rightarrow> bool" where
  "contains_str pat t \<longleftrightarrow> list_ex (prefix pat) (suffixes t)"

definition on_fetch :: "string \<Rightarrow> (nat \<times> string option) option \<Rightarrow> sw \<Rightarrow> sw" where
  "on_fetch swUrl answer s =
     (case answer of
        None \<Rightarrow> console_log ''No internet connection found. App is running in offline mode.'' s
      | Some (status, contentType) \<Rightarrow>
          if status = 404 \<or> (case contentType of None \<Rightarrow> False | Some t \<Rightarrow> \<not> contains_str ''javascript'' t)
          then sw_await AwaitReadyMissing s else registerValidSW swUrl s)"

definition on_registered :: "bool \<Rightarrow> sw \<Rightarrow> sw" where
  "on_registered fulfilled s =
     (if fulfilled then s\<lparr>sw_onupdatefound := True\<rparr>
      else console_log ''Error during service worker registration:'' s)"

definition onupdatefound :: "bool \<Rightarrow> sw \<Rightarrow> sw" where
  "onupdatefound installing s = (if \<not> installing then s else s\<lparr>sw_onstatechange := True\<rparr>)"

definition onstatechange :: "page_env \<Rightarrow> string \<Rightarrow> bool \<Rightarrow> sw \<Rightarrow> sw" where
  "onstatechange e state controller s =
     (if state = ''installed'' then
        (if controller then
           (let s1 = console_log ''New content is available and will be used when all tabs for this page are closed. See https://bit.ly/CRA-PWA.'' s
            in if pe_onUpdate e then api_call OnUpdate s1 else s1)
         else
           (let s1 = console_log ''Content is cached for offline use.'' s
            in if pe_onSuccess e then api_call OnSuccess s1 else s1))
      else s)"

definition unregister :: "page_env \<Rightarrow> sw \<Rightarrow> sw" where
  "unregister e s = (if pe_supported e then sw_await AwaitReadyQuit s else s)"

text \<open>\<^verbatim>\<open>index.js\<close> after it has rendered the application.\<close>

definition index_start :: "page_env \<Rightarrow> sw" where
  "index_start e = unregister e sw_new"

text \<open>What runs when a waiting point is reached, with the answer the browser gives there.\<close>

record sw_answer =
  an_fetch :: "(nat \<times> string option) option"
  an_fulfilled :: bool

fun resume_wait :: "page_env \<Rightarrow> sw_answer \<Rightarrow> sw_wait \<Rightarrow> sw \<Rightarrow> sw" where
  "resume_wait e a AwaitLoad s = on_load e s"
| "resume_wait e a (AwaitFetch swUrl) s = on_fetch swUrl (an_fetch a) s"
| "resume_wait e a AwaitRegister s = on_registered (an_fulfilled a) s"
| "resume_wait e a AwaitReadyLog s =
     console_log ''This web app is being served cache-first by a service worker. To learn more, visit https://bit.ly/CRA-PWA'' s"
| "resume_wait e a AwaitReadyMissing s = sw_await AwaitUnregistered (api_call Unregister s)"
| "resume_wait e a AwaitUnregistered s = (if an_fulfilled a then api_call Reload s else s)"
| "resume_wait e a AwaitReadyQuit s = api_call Unregister s"

definition drop_wait :: "nat \<Rightarrow> sw \<Rightarrow> sw" where
  "drop_wait i s = s\<lparr>sw_waits := take i (sw_waits s) @ drop (Suc i) (sw_waits s)\<rparr>"

inductive sw_step :: "page_env \<Rightarrow> sw \<Rightarrow> sw \<Rightarrow> bool" for e where
  reached: "i < length (sw_waits s) \<Longrightarrow> sw_step e s (resume_wait e a (sw_waits s ! i) (drop_wait i s))"
| found: "sw_onupdatefound s \<Longrightarrow> sw_step e s (onupdatefound installing s)"
| changed: "sw_onstatechange s \<Longrightarrow> sw_step e s (onstatechange e state controller s)"

section \<open>The local host\<close>

text \<open>The texts of an expression: the matcher leaves exactly what follows one of them.\<close>

primrec lang :: "regex \<Rightarrow> string set" where
  "lang (OneOf cs) = {[c] | c. c \<in> set cs}"
| "lang (Seq a b) = {v @ w | v w. v \<in> lang a \<and> w \<in> lang b}"
| "lang (Alt a b) = lang a \<union> lang b"
| "lang (Opt a) = insert [] (lang a)"
| "lang (Rep n a) = ((\<lambda>L. {v @ w | v w. v \<in> L \<and> w \<in> lang a}) ^^ n) {[]}"

lemma seq_rests:
  "(\<exists>u. u \<in> {v @ w | v w. v \<in> A \<and> w \<in> B} \<and> s = u @ t) \<longleftrightarrow> (\<exists>v w. v \<in> A \<and> w \<in> B \<and> s = v @ w @ t)"
proof
  assume "\<exists>u. u \<in> {v @ w | v w. v \<in> A \<and> w \<in> B} \<and> s = u @ t"
  then show "\<exists>v w. v \<in> A \<and> w \<in> B \<and> s = v @ w @ t" by auto
next
  assume "\<exists>v w. v \<in> A \<and> w \<in> B \<and> s = v @ w @ t"
  then obtain v w where "v \<in> A" "w \<in> B" "s = (v @ w) @ t" by auto
  then show "\<exists>u. u \<in> {v @ w | v w. v \<in> A \<and> w \<in> B} \<and> s = u @ t" by blast
qed

lemma rests_repeat:
  assumes "\<And>s t. t \<in> set (rests a s) \<longleftrightarrow> (\<exists>w. w \<in> lang a \<and> s = w @ t)"
  shows "t \<in> set (rests (Rep n a) s) \<longleftrightarrow> (\<exists>w. w \<in> lang (Rep n a) \<and> s = w @ t)"
proof (induction n arbitrary: t)
  case (Suc n)
  have "t \<in> set (rests (Rep (Suc n) a) s) \<longleftrightarrow> (\<exists>u. u \<in> set (rests (Rep n a) s) \<and> t \<in> set (rests a u))"
    by auto
  also have "\<dots> \<longleftrightarrow> (\<exists>v w. v \<in> lang (Rep n a) \<and> w \<in> lang a \<and> s = v @ w @ t)"
    unfolding Suc assms by blast
  also have "\<dots> \<longleftrightarrow> (\<exists>w. w \<in> lang (Rep (Suc n) a) \<and> s = w @ t)"
    by (simp only: lang.simps funpow.simps comp_apply seq_rests)
  finally show ?case .
qed auto

lemma rests_lang: "t \<in> set (rests r s) \<longleftrightarrow> (\<exists>w. w \<in> lang r \<and> s = w @ t)"
proof (induction r arbitrary: s t)
  case (OneOf cs)
  then show ?case by (cases s) auto
next
  case (Seq a b)
  have "t \<in> set (rests (Seq a b) s) \<longleftrightarrow> (\<exists>u. u \<in> set (rests a s) \<and> t \<in> set (rests b u))" by auto
  also have "\<dots> \<longleftrightarrow> (\<exists>v w. v \<in> lang a \<and> w \<in> lang b \<and> s = v @ w @ t)" unfolding Seq by blast
  also have "\<dots> \<longleftrightarrow> (\<exists>w. w \<in> lang (Seq a b) \<and> s = w @ t)"
    by (simp only: lang.simps seq_rests)
  finally show ?case .
next
  case (Rep n a)
  then show ?case by (rule rests_repeat)
qed auto

lemma regex_test_lang: "regex_test r s \<longleftrightarrow> s \<in> lang r"
  by (simp add: regex_test_def rests_lang)

text \<open>A part of an address: one to three digits with a value of at most 255.\<close>

definition octet_value :: "string \<Rightarrow> nat" where
  "octet_value w = foldl (\<lambda>n c. 10 * n + (of_char c - 48)) 0 w"

definition octet_ok :: "string \<Rightarrow> bool" where
  "octet_ok w \<longleftrightarrow> w \<noteq> [] \<and> length w \<le> 3 \<and> list_all (\<lambda>c. c \<in> set ''0123456789'') w \<and> octet_value w \<le> 255"

text \<open>Characters by their codes, so that the classes are intervals.\<close>

definition code :: "char \<Rightarrow> nat" where
  "code c = of_char c"

lemma in_interval: "b \<le> 256 \<Longrightarrow> c \<in> set (map char_of [a..<b]) \<longleftrightarrow> a \<le> code c \<and> code c < b"
proof
  assume "b \<le> 256" "c \<in> set (map char_of [a..<b])"
  then show "a \<le> code c \<and> code c < b" by (auto simp: code_def of_char_of)
next
  assume "b \<le> 256" "a \<le> code c \<and> code c < b"
  moreover have "c = char_of (code c)" by (simp add: code_def)
  ultimately show "c \<in> set (map char_of [a..<b])" by auto
qed

lemma in_class:
  "c \<in> set ''0123456789'' \<longleftrightarrow> 48 \<le> code c \<and> code c < 58"
  "c \<in> set ''01'' \<longleftrightarrow> 48 \<le> code c \<and> code c < 50"
  "c \<in> set ''01234'' \<longleftrightarrow> 48 \<le> code c \<and> code c < 53"
  "c \<in> set ''012345'' \<longleftrightarrow> 48 \<le> code c \<and> code c < 54"
  "c \<in> set ''2'' \<longleftrightarrow> 50 \<le> code c \<and> code c < 51"
  "c \<in> set ''5'' \<longleftrightarrow> 53 \<le> code c \<and> code c < 54"
proof -
  have "''0123456789'' = map char_of [48..<58 :: nat]" "''01'' = map char_of [48..<50 :: nat]"
    "''01234'' = map char_of [48..<53 :: nat]" "''012345'' = map char_of [48..<54 :: nat]"
    "''2'' = map char_of [50..<51 :: nat]" "''5'' = map char_of [53..<54 :: nat]"
    by code_simp+
  then show "c \<in> set ''0123456789'' \<longleftrightarrow> 48 \<le> code c \<and> code c < 58"
    "c \<in> set ''01'' \<longleftrightarrow> 48 \<le> code c \<and> code c < 50" "c \<in> set ''01234'' \<longleftrightarrow> 48 \<le> code c \<and> code c < 53"
    "c \<in> set ''012345'' \<longleftrightarrow> 48 \<le> code c \<and> code c < 54" "c \<in> set ''2'' \<longleftrightarrow> 50 \<le> code c \<and> code c < 51"
    "c \<in> set ''5'' \<longleftrightarrow> 53 \<le> code c \<and> code c < 54"
    by (simp_all only: in_interval)
qed

lemma three_digits:
  fixes x y z :: nat
  assumes "x < 10" and "y < 10" and "z < 10"
  shows "100 * x + 10 * y + z \<le> 255 \<longleftrightarrow> x < 2 \<or> x = 2 \<and> (y < 5 \<or> y = 5 \<and> z < 6)"
proof -
  consider "x < 2" | "x = 2" | "x > 2" by linarith
  then show ?thesis
  proof cases
    case 2
    consider "y < 5" | "y = 5" | "y > 5" by linarith
    then show ?thesis using 2 assms by cases auto
  qed (use assms in auto)
qed

text \<open>The three alternatives on texts of each length, for any classes of characters.\<close>

lemma test_alternatives:
  fixes p q r q' d z
  defines "R \<equiv> Alt (Seq (OneOf p) (Seq (OneOf q) (OneOf r)))
    (Alt (Seq (OneOf p) (Seq (OneOf q') (OneOf d))) (Seq (Opt (OneOf z)) (Seq (OneOf d) (Opt (OneOf d)))))"
  shows "\<not> regex_test R []" "regex_test R [a] \<longleftrightarrow> a \<in> set d"
    "regex_test R [a, b] \<longleftrightarrow> b \<in> set d \<and> (a \<in> set z \<or> a \<in> set d)"
    "regex_test R [a, b, c] \<longleftrightarrow> a \<in> set p \<and> b \<in> set q \<and> c \<in> set r
       \<or> a \<in> set p \<and> b \<in> set q' \<and> c \<in> set d \<or> a \<in> set z \<and> b \<in> set d \<and> c \<in> set d"
    "\<not> regex_test R (a # b # c # e # w)"
  by (auto simp: regex_test_def R_def)

lemma digit_codes:
  assumes "48 \<le> code a" and "code a < 58"
  obtains x where "code a = 48 + x" and "x < 10"
  using assms le_Suc_ex [of 48 "code a"] by auto

lemma octet_ok_three:
  "octet_ok [a, b, c] \<longleftrightarrow> 48 \<le> code b \<and> code b < 58 \<and> 48 \<le> code c \<and> code c < 58
     \<and> (48 \<le> code a \<and> code a < 50 \<or> code a = 50 \<and> (code b < 53 \<or> code b = 53 \<and> code c < 54))"
proof (cases "a \<in> set ''0123456789'' \<and> b \<in> set ''0123456789'' \<and> c \<in> set ''0123456789''")
  case True
  then obtain x y z where codes: "code a = 48 + x" "code b = 48 + y" "code c = 48 + z"
    and lt: "x < 10" "y < 10" "z < 10"
    unfolding in_class by (metis digit_codes)
  have "octet_value [a, b, c] = 100 * x + 10 * y + z"
    using codes by (simp add: octet_value_def flip: code_def)
  then have "octet_ok [a, b, c] \<longleftrightarrow> 100 * x + 10 * y + z \<le> 255"
    using True unfolding octet_ok_def list.pred_inject by (simp del: list.set)
  with three_digits [OF lt] codes lt show ?thesis by auto
next
  case False
  then have "\<not> octet_ok [a, b, c]" unfolding octet_ok_def list.pred_inject by blast
  with False show ?thesis unfolding in_class by auto
qed

lemma test_octet: "regex_test octet w \<longleftrightarrow> octet_ok w"
proof -
  consider "w = []" | a where "w = [a]" | a b where "w = [a, b]" | a b c where "w = [a, b, c]"
    | a b c d ws where "w = a # b # c # d # ws"
    by (metis list.exhaust)
  then show ?thesis
  proof cases
    case 1
    then show ?thesis by (simp only: octet_def test_alternatives) (simp add: octet_ok_def)
  next
    case (2 a)
    have "octet_value [a] \<le> 255" if "a \<in> set ''0123456789''"
      using that unfolding in_class by (simp add: octet_value_def flip: code_def) arith
    then show ?thesis unfolding 2 octet_def test_alternatives octet_ok_def list.pred_inject by fastforce
  next
    case (3 a b)
    have "octet_value [a, b] \<le> 255" if "a \<in> set ''0123456789''" "b \<in> set ''0123456789''"
      using that unfolding in_class by (simp add: octet_value_def flip: code_def) arith
    moreover have "a \<in> set ''01'' \<longrightarrow> a \<in> set ''0123456789''" unfolding in_class by auto
    ultimately show ?thesis unfolding 3 octet_def test_alternatives octet_ok_def list.pred_inject by fastforce
  next
    case (4 a b c)
    show ?thesis unfolding 4 octet_ok_three octet_def test_alternatives in_class by auto
  next
    case 5
    then show ?thesis by (simp only: octet_def test_alternatives) (simp add: octet_ok_def)
  qed
qed


text \<open>The hosts that are taken for local: the two names and the addresses from 127.0.0.0 to 127.255.255.255.\<close>

lemma lang_char: "h \<in> lang (Seq (OneOf [c]) r) \<longleftrightarrow> (\<exists>t. h = c # t \<and> t \<in> lang r)"
  by auto

theorem isLocalhost_addresses:
  "isLocalhost h \<longleftrightarrow> h = ''localhost'' \<or> h = ''[::1]''
     \<or> (\<exists>a b c. list_all octet_ok [a, b, c] \<and> h = ''127.'' @ a @ ''.'' @ b @ ''.'' @ c)"
proof -
  have oct: "lang octet = {w. octet_ok w}" using test_octet by (auto simp: regex_test_lang)
  let ?D = "{CHR ''.'' # w | w. octet_ok w}" and ?f = "\<lambda>L D. {v @ w | v w. v \<in> L \<and> w \<in> D}"
  have dot: "lang (Seq (OneOf ''.'') octet) = ?D" by (auto simp: oct)
  have one: "?f {[]} ?D = ?D" by auto
  have two: "?f ?D ?D = {CHR ''.'' # a @ CHR ''.'' # b | a b. octet_ok a \<and> octet_ok b}" (is "_ = ?T")
    by (intro set_eqI iffI; clarsimp) (blast, metis append_Cons)
  have three: "?f ?T ?D = {CHR ''.'' # a @ CHR ''.'' # b @ CHR ''.'' # c | a b c. octet_ok a \<and> octet_ok b \<and> octet_ok c}"
    by (intro set_eqI iffI; clarsimp) (metis append_Cons append_assoc)+
  have "lang (Rep 3 (Seq (OneOf ''.'') octet)) = ?f (?f (?f {[]} ?D) ?D) ?D"
    unfolding lang.simps(5) dot numeral_3_eq_3 funpow.simps comp_apply id_apply ..
  also have "\<dots> = {CHR ''.'' # a @ CHR ''.'' # b @ CHR ''.'' # c | a b c. octet_ok a \<and> octet_ok b \<and> octet_ok c}"
    unfolding one two three ..
  finally have rep: "lang (Rep 3 (Seq (OneOf ''.'') octet))
      = {CHR ''.'' # a @ CHR ''.'' # b @ CHR ''.'' # c | a b c. octet_ok a \<and> octet_ok b \<and> octet_ok c}" .
  have "h \<in> lang loopback \<longleftrightarrow> (\<exists>a b c. list_all octet_ok [a, b, c] \<and> h = ''127.'' @ a @ ''.'' @ b @ ''.'' @ c)"
    unfolding loopback_def lang_char rep mem_Collect_eq list.pred_inject by (auto, blast)
  then show ?thesis by (simp add: isLocalhost_def regex_test_lang)
qed

section \<open>What the worker is asked to do\<close>

lemmas sw_defs = on_load_def on_fetch_def on_registered_def onupdatefound_def onstatechange_def
  registerValidSW_def checkValidServiceWorker_def sw_await_def api_call_def console_log_def drop_wait_def Let_def

text \<open>
  The application as it stands: whatever the browser answers and in whatever order, it asks for
  nothing but the removal of a worker, and at most once.
\<close>

definition sw_quitting :: "sw \<Rightarrow> bool" where
  "sw_quitting s \<longleftrightarrow> \<not> sw_onupdatefound s \<and> \<not> sw_onstatechange s
     \<and> (sw_waits s = [] \<and> sw_calls s \<in> {[], [Unregister]} \<or> sw_waits s = [AwaitReadyQuit] \<and> sw_calls s = [])"

interpretation quitting: invariant_machine "\<lambda>s. s = index_start e" "sw_step e" sw_quitting for e
proof
  show "sw_quitting s" if "s = index_start e" for s
    using that by (simp add: index_start_def unregister_def sw_new_def sw_quitting_def sw_await_def)
  show "sw_quitting t" if "sw_quitting s" "sw_step e s t" for s t
    using that(2,1) by (cases rule: sw_step.cases) (auto simp: sw_quitting_def sw_defs)
qed

theorem application_registers_no_worker:
  assumes "(sw_step e)\<^sup>*\<^sup>* (index_start e) s"
  shows "sw_calls s = [] \<or> sw_calls s = [Unregister]"
  using quitting.inv_reach [OF refl assms] by (auto simp: sw_quitting_def)


text \<open>
  Were the application to call \<^verbatim>\<open>register\<close> instead, a worker would be asked for only in a production build
  from the page's own origin; on a local host only after its file was looked for; and the page would
  be reloaded only there, after the worker was removed.
\<close>

definition sw_eligible :: "page_env \<Rightarrow> bool" where
  "sw_eligible e \<longleftrightarrow> pe_production e \<and> pe_supported e \<and> pe_publicOrigin e = Some (pe_origin e)"

fun wait_regular :: "page_env \<Rightarrow> sw_call set \<Rightarrow> sw_wait \<Rightarrow> bool" where
  "wait_regular e cs (AwaitFetch u) \<longleftrightarrow>
     u = pe_publicUrl e @ ''/service-worker.js'' \<and> Fetch u \<in> cs \<and> isLocalhost (pe_hostname e)"
| "wait_regular e cs AwaitReadyMissing \<longleftrightarrow> isLocalhost (pe_hostname e)"
| "wait_regular e cs AwaitUnregistered \<longleftrightarrow> isLocalhost (pe_hostname e) \<and> Unregister \<in> cs"
| "wait_regular e cs AwaitReadyQuit \<longleftrightarrow> False"
| "wait_regular e cs _ \<longleftrightarrow> True"

definition sw_regular :: "page_env \<Rightarrow> sw \<Rightarrow> bool" where
  "sw_regular e s \<longleftrightarrow>
     (\<forall>w \<in> set (sw_waits s). sw_eligible e \<and> wait_regular e (set (sw_calls s)) w)
     \<and> (\<forall>u. Register u \<in> set (sw_calls s) \<longrightarrow> sw_eligible e \<and> u = pe_publicUrl e @ ''/service-worker.js''
          \<and> (isLocalhost (pe_hostname e) \<longrightarrow> Fetch u \<in> set (sw_calls s)))
     \<and> (Reload \<in> set (sw_calls s) \<longrightarrow> isLocalhost (pe_hostname e) \<and> Unregister \<in> set (sw_calls s))"

lemma wait_regular_more: "wait_regular e cs w \<Longrightarrow> cs \<subseteq> cs' \<Longrightarrow> wait_regular e cs' w"
  by (cases w) auto

lemma resume_regular:
  assumes "sw_regular e s" and "sw_eligible e" and "wait_regular e (set (sw_calls s)) w"
  shows "sw_regular e (resume_wait e a w s)"
  using assms
  by (cases w) (auto simp: sw_regular_def sw_defs intro: wait_regular_more split: option.split)

lemma drop_wait_simps [simp]:
  "sw_calls (drop_wait i s) = sw_calls s" "set (sw_waits (drop_wait i s)) \<subseteq> set (sw_waits s)"
  by (auto simp: drop_wait_def dest: in_set_takeD in_set_dropD)

lemma drop_regular: "sw_regular e s \<Longrightarrow> sw_regular e (drop_wait i s)"
  using drop_wait_simps(2) [of i s] unfolding sw_regular_def drop_wait_simps(1) by blast

interpretation registering: invariant_machine "\<lambda>s. register_worker e sw_new = (None, s)" "sw_step e" "sw_regular e" for e
proof
  show "sw_regular e s" if "register_worker e sw_new = (None, s)" for s
    using that by (auto simp: register_worker_def sw_new_def sw_regular_def sw_await_def sw_eligible_def
        split: if_splits option.splits)
  show "sw_regular e t" if "sw_regular e s" "sw_step e s t" for s t
    using that(2,1)
  proof (cases rule: sw_step.cases)
    case (reached i a)
    have "sw_waits s ! i \<in> set (sw_waits s)" using reached by simp
    then have "sw_eligible e" "wait_regular e (set (sw_calls s)) (sw_waits s ! i)"
      using that(1) unfolding sw_regular_def by blast+
    then show ?thesis unfolding reached(1) using that(1) by (intro resume_regular drop_regular) simp_all
  qed (auto simp: sw_regular_def sw_defs intro: wait_regular_more)
qed

theorem worker_registered_only_when_valid:
  assumes "register_worker e sw_new = (None, s0)" and "(sw_step e)\<^sup>*\<^sup>* s0 s"
  shows "(Register u \<in> set (sw_calls s) \<longrightarrow> sw_eligible e \<and> (isLocalhost (pe_hostname e) \<longrightarrow> Fetch u \<in> set (sw_calls s)))
    \<and> (Reload \<in> set (sw_calls s) \<longrightarrow> isLocalhost (pe_hostname e) \<and> Unregister \<in> set (sw_calls s))"
  using registering.inv_reach [OF assms] by (simp add: sw_regular_def)

end
